(* ===== verification/Prelude.thy ===== *)
theory Prelude
  imports Main
begin

text \<open>
  Shared vocabulary of the development: identifiers and times, database tables as lists of
  rows, Python's page clamping and duration conversion, and the exception-and-state monad in
  which the asynchronous functions of \<open>backend/app\<close> are written, with a small Hoare logic.

  Times are integers counting microseconds, which is the resolution of Python's
  \<open>datetime\<close> and \<open>timedelta\<close>; a difference of two times is a duration in the same unit.
  Identifiers (\<open>uuid.UUID\<close>) are their canonical strings.
\<close>

type_synonym uuid = string
type_synonym time = int
type_synonym duration = int

named_theorems hoare "rules of the Hoare logic for the state-and-exception monad"
named_theorems monad "definitional equations of the monad's operations"
named_theorems run "equations that run the first command of a program on a given state"
named_theorems status_simps "equations of the status enumerations and transition tables"


section \<open>Durations\<close>

text \<open>
  \<open>int(x * 1000)\<close> for a duration \<open>x\<close> in seconds: whole milliseconds, truncated towards zero.
  The float product is taken exactly; IEEE rounding of the product is not modelled.
\<close>

definition to_ms :: "duration \<Rightarrow> int" where
  "to_ms d = sgn d * (\<bar>d\<bar> div 1000)"

lemma to_ms_nonneg: "0 \<le> d \<Longrightarrow> 0 \<le> to_ms d"
  by (cases "d = 0") (simp_all add: to_ms_def pos_imp_zdiv_nonneg_iff)


section \<open>Tables\<close>

text \<open>
  A table is the list of its rows in insertion order. \<open>row_get\<close> is the primary-key lookup
  of \<open>db.get\<close>, \<open>row_put\<close> the flush of an added or changed row, \<open>update_where\<close> a bulk
  \<open>UPDATE ... WHERE\<close>, \<open>order_by\<close> a stable \<open>ORDER BY\<close>.
\<close>

definition row_get :: "('r \<Rightarrow> 'k) \<Rightarrow> 'k \<Rightarrow> 'r list \<Rightarrow> 'r option" where
  "row_get key k t = find (\<lambda>r. key r = k) t"

fun row_put :: "('r \<Rightarrow> 'k) \<Rightarrow> 'r \<Rightarrow> 'r list \<Rightarrow> 'r list" where
  "row_put key r [] = [r]"
| "row_put key r (x # xs) = (if key x = key r then r # xs else x # row_put key r xs)"

definition update_where :: "('r \<Rightarrow> bool) \<Rightarrow> ('r \<Rightarrow> 'r) \<Rightarrow> 'r list \<Rightarrow> 'r list" where
  "update_where p f t = map (\<lambda>r. if p r then f r else r) t"

definition order_by :: "('r \<Rightarrow> 'k::linorder) \<Rightarrow> 'r list \<Rightarrow> 'r list" where
  "order_by f t = sort_key f t"

definition first_row :: "'r list \<Rightarrow> 'r option" where
  "first_row t = (case t of [] \<Rightarrow> None | r # _ \<Rightarrow> Some r)"

lemma row_get_Nil [simp]: "row_get key k [] = None"
  by (simp add: row_get_def)

lemma row_get_Cons [simp]:
  "row_get key k (r # t) = (if key r = k then Some r else row_get key k t)"
  by (simp add: row_get_def)

lemma row_get_SomeD: "row_get key k t = Some r \<Longrightarrow> r \<in> set t \<and> key r = k"
  by (induction t) (auto split: if_splits)

lemma row_get_None_iff: "row_get key k t = None \<longleftrightarrow> k \<notin> key ` set t"
  by (induction t) auto

lemma row_get_put: "row_get key k (row_put key r t) = (if k = key r then Some r else row_get key k t)"
  by (induction t) auto

lemma set_row_put: "set (row_put key r t) \<subseteq> insert r (set t)"
  by (induction t) auto

lemma row_put_mem: "r \<in> set (row_put key r t)"
  by (induction t) auto

lemma keys_row_put: "key ` set (row_put key r t) = insert (key r) (key ` set t)"
  by (induction t) auto

lemma distinct_row_put: "distinct (map key t) \<Longrightarrow> distinct (map key (row_put key r t))"
proof (induction t)
  case (Cons x xs)
  then show ?case
    using keys_row_put [of key r xs] by (auto simp: image_iff)
qed simp

lemma row_get_mem: "distinct (map key t) \<Longrightarrow> r \<in> set t \<Longrightarrow> row_get key (key r) t = Some r"
  by (induction t) (auto simp: image_iff)

lemma row_put_fresh: "key r \<notin> key ` set t \<Longrightarrow> row_put key r t = t @ [r]"
  by (induction t) auto

lemma row_put_id: "row_get key (key r) t = Some r \<Longrightarrow> row_put key r t = t"
  by (induction t) (auto split: if_splits)

lemma mem_row_put:
  "distinct (map key t) \<Longrightarrow> x \<in> set (row_put key r t) \<longleftrightarrow> x = r \<or> (x \<in> set t \<and> key x \<noteq> key r)"
  by (induction t) (auto simp: image_iff)

lemma set_update_where: "set (update_where p f t) = (\<lambda>r. if p r then f r else r) ` set t"
  by (simp add: update_where_def)

lemma length_update_where [simp]: "length (update_where p f t) = length t"
  by (simp add: update_where_def)

lemma row_get_update_where:
  assumes "\<And>r. key (f r) = key r"
  shows "row_get key k (update_where p f t)
    = map_option (\<lambda>r. if p r then f r else r) (row_get key k t)"
  using assms by (induction t) (auto simp: update_where_def)

lemma map_key_update_where:
  assumes "\<And>r. key (f r) = key r"
  shows "map key (update_where p f t) = map key t"
  using assms by (simp add: update_where_def)

lemma set_order_by [simp]: "set (order_by f t) = set t"
  by (simp add: order_by_def)

lemma sorted_order_by: "sorted (map f (order_by f t))"
  by (simp add: order_by_def)

lemma first_row_SomeD: "first_row t = Some r \<Longrightarrow> r \<in> set t"
  by (cases t) (auto simp: first_row_def)

lemma first_row_simps [simp]: "first_row [] = None" "first_row (r # t) = Some r"
  by (simp_all add: first_row_def)

lemma order_by_Nil_iff [simp]: "order_by f t = [] \<longleftrightarrow> t = []"
  using set_order_by [of f t] by (metis set_empty)

lemma order_by_Nil [simp]: "order_by f [] = []"
  by simp

lemma first_row_None [simp]: "first_row t = None \<longleftrightarrow> t = []"
  by (cases t) (auto simp: first_row_def)

text \<open>The first row of an ordered query has the least key.\<close>

lemma first_row_order_by_least:
  assumes "first_row (order_by f t) = Some r" and "s \<in> set t"
  shows "f r \<le> f s"
proof -
  from assms(1) obtain rs where rs: "order_by f t = r # rs"
    by (cases "order_by f t") (auto simp: first_row_def)
  have "sorted (map f (r # rs))" using sorted_order_by [of f t] rs by simp
  moreover have "s = r \<or> s \<in> set rs" using assms(2) rs set_order_by [of f t] by auto
  ultimately show ?thesis by auto
qed

text \<open>
  The contract every table meets, proved once for \<open>row_get\<close> and \<open>row_put\<close> and interpreted
  for each table of the data model: reading after writing, frame, and the known keys.
\<close>

locale row_store =
  fixes key :: "'r \<Rightarrow> 'k"
    and get :: "'k \<Rightarrow> 't \<Rightarrow> 'r option"
    and put :: "'r \<Rightarrow> 't \<Rightarrow> 't"
  assumes get_put: "get k (put r t) = (if k = key r then Some r else get k t)"
    and get_key: "get k t = Some r \<Longrightarrow> key r = k"
begin

lemma get_put_same [simp]: "get (key r) (put r t) = Some r"
  by (simp add: get_put)

lemma get_put_other: "k \<noteq> key r \<Longrightarrow> get k (put r t) = get k t"
  by (simp add: get_put)

lemma put_overwrites: "key r = key s \<Longrightarrow> get k (put r (put s t)) = get k (put r t)"
  by (simp add: get_put)

lemma put_commutes: "key r \<noteq> key s \<Longrightarrow> get k (put r (put s t)) = get k (put s (put r t))"
  by (auto simp: get_put)

end

lemma row_store_rows: "row_store key (row_get key) (row_put key)"
  by unfold_locales (auto simp: row_get_put dest: row_get_SomeD)


section \<open>State and exceptions\<close>

text \<open>
  An asynchronous function of the code runs on a state (the database, the oracles' position)
  and returns a value or raises: \<open>Inl\<close> is the exception in flight, \<open>Inr\<close> the value returned.
  The state reached when an exception is raised is kept, since everything committed before
  the \<open>raise\<close> stays committed.
\<close>

type_synonym ('w, 'e, 'a) m = "'w \<Rightarrow> ('e + 'a) \<times> 'w"

definition ret :: "'a \<Rightarrow> ('w, 'e, 'a) m" where
  "ret x w = (Inr x, w)"

definition raise :: "'e \<Rightarrow> ('w, 'e, 'a) m" where
  "raise e w = (Inl e, w)"

definition bindM :: "('w, 'e, 'a) m \<Rightarrow> ('a \<Rightarrow> ('w, 'e, 'b) m) \<Rightarrow> ('w, 'e, 'b) m" where
  "bindM p f w = (case p w of (Inl e, w') \<Rightarrow> (Inl e, w') | (Inr x, w') \<Rightarrow> f x w')"

definition seqM :: "('w, 'e, 'a) m \<Rightarrow> ('w, 'e, 'b) m \<Rightarrow> ('w, 'e, 'b) m" where
  "seqM p q = bindM p (\<lambda>_. q)"

definition catchM :: "('w, 'e, 'a) m \<Rightarrow> ('e \<Rightarrow> ('w, 'e, 'a) m) \<Rightarrow> ('w, 'e, 'a) m" where
  "catchM p h w = (case p w of (Inl e, w') \<Rightarrow> h e w' | (Inr x, w') \<Rightarrow> (Inr x, w'))"

definition getM :: "('w \<Rightarrow> 'a) \<Rightarrow> ('w, 'e, 'a) m" where
  "getM f w = (Inr (f w), w)"

definition modifyM :: "('w \<Rightarrow> 'w) \<Rightarrow> ('w, 'e, unit) m" where
  "modifyM f w = (Inr (), f w)"

definition liftE :: "'e + 'a \<Rightarrow> ('w, 'e, 'a) m" where
  "liftE r w = (r, w)"

declare ret_def [monad] raise_def [monad] bindM_def [monad] seqM_def [monad]
  catchM_def [monad] getM_def [monad] modifyM_def [monad] liftE_def [monad]

lemma bindM_ret [simp]: "bindM (ret x) f = f x"
  by (rule ext) (simp add: monad)

lemma bindM_raise [simp]: "bindM (raise e) f = raise e"
  by (rule ext) (simp add: monad)

text \<open>Running a program one command at a time, without unfolding what comes after.\<close>

lemma bindM_getM [run]: "bindM (getM f) g w = g (f w) w"
  by (simp add: monad)

lemma bindM_modifyM [run]: "bindM (modifyM f) g w = g () (f w)"
  by (simp add: monad)

lemma seqM_modifyM [run]: "seqM (modifyM f) q w = q (f w)"
  by (simp add: monad)

lemma bindM_liftE [run]: "bindM (liftE (Inr x)) g = g x" "bindM (liftE (Inl e)) g = raise e"
  by (rule ext, simp add: monad)+

lemma bindM_run [run]: "p w = (Inr x, w') \<Longrightarrow> bindM p f w = f x w'"
  by (simp add: monad)

lemma bindM_fail [run]: "p w = (Inl e, w') \<Longrightarrow> bindM p f w = (Inl e, w')"
  by (simp add: monad)

lemma run_catchM [run]:
  "p w = (Inr x, w') \<Longrightarrow> catchM p h w = (Inr x, w')"
  "p w = (Inl e, w') \<Longrightarrow> catchM p h w = h e w'"
  by (simp_all add: catchM_def)

lemma seqM_run [run]: "p w = (Inr x, w') \<Longrightarrow> seqM p q w = q w'"
  by (simp add: monad)

lemma seqM_fail [run]: "p w = (Inl e, w') \<Longrightarrow> seqM p q w = (Inl e, w')"
  by (simp add: monad)

lemma seqM_assoc [run]: "seqM (seqM p q) r = seqM p (seqM q r)" "seqM (bindM p f) r = bindM p (\<lambda>x. seqM (f x) r)"
  by (rule ext, auto simp: monad split: sum.splits prod.splits)+

lemma bindM_seqM [run]: "bindM (seqM p q) f = seqM p (bindM q f)"
  by (rule ext, auto simp: monad split: sum.splits prod.splits)

lemma finish_run [run]: "ret x w = (Inr x, w)" "raise e w = (Inl e, w)" "seqM (ret y) q = q"
  "seqM (raise e) q' = raise e" "modifyM f w = (Inr (), f w)" "getM h w = (Inr (h w), w)"
  by (auto intro!: ext simp: monad)

lemma bindM_assoc: "bindM (bindM p f) g = bindM p (\<lambda>x. bindM (f x) g)"
  by (rule ext) (auto simp: monad split: sum.splits prod.splits)

text \<open>
  The Hoare triple of the monad: from a state satisfying \<open>P\<close>, a returned value and the state
  then satisfy \<open>Q\<close>, a raised exception and the state then satisfy \<open>E\<close>. Every function of the
  monad terminates, so the triple is one of total correctness.
\<close>

definition triple ::
  "('w \<Rightarrow> bool) \<Rightarrow> ('w, 'e, 'a) m \<Rightarrow> ('a \<Rightarrow> 'w \<Rightarrow> bool) \<Rightarrow> ('e \<Rightarrow> 'w \<Rightarrow> bool) \<Rightarrow> bool" where
  "triple P p Q E \<longleftrightarrow> (\<forall>w. P w \<longrightarrow>
     (case p w of (Inl e, w') \<Rightarrow> E e w' | (Inr x, w') \<Rightarrow> Q x w'))"

lemma tripleI:
  assumes "\<And>w r w'. P w \<Longrightarrow> p w = (r, w') \<Longrightarrow> (case r of Inl e \<Rightarrow> E e w' | Inr x \<Rightarrow> Q x w')"
  shows "triple P p Q E"
  unfolding triple_def using assms by (auto split: prod.splits sum.splits)

lemma tripleD_Inr: "triple P p Q E \<Longrightarrow> P w \<Longrightarrow> p w = (Inr x, w') \<Longrightarrow> Q x w'"
  unfolding triple_def by (auto dest: spec [of _ w])

lemma tripleD_Inl: "triple P p Q E \<Longrightarrow> P w \<Longrightarrow> p w = (Inl e, w') \<Longrightarrow> E e w'"
  unfolding triple_def by (auto dest: spec [of _ w])

lemma triple_ret [hoare]: "triple (Q x) (ret x) Q E"
  by (simp add: triple_def monad)

lemma triple_raise [hoare]: "triple (E e) (raise e) Q E"
  by (simp add: triple_def monad)

lemma triple_getM [hoare]: "triple (\<lambda>w. Q (f w) w) (getM f) Q E"
  by (simp add: triple_def monad)

lemma triple_modifyM [hoare]: "triple (\<lambda>w. Q () (f w)) (modifyM f) Q E"
  by (simp add: triple_def monad)

lemma triple_bindM:
  assumes "triple P p R E" and "\<And>x. triple (R x) (f x) Q E"
  shows "triple P (bindM p f) Q E"
  using assms unfolding triple_def monad
  by (fastforce split: sum.splits prod.splits)

lemma triple_seqM:
  assumes "triple P p (\<lambda>_. R) E" and "triple R q Q E"
  shows "triple P (seqM p q) Q E"
  unfolding seqM_def using assms by (rule triple_bindM)

lemma triple_catchM:
  assumes "triple P p Q R" and "\<And>e. triple (R e) (h e) Q E"
  shows "triple P (catchM p h) Q E"
  using assms unfolding triple_def monad
  by (fastforce split: sum.splits prod.splits)

lemma triple_conseq:
  assumes "triple P p Q E" and "\<And>w. P' w \<Longrightarrow> P w" and "\<And>x w. Q x w \<Longrightarrow> Q' x w"
    and "\<And>e w. E e w \<Longrightarrow> E' e w"
  shows "triple P' p Q' E'"
  using assms unfolding triple_def by (fastforce split: sum.splits prod.splits)

lemma triple_liftE [hoare]:
  "triple (\<lambda>w. case r of Inl e \<Rightarrow> E e w | Inr x \<Rightarrow> Q x w) (liftE r) Q E"
  by (simp add: triple_def monad split: sum.splits)

text \<open>A state predicate every run of a program keeps, whether it returns or raises.\<close>

definition keeps :: "('w \<Rightarrow> bool) \<Rightarrow> ('w, 'e, 'a) m \<Rightarrow> bool" where
  "keeps I p \<longleftrightarrow> (\<forall>w. I w \<longrightarrow> I (snd (p w)))"

lemma keepsD: "keeps I p \<Longrightarrow> I w \<Longrightarrow> p w = (r, w') \<Longrightarrow> I w'"
  unfolding keeps_def by (metis snd_conv)

lemma keeps_ret [simp, intro]: "keeps I (ret x)"
  by (simp add: keeps_def monad)

lemma keeps_raise [simp, intro]: "keeps I (raise e)"
  by (simp add: keeps_def monad)

lemma keeps_getM [simp, intro]: "keeps I (getM f)"
  by (simp add: keeps_def monad)

lemma keeps_liftE [simp, intro]: "keeps I (liftE r)"
  by (simp add: keeps_def monad)

lemma keeps_modifyM: "(\<And>w. I w \<Longrightarrow> I (f w)) \<Longrightarrow> keeps I (modifyM f)"
  by (simp add: keeps_def monad)

lemma keeps_bindM: "keeps I p \<Longrightarrow> (\<And>x. keeps I (f x)) \<Longrightarrow> keeps I (bindM p f)"
  by (fastforce simp: keeps_def monad split: sum.splits prod.splits)

lemma keeps_seqM: "keeps I p \<Longrightarrow> keeps I q \<Longrightarrow> keeps I (seqM p q)"
  unfolding seqM_def by (rule keeps_bindM)

lemma keeps_catchM: "keeps I p \<Longrightarrow> (\<And>e. keeps I (h e)) \<Longrightarrow> keeps I (catchM p h)"
  by (fastforce simp: keeps_def monad split: sum.splits prod.splits)

lemmas keeps_rules = keeps_bindM keeps_seqM keeps_catchM


section \<open>Pure functions that raise\<close>

text \<open>Sequencing of results, and a loop that stops at the first exception.\<close>

definition bindE :: "'e + 'a \<Rightarrow> ('a \<Rightarrow> 'e + 'b) \<Rightarrow> 'e + 'b" where
  "bindE r f = (case r of Inl e \<Rightarrow> Inl e | Inr x \<Rightarrow> f x)"

fun mapE :: "('a \<Rightarrow> 'e + 'b) \<Rightarrow> 'a list \<Rightarrow> 'e + 'b list" where
  "mapE f [] = Inr []"
| "mapE f (x # xs) =
     (case f x of Inl e \<Rightarrow> Inl e
      | Inr y \<Rightarrow> (case mapE f xs of Inl e \<Rightarrow> Inl e | Inr ys \<Rightarrow> Inr (y # ys)))"

lemma bindE_simps [simp]: "bindE (Inl e) f = Inl e" "bindE (Inr x) f = f x"
  by (simp_all add: bindE_def)

lemma bindE_InrD: "bindE r f = Inr y \<Longrightarrow> \<exists>x. r = Inr x \<and> f x = Inr y"
  by (cases r) auto

lemma mapE_Inr_iff: "mapE f xs = Inr ys \<longleftrightarrow> list_all2 (\<lambda>x y. f x = Inr y) xs ys"
proof (induction xs arbitrary: ys)
  case (Cons x xs)
  then show ?case
    by (auto simp: list_all2_Cons1 dest: Cons.IH [THEN iffD1] Cons.IH [THEN iffD2] split: sum.splits)
qed auto

lemma mapE_length: "mapE f xs = Inr ys \<Longrightarrow> length ys = length xs"
  using list_all2_lengthD mapE_Inr_iff by metis

section \<open>Which exceptions may be raised\<close>

definition errs :: "('e \<Rightarrow> bool) \<Rightarrow> 'e + 'a \<Rightarrow> bool" where
  "errs P r \<longleftrightarrow> (\<forall>e. r = Inl e \<longrightarrow> P e)"

definition raises_only :: "('e \<Rightarrow> bool) \<Rightarrow> ('w, 'e, 'a) m \<Rightarrow> bool" where
  "raises_only P p \<longleftrightarrow> (\<forall>w e w'. p w = (Inl e, w') \<longrightarrow> P e)"

lemma errs_simps [simp]: "errs P (Inr x)" "errs P (Inl e) \<longleftrightarrow> P e"
  by (simp_all add: errs_def)

lemma errs_bindE: "errs P r \<Longrightarrow> (\<And>x. errs P (f x)) \<Longrightarrow> errs P (bindE r f)"
  by (cases r) simp_all

lemma errs_mapE: "(\<And>x. errs P (f x)) \<Longrightarrow> errs P (mapE f xs)"
proof (induction xs)
  case (Cons x xs)
  then show ?case using Cons(2) [of x] by (auto simp: errs_def split: sum.splits)
qed simp

lemma errsD: "errs P r \<Longrightarrow> r = Inl e \<Longrightarrow> P e"
  by (simp add: errs_def)

lemma raises_onlyD: "raises_only P p \<Longrightarrow> p w = (Inl e, w') \<Longrightarrow> P e"
  unfolding raises_only_def by blast

lemma raises_only_ret [simp, intro]: "raises_only P (ret x)" "raises_only P (getM f)" "raises_only P (modifyM g)"
  by (simp_all add: raises_only_def monad)

lemma raises_only_raise [simp]: "raises_only P (raise e) \<longleftrightarrow> P e"
  by (simp add: raises_only_def monad)

lemma raises_only_liftE [simp]: "raises_only P (liftE r) \<longleftrightarrow> errs P r"
  by (auto simp: raises_only_def errs_def monad)

lemma raises_only_bindM:
  "raises_only P p \<Longrightarrow> (\<And>x. raises_only P (f x)) \<Longrightarrow> raises_only P (bindM p f)"
  unfolding raises_only_def monad by (auto split: prod.splits sum.splits)

lemma raises_only_seqM: "raises_only P p \<Longrightarrow> raises_only P q \<Longrightarrow> raises_only P (seqM p q)"
  by (simp add: seqM_def raises_only_bindM)

lemma raises_only_catchM: "raises_only Q p \<Longrightarrow> (\<And>e. Q e \<Longrightarrow> raises_only P (h e)) \<Longrightarrow> raises_only P (catchM p h)"
  unfolding raises_only_def monad by (auto split: prod.splits sum.splits) blast

lemma raises_only_mono: "raises_only P p \<Longrightarrow> (\<And>e. P e \<Longrightarrow> Q e) \<Longrightarrow> raises_only Q p"
  unfolding raises_only_def by blast

lemmas raises_only_rules = raises_only_bindM raises_only_seqM

end
