(* ===== verification/PyJson.thy ===== *)
theory PyJson
  imports Complex_Main Prelude
begin

text \<open>
  The dynamically typed values the code inspects: JSON documents from JSONB columns, request
  bodies and provider replies, with Python's truth test, \<open>isinstance\<close> tests, \<open>dict.get\<close>,
  subscription, and the parts of \<open>str\<close> and \<open>repr\<close> that error messages use. A character is
  a code point below 256. A JSON object is the list of its members with distinct keys.
\<close>

datatype json =
    JNull
  | JBool bool
  | JInt int
  | JFloat rat
  | JStr string
  | JArr "json list"
  | JObj "(string \<times> json) list"

type_synonym jdict = "(string \<times> json) list"

text \<open>\<open>d.get(k)\<close>, where a missing key gives Python's \<open>None\<close>, and \<open>d.get(k, default)\<close>.\<close>

definition dict_get :: "jdict \<Rightarrow> string \<Rightarrow> json" where
  "dict_get d k = (case map_of d k of None \<Rightarrow> JNull | Some v \<Rightarrow> v)"

definition dict_get_default :: "jdict \<Rightarrow> string \<Rightarrow> json \<Rightarrow> json" where
  "dict_get_default d k v = (case map_of d k of None \<Rightarrow> v | Some x \<Rightarrow> x)"

definition has_key :: "jdict \<Rightarrow> string \<Rightarrow> bool" where
  "has_key d k \<longleftrightarrow> map_of d k \<noteq> None"

text \<open>Python's truth value of an object.\<close>

fun truthy :: "json \<Rightarrow> bool" where
  "truthy JNull = False"
| "truthy (JBool b) = b"
| "truthy (JInt n) = (n \<noteq> 0)"
| "truthy (JFloat x) = (x \<noteq> 0)"
| "truthy (JStr s) = (s \<noteq> [])"
| "truthy (JArr xs) = (xs \<noteq> [])"
| "truthy (JObj kvs) = (kvs \<noteq> [])"

text \<open>\<open>isinstance(x, int)\<close> holds of booleans too, \<open>bool\<close> being a subclass of \<open>int\<close>.\<close>

fun is_int :: "json \<Rightarrow> bool" where
  "is_int (JInt _) = True"
| "is_int (JBool _) = True"
| "is_int _ = False"

fun is_bool :: "json \<Rightarrow> bool" where
  "is_bool (JBool _) = True"
| "is_bool _ = False"

fun is_str :: "json \<Rightarrow> bool" where
  "is_str (JStr _) = True"
| "is_str _ = False"

fun is_list :: "json \<Rightarrow> bool" where
  "is_list (JArr _) = True"
| "is_list _ = False"

fun is_dict :: "json \<Rightarrow> bool" where
  "is_dict (JObj _) = True"
| "is_dict _ = False"

fun int_of :: "json \<Rightarrow> int" where
  "int_of (JInt n) = n"
| "int_of (JBool b) = (if b then 1 else 0)"
| "int_of _ = 0"

fun str_of :: "json \<Rightarrow> string" where
  "str_of (JStr s) = s"
| "str_of _ = []"

lemma is_str_cases: "is_str v \<Longrightarrow> v = JStr (str_of v)"
  by (cases v) auto

text \<open>\<open>x if isinstance(x, str) else None\<close>.\<close>

definition opt_str :: "json \<Rightarrow> string option" where
  "opt_str v = (case v of JStr s \<Rightarrow> Some s | _ \<Rightarrow> None)"


section \<open>Text of values\<close>

text \<open>Decimal digits of a natural number and the text of an integer, as \<open>str(n)\<close> prints them.\<close>

fun digits :: "nat \<Rightarrow> string" where
  "digits n = (if n < 10 then [char_of (48 + n)] else digits (n div 10) @ [char_of (48 + n mod 10)])"

declare digits.simps [simp del]

definition show_int :: "int \<Rightarrow> string" where
  "show_int n = (if n < 0 then ''-'' @ digits (nat (- n)) else digits (nat n))"

text \<open>
  \<open>repr\<close> of a string: single quotes unless the text has a single quote and no double quote;
  the quote, the backslash and the control characters are escaped.
\<close>

definition hex_digit :: "nat \<Rightarrow> char" where
  "hex_digit n = (if n < 10 then char_of (48 + n) else char_of (87 + n))"

definition repr_char :: "char \<Rightarrow> char \<Rightarrow> string" where
  "repr_char q c =
     (let n = of_char c :: nat in
      if c = q \<or> n = 92 then [CHR 0x5C, c]
      else if n = 10 then [CHR 0x5C, CHR ''n'']
      else if n = 13 then [CHR 0x5C, CHR ''r'']
      else if n = 9 then [CHR 0x5C, CHR ''t'']
      else if n < 32 \<or> (127 \<le> n \<and> n \<le> 160) \<or> n = 173
        then [CHR 0x5C, CHR ''x'', hex_digit (n div 16), hex_digit (n mod 16)]
      else [c])"

definition repr_str :: "string \<Rightarrow> string" where
  "repr_str s =
     (let q = (if CHR 0x27 \<in> set s \<and> CHR 0x22 \<notin> set s then CHR 0x22 else CHR 0x27)
      in [q] @ concat (map (repr_char q) s) @ [q])"

text \<open>\<open>s.strip()\<close> with Python's whitespace, and \<open>sep.join(parts)\<close>.\<close>

definition py_space :: "char \<Rightarrow> bool" where
  "py_space c = (let n = of_char c :: nat in
     (9 \<le> n \<and> n \<le> 13) \<or> (28 \<le> n \<and> n \<le> 32) \<or> n = 133 \<or> n = 160)"

definition strip :: "string \<Rightarrow> string" where
  "strip s = rev (dropWhile py_space (rev (dropWhile py_space s)))"

fun join :: "string \<Rightarrow> string list \<Rightarrow> string" where
  "join sep [] = []"
| "join sep [x] = x"
| "join sep (x # y # ys) = x @ sep @ join sep (y # ys)"

lemma strip_Nil [simp]: "strip [] = []"
  by (simp add: strip_def)

lemma all_dropWhile_iff: "(\<forall>c\<in>set (dropWhile P s). P c) \<longleftrightarrow> dropWhile P s = []"
proof (cases "dropWhile P s")
  case (Cons x xs)
  then have "\<not> P x" using hd_dropWhile [of P s] by simp
  with Cons show ?thesis by auto
qed (auto dest: set_dropWhileD)

lemma strip_empty_iff: "strip s = [] \<longleftrightarrow> (\<forall>c\<in>set s. py_space c)"
  by (simp add: strip_def dropWhile_eq_Nil_conv all_dropWhile_iff)

lemma join_singleton_sep: "join [] xs = concat xs"
  by (induction "[] :: string" xs rule: join.induct) auto

text \<open>\<open>s.split()\<close>: the maximal runs of non-whitespace.\<close>

fun words_aux :: "string \<Rightarrow> string \<Rightarrow> string list" where
  "words_aux acc [] = (if acc = [] then [] else [rev acc])"
| "words_aux acc (c # cs) =
     (if py_space c then (if acc = [] then words_aux [] cs else rev acc # words_aux [] cs)
      else words_aux (c # acc) cs)"

definition words :: "string \<Rightarrow> string list" where
  "words s = words_aux [] s"

text \<open>\<open>s.split(sep)\<close> for a one-character separator.\<close>

fun split_on :: "char \<Rightarrow> string \<Rightarrow> string list" where
  "split_on sep [] = [[]]"
| "split_on sep (c # cs) =
     (if c = sep then [] # split_on sep cs
      else (case split_on sep cs of [] \<Rightarrow> [[c]] | p # ps \<Rightarrow> (c # p) # ps))"

lemma split_on_nonempty [simp]: "split_on sep s \<noteq> []"
  by (induction s) (auto split: list.splits)

lemma split_on_parts: "p \<in> set (split_on sep s) \<Longrightarrow> sep \<notin> set p"
  by (induction s arbitrary: p) (auto split: list.splits if_splits)

lemma join_split_on: "join [sep] (split_on sep s) = s"
proof (induction s)
  case (Cons c cs)
  obtain p ps where pp: "split_on sep cs = p # ps" by (cases "split_on sep cs") auto
  with Cons show ?case by (cases ps) auto
qed simp

section \<open>UUID text\<close>

text \<open>\<open>s.replace(pat, '')\<close>: the occurrences found from left to right are dropped.\<close>

function remove_all :: "string \<Rightarrow> string \<Rightarrow> string" where
  "remove_all pat s =
     (if pat = [] \<or> s = [] then s
      else if take (length pat) s = pat then remove_all pat (drop (length pat) s)
      else hd s # remove_all pat (tl s))"
  by pat_completeness auto
termination
  by (relation "measure (\<lambda>(pat, s). length s)") auto

declare remove_all.simps [simp del]

definition strip_chars :: "char set \<Rightarrow> string \<Rightarrow> string" where
  "strip_chars cs s = rev (dropWhile (\<lambda>c. c \<in> cs) (rev (dropWhile (\<lambda>c. c \<in> cs) s)))"

definition to_lower :: "char \<Rightarrow> char" where
  "to_lower c = (let n = of_char c :: nat in if 65 \<le> n \<and> n \<le> 90 then char_of (n + 32) else c)"

definition is_hex :: "char \<Rightarrow> bool" where
  "is_hex c = (let n = of_char c :: nat in
     (48 \<le> n \<and> n \<le> 57) \<or> (65 \<le> n \<and> n \<le> 70) \<or> (97 \<le> n \<and> n \<le> 102))"

text \<open>
  \<open>int(s, 16)\<close>, as the lower-case digits it reads: surrounding blanks, a plus sign, the prefix \<open>0x\<close>
  and single underscores between digits are accepted (a minus sign cannot occur where it is used).
  A text with a non-ASCII character is first rewritten, which turns its non-ASCII blanks into spaces.
\<close>

definition c_space :: "char \<Rightarrow> bool" where
  "c_space c = (let n = of_char c :: nat in (9 \<le> n \<and> n \<le> 13) \<or> n = 32)"

definition ascii_digits :: "string \<Rightarrow> string" where
  "ascii_digits s = map (\<lambda>c. let n = of_char c :: nat in
     if n < 128 then c else if n = 133 \<or> n = 160 then CHR '' '' else CHR ''?'') s"

fun hex_digits :: "bool \<Rightarrow> string \<Rightarrow> string option" where
  "hex_digits after_underscore [] = (if after_underscore then None else Some [])"
| "hex_digits after_underscore (c # cs) =
     (if c = CHR ''_'' then (if after_underscore then None else hex_digits True cs)
      else if is_hex c then map_option ((#) (to_lower c)) (hex_digits False cs)
      else None)"

definition hex_prefix :: "string \<Rightarrow> string" where
  "hex_prefix s =
     (if take 2 s = ''0x'' \<or> take 2 s = ''0X''
      then (let t = drop 2 s in if take 1 t = ''_'' then tl t else t) else s)"

definition int_base_16 :: "string \<Rightarrow> string option" where
  "int_base_16 s =
     (let t = rev (dropWhile c_space (rev (dropWhile c_space (ascii_digits s))))
      in hex_digits True (hex_prefix (if take 1 t = ''+'' then tl t else t)))"

text \<open>
  \<open>uuid.UUID(s)\<close>: the prefixes \<open>urn:\<close> and \<open>uuid:\<close>, surrounding braces and all hyphens are
  dropped; 32 characters that read as a hexadecimal number must remain, else \<open>ValueError\<close> (here
  \<open>None\<close>). The result is the canonical lower-case text.
\<close>

definition uuid_text :: "string \<Rightarrow> uuid" where
  "uuid_text l = take 8 l @ ''-'' @ take 4 (drop 8 l) @ ''-'' @ take 4 (drop 12 l) @ ''-''
                 @ take 4 (drop 16 l) @ ''-'' @ drop 20 l"

definition parse_uuid :: "string \<Rightarrow> uuid option" where
  "parse_uuid s =
     (let h = filter (\<lambda>c. c \<noteq> CHR ''-'')
                (strip_chars {CHR ''{'', CHR ''}''} (remove_all ''uuid:'' (remove_all ''urn:'' s)))
      in if length h \<noteq> 32 then None
         else (case int_base_16 h of None \<Rightarrow> None
               | Some l \<Rightarrow> Some (uuid_text (replicate (32 - length l) CHR ''0'' @ l))))"

lemma hex_digits_length: "hex_digits b s = Some l \<Longrightarrow> length l \<le> length s"
  by (induction b s arbitrary: l rule: hex_digits.induct) (fastforce split: if_splits)+

lemma hex_prefix_length: "length (hex_prefix s) \<le> length s"
  by (auto simp: hex_prefix_def Let_def)

lemma int_base_16_length: "int_base_16 s = Some l \<Longrightarrow> length l \<le> length s"
proof -
  assume l: "int_base_16 s = Some l"
  define t where "t = rev (dropWhile c_space (rev (dropWhile c_space (ascii_digits s))))"
  have "length t \<le> length s"
    using length_dropWhile_le [of c_space "rev (dropWhile c_space (ascii_digits s))"]
      length_dropWhile_le [of c_space "ascii_digits s"]
    by (simp add: t_def ascii_digits_def)
  then have "length (hex_prefix (if take 1 t = ''+'' then tl t else t)) \<le> length s"
    by (intro order_trans [OF hex_prefix_length]) auto
  with hex_digits_length show ?thesis
    using l unfolding int_base_16_def Let_def t_def [symmetric] by (meson le_trans)
qed

lemma uuid_text_length: "length l = 32 \<Longrightarrow> length (uuid_text l) = 36"
  by (simp add: uuid_text_def)

lemma parse_uuid_length: "parse_uuid s = Some u \<Longrightarrow> length u = 36"
  by (auto simp: parse_uuid_def Let_def dest!: int_base_16_length intro!: uuid_text_length
      split: if_splits option.splits)

text \<open>The canonical texts, which \<open>str(uuid)\<close> prints, are read as themselves.\<close>

definition lower_hex :: "char \<Rightarrow> bool" where
  "lower_hex c = (let n = of_char c :: nat in (48 \<le> n \<and> n \<le> 57) \<or> (97 \<le> n \<and> n \<le> 102))"

definition canonical_uuid :: "uuid \<Rightarrow> bool" where
  "canonical_uuid u \<longleftrightarrow> (let l = filter (\<lambda>c. c \<noteq> CHR ''-'') u in
     length l = 32 \<and> list_all lower_hex l \<and> u = uuid_text l)"

lemma remove_all_absent: "c \<in> set pat \<Longrightarrow> c \<notin> set s \<Longrightarrow> remove_all pat s = s"
proof (induction s)
  case (Cons x xs)
  have "take (length pat) (x # xs) \<noteq> pat"
    using Cons.prems set_take_subset [of "length pat" "x # xs"] by auto
  with Cons show ?case by (simp add: remove_all.simps [of pat "x # xs"])
qed (simp add: remove_all.simps)

lemma dropWhile_absent: "\<forall>c\<in>set s. \<not> P c \<Longrightarrow> dropWhile P s = s"
  by (cases s) auto

lemma hex_digits_lower: "list_all lower_hex l \<Longrightarrow> hex_digits False l = Some l"
  by (induction l) (auto simp: lower_hex_def is_hex_def to_lower_def Let_def)

lemma int_base_16_lower:
  assumes "list_all lower_hex l" "l \<noteq> []"
  shows "int_base_16 l = Some l"
proof -
  have lo: "\<And>c. lower_hex c \<Longrightarrow> \<not> c_space c \<and> c \<noteq> CHR ''_'' \<and> c \<noteq> CHR ''+'' \<and> c \<noteq> CHR ''x''
      \<and> c \<noteq> CHR ''X'' \<and> (of_char c :: nat) < 128"
    by (auto simp: lower_hex_def c_space_def Let_def)
  have all: "\<forall>c\<in>set l. lower_hex c" using assms(1) by (simp add: list_all_iff)
  have "ascii_digits l = l" unfolding ascii_digits_def Let_def by (rule map_idI) (use all lo in simp)
  moreover have "dropWhile c_space l = l" "dropWhile c_space (rev l) = rev l"
    by (rule dropWhile_absent; use all lo in simp)+
  moreover obtain a m where am: "l = a # m" using assms(2) by (cases l) auto
  moreover have "hex_prefix l = l" using all lo am by (cases m) (auto simp: hex_prefix_def)
  moreover have "hex_digits True l = hex_digits False l" using all lo am by auto
  ultimately show ?thesis
    using hex_digits_lower [OF assms(1)] all lo unfolding int_base_16_def Let_def by auto
qed

lemma parse_uuid_canonical: "canonical_uuid u \<Longrightarrow> parse_uuid u = Some u"
proof -
  assume c: "canonical_uuid u"
  define l where "l = filter (\<lambda>c. c \<noteq> CHR ''-'') u"
  from c have l: "length l = 32" "list_all lower_hex l" "u = uuid_text l"
    by (simp_all add: canonical_uuid_def Let_def l_def)
  have "set u \<subseteq> insert CHR ''-'' (set l)" by (auto simp: l_def)
  moreover have "\<forall>c\<in>set l. c \<noteq> CHR '':'' \<and> c \<noteq> CHR ''{'' \<and> c \<noteq> CHR ''}''"
    using l(2) by (auto simp: list_all_iff lower_hex_def Let_def)
  ultimately have none: "CHR '':'' \<notin> set u" "\<forall>c\<in>set u. c \<noteq> CHR ''{'' \<and> c \<noteq> CHR ''}''" by auto
  have "remove_all ''urn:'' u = u" "remove_all ''uuid:'' u = u"
    by (rule remove_all_absent [of "CHR '':''"]; use none in simp)+
  moreover have "strip_chars {CHR ''{'', CHR ''}''} u = u"
    using none(2) by (simp add: strip_chars_def dropWhile_absent)
  moreover have "filter (\<lambda>c. c \<noteq> CHR ''-'') u = l" by (simp add: l_def)
  moreover have "int_base_16 l = Some l" by (rule int_base_16_lower) (use l(1,2) in auto)
  ultimately show ?thesis using l(1) l(3) [symmetric] by (simp add: parse_uuid_def)
qed

end
