(* ===== verification/JsonText.thy ===== *)
theory JsonText
  imports PyJson
begin

text \<open>
  The parts of Python's \<open>json\<close>, \<open>str\<close> and \<open>decimal\<close> that the configuration, the gateway and
  the protocol clients use: \<open>json.loads\<close> as a recursive-descent parser, the indented \<open>json.dumps\<close>,
  \<open>str(value)\<close> of a parsed document, and \<open>Decimal(text)\<close>. Limits: the literals NaN and Infinity, surrogate escapes and
  escapes of code points from 256 up are rejected; a float is the exact value of its text, and its
  \<open>str\<close> the plain decimal expansion, which is Python's for at most 15 significant digits
  and magnitudes from 1e-4 to 1e16; a Decimal is exact, with no 28-digit context.
\<close>

section \<open>Dictionaries\<close>

text \<open>\<open>d[k] = v\<close>: the value is replaced in place, a new key goes last.\<close>

fun dict_set :: "(string \<times> 'v) list \<Rightarrow> string \<Rightarrow> 'v \<Rightarrow> (string \<times> 'v) list" where
  "dict_set [] k v = [(k, v)]"
| "dict_set ((k', v') # d) k v = (if k' = k then (k, v) # d else (k', v') # dict_set d k v)"

lemma map_of_dict_set: "map_of (dict_set d k v) = (map_of d)(k \<mapsto> v)"
  by (induction d k v rule: dict_set.induct) auto

lemma keys_dict_set: "fst ` set (dict_set d k v) = insert k (fst ` set d)"
  by (induction d k v rule: dict_set.induct) auto

lemma distinct_dict_set: "distinct (map fst d) \<Longrightarrow> distinct (map fst (dict_set d k v))"
proof (induction d k v rule: dict_set.induct)
  case (2 k' v' d k v)
  then show ?case using keys_dict_set [of d k v] by (auto simp: image_iff)
qed simp


section \<open>json.loads\<close>

definition json_ws :: "char \<Rightarrow> bool" where
  "json_ws c \<longleftrightarrow> of_char c \<in> {9, 10, 13, 32 :: nat}"

definition skip_ws :: "string \<Rightarrow> string" where
  "skip_ws s = dropWhile json_ws s"

definition is_digit :: "char \<Rightarrow> bool" where
  "is_digit c \<longleftrightarrow> 48 \<le> (of_char c :: nat) \<and> (of_char c :: nat) \<le> 57"

definition digit_value :: "char \<Rightarrow> nat" where
  "digit_value c = (let n = of_char c :: nat in
     if n \<le> 57 then n - 48 else if n \<le> 70 then n - 55 else n - 87)"

definition digits_value :: "nat \<Rightarrow> string \<Rightarrow> nat" where
  "digits_value b ds = foldl (\<lambda>n c. b * n + digit_value c) 0 ds"

definition pow10 :: "int \<Rightarrow> rat" where
  "pow10 e = (if 0 \<le> e then 10 ^ nat e else 1 / 10 ^ nat (- e))"

text \<open>An optional exponent: its value and the rest of the text; \<open>None\<close> when there is none.\<close>

definition parse_exponent :: "string \<Rightarrow> (int \<times> string) option" where
  "parse_exponent s =
     (case s of [] \<Rightarrow> None
      | e # t \<Rightarrow>
          if e \<notin> {CHR ''e'', CHR ''E''} then None
          else (let neg = (t \<noteq> [] \<and> hd t = CHR ''-'');
                    t' = (if t \<noteq> [] \<and> hd t \<in> {CHR ''-'', CHR ''+''} then tl t else t);
                    ds = takeWhile is_digit t'
                in if ds = [] then None
                   else Some ((if neg then - 1 else 1) * int (digits_value 10 ds),
                              dropWhile is_digit t')))"

definition parse_number :: "string \<Rightarrow> (json \<times> string) option" where
  "parse_number s =
     (let neg = (s \<noteq> [] \<and> hd s = CHR ''-'');
          t = (if neg then tl s else s);
          run = takeWhile is_digit t;
          ip = (if run \<noteq> [] \<and> hd run = CHR ''0'' then ''0'' else run);
          t1 = drop (length ip) t;
          sg = (if neg then - 1 else 1 :: int)
      in if ip = [] then None
         else (let fp = (if t1 \<noteq> [] \<and> hd t1 = CHR ''.'' then takeWhile is_digit (tl t1) else []);
                   t2 = (if fp = [] then t1 else drop (Suc (length fp)) t1);
                   m = of_int sg * of_nat (digits_value 10 (ip @ fp)) * pow10 (- int (length fp))
               in case parse_exponent t2 of
                    Some (e, t3) \<Rightarrow> Some (JFloat (m * pow10 e), t3)
                  | None \<Rightarrow>
                      if fp = [] then Some (JInt (sg * int (digits_value 10 ip)), t2)
                      else Some (JFloat m, t2)))"

definition escapes :: "(char \<times> char) list" where
  "escapes = [(CHR 0x22, CHR 0x22), (CHR 0x5C, CHR 0x5C), (CHR ''/'', CHR ''/''),
     (CHR ''b'', CHR 0x08), (CHR ''f'', CHR 0x0C), (CHR ''n'', CHR 0x0A),
     (CHR ''r'', CHR 0x0D), (CHR ''t'', CHR 0x09)]"

text \<open>The characters of a string literal after its opening quote.\<close>

function parse_chars :: "string \<Rightarrow> (string \<times> string) option" where
  "parse_chars s =
     (case s of [] \<Rightarrow> None
      | c # t \<Rightarrow>
          if c = CHR 0x22 then Some ([], t)
          else if c = CHR 0x5C then
            (case t of [] \<Rightarrow> None
             | e # u \<Rightarrow>
                 if e = CHR ''u''
                 then (let h = take 4 u in
                       if length h = 4 \<and> list_all is_hex h \<and> digits_value 16 h < 256
                       then map_option (\<lambda>(x, r). (char_of (digits_value 16 h) # x, r))
                              (parse_chars (drop 4 u))
                       else None)
                 else (case map_of escapes e of None \<Rightarrow> None
                       | Some x \<Rightarrow> map_option (\<lambda>(y, r). (x # y, r)) (parse_chars u)))
          else if (of_char c :: nat) < 32 then None
          else map_option (\<lambda>(x, r). (c # x, r)) (parse_chars t))"
  by pat_completeness auto
termination
  by (relation "measure length") auto

declare parse_chars.simps [simp del]

definition keyword :: "string \<Rightarrow> json \<Rightarrow> string \<Rightarrow> (json \<times> string) option" where
  "keyword k v s = (if take (length k) s = k then Some (v, drop (length k) s) else None)"

text \<open>
  Values, array elements and object members; the first argument bounds the number of nested and
  successive calls. Every call consumes a character before the next, so the length of the text
  plus one is enough.
\<close>

fun parse_value :: "nat \<Rightarrow> string \<Rightarrow> (json \<times> string) option"
and parse_elements :: "nat \<Rightarrow> json list \<Rightarrow> string \<Rightarrow> (json list \<times> string) option"
and parse_members :: "nat \<Rightarrow> jdict \<Rightarrow> string \<Rightarrow> (jdict \<times> string) option"
where
  "parse_value 0 s = None"
| "parse_value (Suc n) s =
     (case s of [] \<Rightarrow> None
      | c # t \<Rightarrow>
          if c = CHR 0x22 then map_option (\<lambda>(x, r). (JStr x, r)) (parse_chars t)
          else if c = CHR ''{'' then
            (let t' = skip_ws t in
             if t' \<noteq> [] \<and> hd t' = CHR ''}'' then Some (JObj [], tl t')
             else map_option (\<lambda>(d, r). (JObj d, r)) (parse_members n [] t'))
          else if c = CHR ''['' then
            (let t' = skip_ws t in
             if t' \<noteq> [] \<and> hd t' = CHR '']'' then Some (JArr [], tl t')
             else map_option (\<lambda>(xs, r). (JArr xs, r)) (parse_elements n [] t'))
          else if c = CHR ''n'' then keyword ''null'' JNull s
          else if c = CHR ''t'' then keyword ''true'' (JBool True) s
          else if c = CHR ''f'' then keyword ''false'' (JBool False) s
          else parse_number s)"
| "parse_elements 0 acc s = None"
| "parse_elements (Suc n) acc s =
     (case parse_value n s of None \<Rightarrow> None
      | Some (v, r) \<Rightarrow>
          (case skip_ws r of [] \<Rightarrow> None
           | c # t \<Rightarrow>
               if c = CHR '']'' then Some (acc @ [v], t)
               else if c = CHR '','' then parse_elements n (acc @ [v]) (skip_ws t)
               else None))"
| "parse_members 0 acc s = None"
| "parse_members (Suc n) acc s =
     (case s of [] \<Rightarrow> None
      | q # t \<Rightarrow>
          if q \<noteq> CHR 0x22 then None
          else (case parse_chars t of None \<Rightarrow> None
                | Some (k, r) \<Rightarrow>
                    (case skip_ws r of [] \<Rightarrow> None
                     | c # u \<Rightarrow>
                         if c \<noteq> CHR '':'' then None
                         else (case parse_value n (skip_ws u) of None \<Rightarrow> None
                               | Some (v, r') \<Rightarrow>
                                   (case skip_ws r' of [] \<Rightarrow> None
                                    | c' # t' \<Rightarrow>
                                        if c' = CHR ''}'' then Some (dict_set acc k v, t')
                                        else if c' = CHR '','' then
                                          parse_members n (dict_set acc k v) (skip_ws t')
                                        else None)))))"

text \<open>\<open>json.loads(s)\<close>; \<open>None\<close> is \<open>JSONDecodeError\<close>.\<close>

definition json_loads :: "string \<Rightarrow> json option" where
  "json_loads s =
     (case parse_value (Suc (length s)) (skip_ws s) of
        None \<Rightarrow> None
      | Some (v, r) \<Rightarrow> if skip_ws r = [] then Some v else None)"


section \<open>Decimal(text)\<close>

text \<open>\<open>None\<close> is \<open>InvalidOperation\<close>; blanks around the number and underscores are dropped.\<close>

definition decimal_of :: "string \<Rightarrow> rat option" where
  "decimal_of s0 =
     (let s = filter (\<lambda>c. c \<noteq> CHR ''_'') (strip s0);
          neg = (s \<noteq> [] \<and> hd s = CHR ''-'');
          t = (if s \<noteq> [] \<and> hd s \<in> {CHR ''-'', CHR ''+''} then tl s else s);
          ip = takeWhile is_digit t;
          t1 = dropWhile is_digit t;
          fp = (if t1 \<noteq> [] \<and> hd t1 = CHR ''.'' then takeWhile is_digit (tl t1) else []);
          t2 = (if t1 \<noteq> [] \<and> hd t1 = CHR ''.'' then dropWhile is_digit (tl t1) else t1);
          m = (if neg then - 1 else 1) * of_nat (digits_value 10 (ip @ fp))
                * pow10 (- int (length fp))
      in if ip @ fp = [] then None
         else if t2 = [] then Some m
         else (case parse_exponent t2 of
                 Some (e, []) \<Rightarrow> Some (m * pow10 e)
               | _ \<Rightarrow> None))"


section \<open>str(value)\<close>

definition pad_left :: "nat \<Rightarrow> string \<Rightarrow> string" where
  "pad_left n s = replicate (n - length s) (CHR ''0'') @ s"

text \<open>The least number of decimals, up to \<open>k\<close>, that write a fraction exactly.\<close>

fun decimals :: "nat \<Rightarrow> rat \<Rightarrow> nat" where
  "decimals 0 x = 0"
| "decimals (Suc k) x = (if x = of_int \<lfloor>x\<rfloor> then 0 else Suc (decimals k (10 * x)))"

definition show_float :: "rat \<Rightarrow> string" where
  "show_float x =
     (let a = \<bar>x\<bar>; d = max 1 (decimals 20 a); n = nat \<lfloor>a * 10 ^ d\<rfloor>
      in (if x < 0 then ''-'' else '''') @ digits (n div 10 ^ d) @ ''.''
           @ pad_left d (digits (n mod 10 ^ d)))"

fun py_repr :: "json \<Rightarrow> string" where
  "py_repr JNull = ''None''"
| "py_repr (JBool b) = (if b then ''True'' else ''False'')"
| "py_repr (JInt n) = show_int n"
| "py_repr (JFloat x) = show_float x"
| "py_repr (JStr s) = repr_str s"
| "py_repr (JArr xs) = ''['' @ join '', '' (map py_repr xs) @ '']''"
| "py_repr (JObj kvs) = ''{'' @ join '', '' (map (\<lambda>(k, v). repr_str k @ '': '' @ py_repr v) kvs) @ ''}''"

definition py_str :: "json \<Rightarrow> string" where
  "py_str v = (case v of JStr s \<Rightarrow> s | _ \<Rightarrow> py_repr v)"


section \<open>json.dumps(v, indent=2, sort_keys=True)\<close>

definition u_escape :: "char \<Rightarrow> string" where
  "u_escape c = (let n = of_char c :: nat in [CHR 0x5C] @ ''u00'' @ [hex_digit (n div 16), hex_digit (n mod 16)])"

definition dumps_char :: "char \<Rightarrow> string" where
  "dumps_char c =
     (case find (\<lambda>(e, x). x = c \<and> e \<noteq> CHR ''/'') escapes of
        Some (e, _) \<Rightarrow> [CHR 0x5C, e]
      | None \<Rightarrow> if (of_char c :: nat) < 32 \<or> 127 \<le> (of_char c :: nat) then u_escape c else [c])"

definition dumps_str :: "string \<Rightarrow> string" where
  "dumps_str s = [CHR 0x22] @ concat (map dumps_char s) @ [CHR 0x22]"

fun insert_by :: "('a \<Rightarrow> 'a \<Rightarrow> bool) \<Rightarrow> 'a \<Rightarrow> 'a list \<Rightarrow> 'a list" where
  "insert_by le x [] = [x]"
| "insert_by le x (y # ys) = (if le x y then x # y # ys else y # insert_by le x ys)"

fun lex_le :: "nat list \<Rightarrow> nat list \<Rightarrow> bool" where
  "lex_le [] ys = True"
| "lex_le (x # xs) [] = False"
| "lex_le (x # xs) (y # ys) = (x < y \<or> (x = y \<and> lex_le xs ys))"

definition text_le :: "string \<Rightarrow> string \<Rightarrow> bool" where
  "text_le s t = lex_le (map of_char s) (map of_char t)"

definition new_line :: "nat \<Rightarrow> string" where
  "new_line level = CHR 0x0A # replicate (2 * level) (CHR '' '')"

definition json_block :: "char \<Rightarrow> char \<Rightarrow> nat \<Rightarrow> string list \<Rightarrow> string" where
  "json_block opening closing level items =
     (if items = [] then [opening, closing]
      else [opening] @ new_line (Suc level) @ join ('','' @ new_line (Suc level)) items
             @ new_line level @ [closing])"

fun json_dumps :: "nat \<Rightarrow> json \<Rightarrow> string" where
  "json_dumps level JNull = ''null''"
| "json_dumps level (JBool b) = (if b then ''true'' else ''false'')"
| "json_dumps level (JInt n) = show_int n"
| "json_dumps level (JFloat x) = show_float x"
| "json_dumps level (JStr s) = dumps_str s"
| "json_dumps level (JArr xs) =
     json_block (CHR ''['') (CHR '']'') level (map (json_dumps (Suc level)) xs)"
| "json_dumps level (JObj kvs) =
     json_block (CHR ''{'') (CHR ''}'') level
       (map (\<lambda>(k, t). dumps_str k @ '': '' @ t)
         (foldr (insert_by (\<lambda>a b. text_le (fst a) (fst b)))
           (map (\<lambda>(k, v). (k, json_dumps (Suc level) v)) kvs) []))"

end
