(* ===== verification/Enums.thy ===== *)
theory Enums
  imports Prelude
begin

text \<open>
  The enumerations of \<open>app/models/enums.py\<close> (and \<open>TokenType\<close> of \<open>app/core/security.py\<close>), each
  with the text of its members' \<open>value\<close>, which error messages and tokens carry. The constructors
  are prefixed with the enumeration's initials because the member names repeat.
\<close>

datatype product_status = PS_DRAFT | PS_ACTIVE | PS_ARCHIVED

datatype product_type =
    PT_BRAND_KIT | PT_PROMPT_PACK | PT_TEXTURE_PACK | PT_SVG_PACK
  | PT_MOCKUP_PACK | PT_PRESET_PACK | PT_TATTOO_PACK | PT_STL_PACK

datatype job_status = JS_QUEUED | JS_RUNNING | JS_RETRYING | JS_COMPLETED | JS_FAILED | JS_CANCELLED

datatype agent_status = AS_DRAFT | AS_ACTIVE | AS_DEPRECATED

datatype workflow_status = WS_DRAFT | WS_ACTIVE | WS_DEPRECATED

datatype user_role = VIEWER | OPERATOR | ADMIN

datatype user_status = US_PENDING | US_ACTIVE | US_DISABLED

datatype asset_status = AST_PENDING | AST_AVAILABLE | AST_FAILED | AST_DELETED

datatype storage_provider = SP_LOCAL | SP_S3

datatype llm_request_status = LRS_PENDING | LRS_SUCCEEDED | LRS_FAILED

datatype agent_run_status = AR_QUEUED | AR_RUNNING | AR_COMPLETED | AR_FAILED | AR_CANCELLED

datatype workflow_run_status = WR_QUEUED | WR_RUNNING | WR_COMPLETED | WR_FAILED | WR_CANCELLED

datatype workflow_step_run_status =
    SR_PENDING | SR_RUNNING | SR_COMPLETED | SR_FAILED | SR_CANCELLED | SR_SKIPPED

datatype token_type = ACCESS | REFRESH

fun job_status_value :: "job_status \<Rightarrow> string" where
  "job_status_value JS_QUEUED = ''queued''"
| "job_status_value JS_RUNNING = ''running''"
| "job_status_value JS_RETRYING = ''retrying''"
| "job_status_value JS_COMPLETED = ''completed''"
| "job_status_value JS_FAILED = ''failed''"
| "job_status_value JS_CANCELLED = ''cancelled''"

fun agent_run_status_value :: "agent_run_status \<Rightarrow> string" where
  "agent_run_status_value AR_QUEUED = ''queued''"
| "agent_run_status_value AR_RUNNING = ''running''"
| "agent_run_status_value AR_COMPLETED = ''completed''"
| "agent_run_status_value AR_FAILED = ''failed''"
| "agent_run_status_value AR_CANCELLED = ''cancelled''"

fun workflow_run_status_value :: "workflow_run_status \<Rightarrow> string" where
  "workflow_run_status_value WR_QUEUED = ''queued''"
| "workflow_run_status_value WR_RUNNING = ''running''"
| "workflow_run_status_value WR_COMPLETED = ''completed''"
| "workflow_run_status_value WR_FAILED = ''failed''"
| "workflow_run_status_value WR_CANCELLED = ''cancelled''"

fun step_run_status_value :: "workflow_step_run_status \<Rightarrow> string" where
  "step_run_status_value SR_PENDING = ''pending''"
| "step_run_status_value SR_RUNNING = ''running''"
| "step_run_status_value SR_COMPLETED = ''completed''"
| "step_run_status_value SR_FAILED = ''failed''"
| "step_run_status_value SR_CANCELLED = ''cancelled''"
| "step_run_status_value SR_SKIPPED = ''skipped''"

fun user_role_value :: "user_role \<Rightarrow> string" where
  "user_role_value VIEWER = ''viewer''"
| "user_role_value OPERATOR = ''operator''"
| "user_role_value ADMIN = ''admin''"

fun token_type_value :: "token_type \<Rightarrow> string" where
  "token_type_value ACCESS = ''access''"
| "token_type_value REFRESH = ''refresh''"

lemma token_type_value_inj [simp]: "token_type_value a = token_type_value b \<longleftrightarrow> a = b"
  by (cases a; cases b) auto

text \<open>The roles are ordered from least to most privileged, as the enumeration lists them.\<close>

instantiation user_role :: linorder
begin

fun role_rank :: "user_role \<Rightarrow> nat" where
  "role_rank VIEWER = 0"
| "role_rank OPERATOR = 1"
| "role_rank ADMIN = 2"

definition less_eq_user_role :: "user_role \<Rightarrow> user_role \<Rightarrow> bool" where
  "less_eq_user_role a b \<longleftrightarrow> role_rank a \<le> role_rank b"

definition less_user_role :: "user_role \<Rightarrow> user_role \<Rightarrow> bool" where
  "less_user_role a b \<longleftrightarrow> role_rank a < role_rank b"

instance
proof
  fix a b :: user_role
  show "a \<le> b \<Longrightarrow> b \<le> a \<Longrightarrow> a = b"
    by (cases a; cases b) (simp_all add: less_eq_user_role_def)
qed (auto simp: less_eq_user_role_def less_user_role_def)

end

end
