(* ===== verification/Errors.thy ===== *)
theory Errors
  imports PyJson Enums
begin

text \<open>
  The exception hierarchies, one datatype per module of the code with a constructor per class,
  its class name (\<open>type(exc).__name__\<close>, stored in \<open>error_code\<close> columns) and its message
  (\<open>str(exc)\<close>, stored in \<open>error_message\<close> columns). \<open>exn\<close> is any exception in flight; an
  exception of Python or of a library is \<open>PyExc\<close> with its class name and message.
\<close>

section \<open>app/llm/exceptions.py\<close>

datatype llm_error =
    LLMProviderNotConfigured string string
  | LLMAuthenticationError string
  | LLMRateLimitError string "rat option"
  | LLMTimeoutError string
  | LLMProviderUnavailable string string
  | LLMInvalidRequest string string
  | LLMUnsupportedModel string string
  | LLMStructuredOutputError string "string option"
  | LLMEmbeddingNotSupported string
  | LLMResponseError string string

fun llm_retryable :: "llm_error \<Rightarrow> bool" where
  "llm_retryable (LLMRateLimitError _ _) = True"
| "llm_retryable (LLMTimeoutError _) = True"
| "llm_retryable (LLMProviderUnavailable _ _) = True"
| "llm_retryable _ = False"

fun llm_error_name :: "llm_error \<Rightarrow> string" where
  "llm_error_name (LLMProviderNotConfigured _ _) = ''LLMProviderNotConfigured''"
| "llm_error_name (LLMAuthenticationError _) = ''LLMAuthenticationError''"
| "llm_error_name (LLMRateLimitError _ _) = ''LLMRateLimitError''"
| "llm_error_name (LLMTimeoutError _) = ''LLMTimeoutError''"
| "llm_error_name (LLMProviderUnavailable _ _) = ''LLMProviderUnavailable''"
| "llm_error_name (LLMInvalidRequest _ _) = ''LLMInvalidRequest''"
| "llm_error_name (LLMUnsupportedModel _ _) = ''LLMUnsupportedModel''"
| "llm_error_name (LLMStructuredOutputError _ _) = ''LLMStructuredOutputError''"
| "llm_error_name (LLMEmbeddingNotSupported _) = ''LLMEmbeddingNotSupported''"
| "llm_error_name (LLMResponseError _ _) = ''LLMResponseError''"

text \<open>\<open>message\<close>, then \<open>: detail\<close> when there is a detail.\<close>

definition with_detail :: "string \<Rightarrow> string \<Rightarrow> string" where
  "with_detail message detail = (if detail \<noteq> [] then message @ '': '' @ detail else message)"

fun llm_error_message :: "llm_error \<Rightarrow> string" where
  "llm_error_message (LLMProviderNotConfigured p reason) =
     with_detail (''LLM provider '' @ repr_str p @ '' is not configured'') reason"
| "llm_error_message (LLMAuthenticationError p) =
     ''Authentication with LLM provider '' @ repr_str p @ '' failed''"
| "llm_error_message (LLMRateLimitError p _) =
     ''LLM provider '' @ repr_str p @ '' rate-limited this request''"
| "llm_error_message (LLMTimeoutError p) =
     ''Request to LLM provider '' @ repr_str p @ '' timed out''"
| "llm_error_message (LLMProviderUnavailable p reason) =
     with_detail (''LLM provider '' @ repr_str p @ '' is unavailable'') reason"
| "llm_error_message (LLMInvalidRequest p detail) =
     with_detail (''LLM provider '' @ repr_str p @ '' rejected the request as invalid'') detail"
| "llm_error_message (LLMUnsupportedModel p m) =
     ''Model '' @ repr_str m @ '' is not supported by provider '' @ repr_str p"
| "llm_error_message (LLMStructuredOutputError msg _) = msg"
| "llm_error_message (LLMEmbeddingNotSupported p) =
     ''LLM provider '' @ repr_str p @ '' does not support embeddings''"
| "llm_error_message (LLMResponseError p detail) =
     with_detail (''LLM provider '' @ repr_str p @ '' returned an unexpected response'') detail"

section \<open>app/runtime/exceptions.py\<close>

datatype runtime_error =
    RuntimeDomainError string
  | AgentNotFoundError uuid
  | AgentNotActiveError uuid
  | AgentConfigurationError uuid string
  | AgentRunNotFoundError uuid
  | ToolLoopLimitExceededError uuid int
  | InvalidRunTransitionError agent_run_status agent_run_status

fun runtime_error_name :: "runtime_error \<Rightarrow> string" where
  "runtime_error_name (RuntimeDomainError _) = ''RuntimeDomainError''"
| "runtime_error_name (AgentNotFoundError _) = ''AgentNotFoundError''"
| "runtime_error_name (AgentNotActiveError _) = ''AgentNotActiveError''"
| "runtime_error_name (AgentConfigurationError _ _) = ''AgentConfigurationError''"
| "runtime_error_name (AgentRunNotFoundError _) = ''AgentRunNotFoundError''"
| "runtime_error_name (ToolLoopLimitExceededError _ _) = ''ToolLoopLimitExceededError''"
| "runtime_error_name (InvalidRunTransitionError _ _) = ''InvalidRunTransitionError''"

fun runtime_error_message :: "runtime_error \<Rightarrow> string" where
  "runtime_error_message (RuntimeDomainError msg) = msg"
| "runtime_error_message (AgentNotFoundError a) = ''Agent '' @ a @ '' not found''"
| "runtime_error_message (AgentNotActiveError a) = ''Agent '' @ a @ '' is not active''"
| "runtime_error_message (AgentConfigurationError a detail) =
     ''Agent '' @ a @ '' is misconfigured: '' @ detail"
| "runtime_error_message (AgentRunNotFoundError r) = ''Agent run '' @ r @ '' not found''"
| "runtime_error_message (ToolLoopLimitExceededError a n) =
     ''Agent '' @ a @ '' exceeded the tool-call iteration limit ('' @ show_int n
       @ '' LLM calls) without a final answer''"
| "runtime_error_message (InvalidRunTransitionError c t) =
     ''Cannot transition run from '' @ repr_str (agent_run_status_value c)
       @ '' to '' @ repr_str (agent_run_status_value t)"

section \<open>app/workflows/exceptions.py\<close>

datatype workflow_error =
    WorkflowNotFoundError uuid
  | WorkflowNotActiveError uuid
  | WorkflowDefinitionInvalidError uuid string
  | WorkflowRunNotFoundError uuid
  | InvalidWorkflowRunTransitionError workflow_run_status workflow_run_status
  | InvalidStepRunTransitionError workflow_step_run_status workflow_step_run_status
  | WorkflowInputResolutionError string string
  | WorkflowRunCancelledDuringExecutionError uuid

fun workflow_error_name :: "workflow_error \<Rightarrow> string" where
  "workflow_error_name (WorkflowNotFoundError _) = ''WorkflowNotFoundError''"
| "workflow_error_name (WorkflowNotActiveError _) = ''WorkflowNotActiveError''"
| "workflow_error_name (WorkflowDefinitionInvalidError _ _) = ''WorkflowDefinitionInvalidError''"
| "workflow_error_name (WorkflowRunNotFoundError _) = ''WorkflowRunNotFoundError''"
| "workflow_error_name (InvalidWorkflowRunTransitionError _ _) =
     ''InvalidWorkflowRunTransitionError''"
| "workflow_error_name (InvalidStepRunTransitionError _ _) = ''InvalidStepRunTransitionError''"
| "workflow_error_name (WorkflowInputResolutionError _ _) = ''WorkflowInputResolutionError''"
| "workflow_error_name (WorkflowRunCancelledDuringExecutionError _) =
     ''WorkflowRunCancelledDuringExecutionError''"

fun workflow_error_message :: "workflow_error \<Rightarrow> string" where
  "workflow_error_message (WorkflowNotFoundError w) = ''Workflow '' @ w @ '' not found''"
| "workflow_error_message (WorkflowNotActiveError w) = ''Workflow '' @ w @ '' is not active''"
| "workflow_error_message (WorkflowDefinitionInvalidError w detail) =
     ''Workflow '' @ w @ '' has an invalid definition: '' @ detail"
| "workflow_error_message (WorkflowRunNotFoundError r) = ''Workflow run '' @ r @ '' not found''"
| "workflow_error_message (InvalidWorkflowRunTransitionError c t) =
     ''Cannot transition workflow run from '' @ repr_str (workflow_run_status_value c)
       @ '' to '' @ repr_str (workflow_run_status_value t)"
| "workflow_error_message (InvalidStepRunTransitionError c t) =
     ''Cannot transition workflow step run from '' @ repr_str (step_run_status_value c)
       @ '' to '' @ repr_str (step_run_status_value t)"
| "workflow_error_message (WorkflowInputResolutionError s detail) =
     ''Workflow step '' @ repr_str s @ '': cannot resolve input - '' @ detail"
| "workflow_error_message (WorkflowRunCancelledDuringExecutionError r) =
     ''Workflow run '' @ r @ '' was cancelled during execution''"

section \<open>app/jobs/exceptions.py\<close>

datatype job_error =
    JobNotFoundError uuid
  | InvalidJobTransitionError job_status job_status
  | JobAlreadyRunningError uuid

fun job_error_name :: "job_error \<Rightarrow> string" where
  "job_error_name (JobNotFoundError _) = ''JobNotFoundError''"
| "job_error_name (InvalidJobTransitionError _ _) = ''InvalidJobTransitionError''"
| "job_error_name (JobAlreadyRunningError _) = ''JobAlreadyRunningError''"

fun job_error_message :: "job_error \<Rightarrow> string" where
  "job_error_message (JobNotFoundError j) = ''Job '' @ j @ '' not found''"
| "job_error_message (InvalidJobTransitionError c t) =
     ''Cannot transition job from '' @ repr_str (job_status_value c)
       @ '' to '' @ repr_str (job_status_value t)"
| "job_error_message (JobAlreadyRunningError j) =
     ''Job '' @ j @ '' is already running and cannot be cancelled - ''
       @ ''in-flight provider requests cannot be interrupted''"

section \<open>app/mcp/exceptions.py\<close>

datatype mcp_error =
    MCPServerNotConfigured string
  | MCPConnectionError string string
  | MCPTimeoutError string
  | MCPProtocolError string string
  | MCPToolCallError string string string

fun mcp_error_name :: "mcp_error \<Rightarrow> string" where
  "mcp_error_name (MCPServerNotConfigured _) = ''MCPServerNotConfigured''"
| "mcp_error_name (MCPConnectionError _ _) = ''MCPConnectionError''"
| "mcp_error_name (MCPTimeoutError _) = ''MCPTimeoutError''"
| "mcp_error_name (MCPProtocolError _ _) = ''MCPProtocolError''"
| "mcp_error_name (MCPToolCallError _ _ _) = ''MCPToolCallError''"

fun mcp_error_message :: "mcp_error \<Rightarrow> string" where
  "mcp_error_message (MCPServerNotConfigured s) =
     ''MCP server '' @ repr_str s @ '' is not configured''"
| "mcp_error_message (MCPConnectionError s reason) =
     with_detail (''MCP server '' @ repr_str s @ '' is unreachable'') reason"
| "mcp_error_message (MCPTimeoutError s) = ''Request to MCP server '' @ repr_str s @ '' timed out''"
| "mcp_error_message (MCPProtocolError s detail) =
     with_detail (''MCP server '' @ repr_str s @ '' returned an unexpected response'') detail"
| "mcp_error_message (MCPToolCallError s t detail) =
     with_detail (''MCP server '' @ repr_str s @ '' rejected tool call '' @ repr_str t) detail"

section \<open>app/storage/exceptions.py and app/rag/exceptions.py\<close>

datatype storage_error =
    StorageNotFound string
  | StorageUnavailable string
  | StorageWriteFailed string string
  | StorageDeleteFailed string string

definition with_reason :: "string \<Rightarrow> string \<Rightarrow> string" where
  "with_reason message reason = (if reason \<noteq> [] then message @ '' ('' @ reason @ '')'' else message)"

fun storage_error_name :: "storage_error \<Rightarrow> string" where
  "storage_error_name (StorageNotFound _) = ''StorageNotFound''"
| "storage_error_name (StorageUnavailable _) = ''StorageUnavailable''"
| "storage_error_name (StorageWriteFailed _ _) = ''StorageWriteFailed''"
| "storage_error_name (StorageDeleteFailed _ _) = ''StorageDeleteFailed''"

fun storage_error_message :: "storage_error \<Rightarrow> string" where
  "storage_error_message (StorageNotFound k) = ''storage object not found: '' @ k"
| "storage_error_message (StorageUnavailable msg) = msg"
| "storage_error_message (StorageWriteFailed k reason) =
     with_reason (''failed to write storage object: '' @ k) reason"
| "storage_error_message (StorageDeleteFailed k reason) =
     with_reason (''failed to delete storage object: '' @ k) reason"

datatype extraction_error =
    UnsupportedContentTypeError string
  | TextDecodingError string
  | PdfExtractionError string

fun extraction_error_name :: "extraction_error \<Rightarrow> string" where
  "extraction_error_name (UnsupportedContentTypeError _) = ''UnsupportedContentTypeError''"
| "extraction_error_name (TextDecodingError _) = ''TextDecodingError''"
| "extraction_error_name (PdfExtractionError _) = ''PdfExtractionError''"

fun extraction_error_message :: "extraction_error \<Rightarrow> string" where
  "extraction_error_message (UnsupportedContentTypeError t) =
     ''no text extractor for content type '' @ repr_str t"
| "extraction_error_message (TextDecodingError reason) =
     with_reason ''content is not valid UTF-8 text'' reason"
| "extraction_error_message (PdfExtractionError reason) =
     with_reason ''failed to extract text from PDF'' reason"

section \<open>app/services/exceptions.py\<close>

datatype domain_error =
    ProductNotFoundError uuid
  | DuplicateSlugError string
  | DuplicateEmailError string
  | UserNotFoundError uuid
  | InvalidCredentialsError
  | AssetNotFoundError uuid
  | AssetDeletedError uuid
  | UnsupportedFileTypeError string
  | FileTooLargeError int int
  | EmptyFileError
  | InvalidFilenameError string
  | AssetStorageOperationFailedError string
  | LLMRequestNotFoundError uuid
  | AssetNotIngestableError uuid string
  | AssetAlreadyIngestedError uuid
  | IngestionExtractionFailedError uuid string
  | EmptyExtractedTextError uuid
  | IngestionEmbeddingMismatchError uuid int int
  | AssetIngestionAlreadyQueuedError uuid
  | EmptyQueryError

fun domain_error_name :: "domain_error \<Rightarrow> string" where
  "domain_error_name (ProductNotFoundError _) = ''ProductNotFoundError''"
| "domain_error_name (DuplicateSlugError _) = ''DuplicateSlugError''"
| "domain_error_name (DuplicateEmailError _) = ''DuplicateEmailError''"
| "domain_error_name (UserNotFoundError _) = ''UserNotFoundError''"
| "domain_error_name InvalidCredentialsError = ''InvalidCredentialsError''"
| "domain_error_name (AssetNotFoundError _) = ''AssetNotFoundError''"
| "domain_error_name (AssetDeletedError _) = ''AssetDeletedError''"
| "domain_error_name (UnsupportedFileTypeError _) = ''UnsupportedFileTypeError''"
| "domain_error_name (FileTooLargeError _ _) = ''FileTooLargeError''"
| "domain_error_name EmptyFileError = ''EmptyFileError''"
| "domain_error_name (InvalidFilenameError _) = ''InvalidFilenameError''"
| "domain_error_name (AssetStorageOperationFailedError _) = ''AssetStorageOperationFailedError''"
| "domain_error_name (LLMRequestNotFoundError _) = ''LLMRequestNotFoundError''"
| "domain_error_name (AssetNotIngestableError _ _) = ''AssetNotIngestableError''"
| "domain_error_name (AssetAlreadyIngestedError _) = ''AssetAlreadyIngestedError''"
| "domain_error_name (IngestionExtractionFailedError _ _) = ''IngestionExtractionFailedError''"
| "domain_error_name (EmptyExtractedTextError _) = ''EmptyExtractedTextError''"
| "domain_error_name (IngestionEmbeddingMismatchError _ _ _) = ''IngestionEmbeddingMismatchError''"
| "domain_error_name (AssetIngestionAlreadyQueuedError _) = ''AssetIngestionAlreadyQueuedError''"
| "domain_error_name EmptyQueryError = ''EmptyQueryError''"

fun domain_error_message :: "domain_error \<Rightarrow> string" where
  "domain_error_message (ProductNotFoundError p) = ''Product '' @ p @ '' not found''"
| "domain_error_message (DuplicateSlugError s) =
     ''Product with slug '' @ repr_str s @ '' already exists''"
| "domain_error_message (DuplicateEmailError e) =
     ''User with email '' @ repr_str e @ '' already exists''"
| "domain_error_message (UserNotFoundError u) = ''User '' @ u @ '' not found''"
| "domain_error_message InvalidCredentialsError = ''invalid credentials''"
| "domain_error_message (AssetNotFoundError a) = ''Asset '' @ a @ '' not found''"
| "domain_error_message (AssetDeletedError a) = ''Asset '' @ a @ '' has been deleted''"
| "domain_error_message (UnsupportedFileTypeError t) = ''Unsupported file type: '' @ repr_str t"
| "domain_error_message (FileTooLargeError n m) =
     ''File too large: '' @ show_int n @ '' bytes (maximum '' @ show_int m @ '')''"
| "domain_error_message EmptyFileError = ''Uploaded file is empty''"
| "domain_error_message (InvalidFilenameError _) = ''Uploaded filename is invalid''"
| "domain_error_message (AssetStorageOperationFailedError op) = ''Storage '' @ op @ '' failed''"
| "domain_error_message (LLMRequestNotFoundError r) = ''LLM request '' @ r @ '' not found''"
| "domain_error_message (AssetNotIngestableError a t) =
     ''Asset '' @ a @ '' has no ingestable content type '' @ repr_str t"
| "domain_error_message (AssetAlreadyIngestedError a) =
     ''Asset '' @ a @ '' has already been ingested''"
| "domain_error_message (IngestionExtractionFailedError a reason) =
     ''Text extraction failed for asset '' @ a @ '': '' @ reason"
| "domain_error_message (EmptyExtractedTextError a) =
     ''Asset '' @ a @ '' produced no extractable text''"
| "domain_error_message (IngestionEmbeddingMismatchError a e n) =
     ''Asset '' @ a @ '': expected '' @ show_int e @ '' embeddings, provider returned '' @ show_int n"
| "domain_error_message (AssetIngestionAlreadyQueuedError a) =
     ''Asset '' @ a @ '' already has an ingestion job in progress''"
| "domain_error_message EmptyQueryError = ''Retrieval query must not be empty''"

section \<open>Any exception\<close>

datatype exn =
    LLM llm_error
  | Runtime runtime_error
  | Workflow workflow_error
  | JobExn job_error
  | MCP mcp_error
  | Storage storage_error
  | Extraction extraction_error
  | Domain domain_error
  | PyExc string string

fun exn_name :: "exn \<Rightarrow> string" where
  "exn_name (LLM e) = llm_error_name e"
| "exn_name (Runtime e) = runtime_error_name e"
| "exn_name (Workflow e) = workflow_error_name e"
| "exn_name (JobExn e) = job_error_name e"
| "exn_name (MCP e) = mcp_error_name e"
| "exn_name (Storage e) = storage_error_name e"
| "exn_name (Extraction e) = extraction_error_name e"
| "exn_name (Domain e) = domain_error_name e"
| "exn_name (PyExc n _) = n"

fun exn_str :: "exn \<Rightarrow> string" where
  "exn_str (LLM e) = llm_error_message e"
| "exn_str (Runtime e) = runtime_error_message e"
| "exn_str (Workflow e) = workflow_error_message e"
| "exn_str (JobExn e) = job_error_message e"
| "exn_str (MCP e) = mcp_error_message e"
| "exn_str (Storage e) = storage_error_message e"
| "exn_str (Extraction e) = extraction_error_message e"
| "exn_str (Domain e) = domain_error_message e"
| "exn_str (PyExc _ m) = m"

end
