(* ===== verification/Config.thy ===== *)
theory Config
  imports JsonText Errors
begin

text \<open>
  \<open>app/core/config.py\<close>: the settings the modelled code reads, the validators that run when
  \<open>Settings\<close> is constructed, the parsed views of its comma-separated and JSON options, and the
  development secret written to the \<open>.env\<close> file. Pydantic runs the field validators of every
  field and reports all their errors together; the model validators run after, in order, when
  there was none.
\<close>

record settings =
  s_environment :: string
  s_jwt_secret_key :: "string option"
  s_jwt_algorithm :: string
  s_access_token_expire_minutes :: int
  s_refresh_token_expire_days :: int
  s_min_password_length :: int
  s_storage_backend :: string
  s_storage_local_root :: string
  s_s3_endpoint_url :: "string option"
  s_s3_bucket :: "string option"
  s_s3_region :: "string option"
  s_s3_access_key_id :: "string option"
  s_s3_secret_access_key :: "string option"
  s_s3_use_ssl :: bool
  s_s3_force_path_style :: bool
  s_max_upload_size_bytes :: int
  s_allowed_mime_types :: string
  s_llm_default_provider :: "string option"
  s_llm_default_model :: "string option"
  s_llm_max_retries :: int
  s_llm_max_output_tokens :: int
  s_llm_allowed_providers :: string
  s_llm_model_aliases :: string
  s_llm_pricing_json :: string
  s_anthropic_api_key :: "string option"
  s_anthropic_default_model :: "string option"
  s_openai_api_key :: "string option"
  s_openai_default_model :: "string option"
  s_job_max_attempts :: int
  s_job_lease_seconds :: duration
  s_job_retry_backoff_base_seconds :: duration
  s_worker_heartbeat_stale_after_seconds :: duration
  s_mcp_servers_json :: string
  s_runtime_max_tool_iterations :: int

text \<open>The values of the class's field defaults.\<close>

definition default_settings :: settings where
  "default_settings = \<lparr>s_environment = ''development'', s_jwt_secret_key = None, s_jwt_algorithm = ''HS256'',
     s_access_token_expire_minutes = 15, s_refresh_token_expire_days = 30,
     s_min_password_length = 12, s_storage_backend = ''local'', s_storage_local_root = ''./data/storage'', s_s3_endpoint_url = None,
     s_s3_bucket = None, s_s3_region = None, s_s3_access_key_id = None,
     s_s3_secret_access_key = None, s_s3_use_ssl = True, s_s3_force_path_style = False, s_max_upload_size_bytes = 26214400,
     s_allowed_mime_types = ''image/png,image/jpeg,image/webp,image/svg+xml,application/pdf,application/zip,application/json,font/ttf,font/otf,model/stl,application/sla,application/octet-stream,text/plain,text/markdown'',
     s_llm_default_provider = None, s_llm_default_model = None, s_llm_max_retries = 2,
     s_llm_max_output_tokens = 4096, s_llm_allowed_providers = ''anthropic,openai,fake'',
     s_llm_model_aliases = ''{}'', s_llm_pricing_json = ''{}'', s_anthropic_api_key = None,
     s_anthropic_default_model = None, s_openai_api_key = None, s_openai_default_model = None,
     s_job_max_attempts = 3, s_job_lease_seconds = 120000000,
     s_job_retry_backoff_base_seconds = 5000000, s_worker_heartbeat_stale_after_seconds = 60000000,
     s_mcp_servers_json = ''[]'', s_runtime_max_tool_iterations = 5\<rparr>"

definition KNOWN_LLM_PROVIDERS :: "string set" where
  "KNOWN_LLM_PROVIDERS = {''anthropic'', ''openai'', ''fake''}"

datatype config_error =
    BadEnvironment string
  | BadStorageBackend string
  | MissingS3Settings "string list"
  | BadDefaultProvider string
  | NoAllowedProviders
  | UnknownProviders "string list"
  | NotJson string
  | NotJsonObject string
  | DefaultNotAllowed string string
  | NotJsonArray
  | MalformedServerEntry
  | UnhashableServerName
  | DuplicateServerName json
  | TooFewToolIterations
  | JwtSecretTooShort
  | JwtSecretRequired string


section \<open>Parsed views\<close>

text \<open>\<open>[p.strip() for p in text.split(',') if p.strip()]\<close>.\<close>

definition comma_list :: "string \<Rightarrow> string list" where
  "comma_list t = filter (\<lambda>p. p \<noteq> []) (map strip (split_on CHR '','' t))"

definition allowed_mime_types_list :: "settings \<Rightarrow> string list" where
  "allowed_mime_types_list s = comma_list (s_allowed_mime_types s)"

definition llm_allowed_providers_list :: "settings \<Rightarrow> string list" where
  "llm_allowed_providers_list s = comma_list (s_llm_allowed_providers s)"

fun py_type_name :: "json \<Rightarrow> string" where
  "py_type_name JNull = ''NoneType''"
| "py_type_name (JBool _) = ''bool''"
| "py_type_name (JInt _) = ''int''"
| "py_type_name (JFloat _) = ''float''"
| "py_type_name (JStr _) = ''str''"
| "py_type_name (JArr _) = ''list''"
| "py_type_name (JObj _) = ''dict''"

text \<open>\<open>v.items()\<close>, which only a dict has.\<close>

definition py_items :: "json \<Rightarrow> exn + jdict" where
  "py_items v = (case v of JObj d \<Rightarrow> Inr d
     | _ \<Rightarrow> Inl (PyExc ''AttributeError''
              (repr_str (py_type_name v) @ '' object has no attribute 'items' '')))"

definition loads_or_raise :: "string \<Rightarrow> exn + json" where
  "loads_or_raise t = (case json_loads t of Some v \<Rightarrow> Inr v | None \<Rightarrow> Inl (PyExc ''JSONDecodeError'' ''''))"

text \<open>A dict of dicts of strings out of a JSON object of JSON objects, as both maps below build it.\<close>

definition str_maps :: "string \<Rightarrow> exn + (string \<times> (string \<times> string) list) list" where
  "str_maps t =
     bindE (loads_or_raise t) (\<lambda>v. bindE (py_items v) (mapE (\<lambda>(k, inner).
       bindE (py_items inner) (\<lambda>d. Inr (k, map (\<lambda>(a, m). (a, py_str m)) d)))))"

definition llm_model_aliases_map :: "settings \<Rightarrow> exn + (string \<times> (string \<times> string) list) list" where
  "llm_model_aliases_map s = str_maps (s_llm_model_aliases s)"

definition llm_pricing_map :: "settings \<Rightarrow> exn + (string \<times> (string \<times> string) list) list" where
  "llm_pricing_map s = str_maps (s_llm_pricing_json s)"

record mcp_server_entry =
  se_name :: string
  se_base_url :: string
  se_auth_token :: "string option"

text \<open>Iterating a parsed value: a list gives its elements, a dict its keys, a string its characters.\<close>

fun py_iter :: "json \<Rightarrow> exn + json list" where
  "py_iter (JArr xs) = Inr xs"
| "py_iter (JObj d) = Inr (map (JStr \<circ> fst) d)"
| "py_iter (JStr s) = Inr (map (\<lambda>c. JStr [c]) s)"
| "py_iter v = Inl (PyExc ''TypeError'' (repr_str (py_type_name v) @ '' object is not iterable''))"

definition mcp_server_of :: "json \<Rightarrow> exn + mcp_server_entry" where
  "mcp_server_of entry = (case entry of
       JObj d \<Rightarrow>
         (if \<not> has_key d ''name'' then Inl (PyExc ''KeyError'' (repr_str ''name''))
          else if \<not> has_key d ''base_url'' then Inl (PyExc ''KeyError'' (repr_str ''base_url''))
          else Inr \<lparr>se_name = py_str (dict_get d ''name''), se_base_url = py_str (dict_get d ''base_url''),
                    se_auth_token = (if truthy (dict_get d ''auth_token'')
                                     then Some (py_str (dict_get d ''auth_token'')) else None)\<rparr>)
     | _ \<Rightarrow> Inl (PyExc ''TypeError'' (repr_str (py_type_name entry) @ '' object is not subscriptable'')))"

definition mcp_servers_list :: "settings \<Rightarrow> exn + mcp_server_entry list" where
  "mcp_servers_list s =
     bindE (loads_or_raise (s_mcp_servers_json s)) (\<lambda>v. bindE (py_iter v) (mapE mcp_server_of))"


section \<open>Field validators\<close>

definition validate_environment :: "string \<Rightarrow> config_error + string" where
  "validate_environment v =
     (if v \<notin> {''development'', ''staging'', ''production'', ''test''} then Inl (BadEnvironment v) else Inr v)"

definition validate_storage_backend :: "string \<Rightarrow> config_error + string" where
  "validate_storage_backend v = (if v \<notin> {''local'', ''s3''} then Inl (BadStorageBackend v) else Inr v)"

definition validate_llm_default_provider :: "string option \<Rightarrow> config_error + string option" where
  "validate_llm_default_provider v =
     (case v of None \<Rightarrow> Inr None
      | Some p \<Rightarrow> if p \<notin> KNOWN_LLM_PROVIDERS then Inl (BadDefaultProvider p) else Inr (Some p))"

definition validate_llm_allowed_providers :: "string \<Rightarrow> config_error + string" where
  "validate_llm_allowed_providers v =
     (let names = comma_list v; unknown = filter (\<lambda>n. n \<notin> KNOWN_LLM_PROVIDERS) names
      in if names = [] then Inl NoAllowedProviders
         else if unknown \<noteq> [] then Inl (UnknownProviders unknown)
         else Inr v)"

definition validate_llm_json_config :: "string \<Rightarrow> string \<Rightarrow> config_error + string" where
  "validate_llm_json_config field v =
     (case json_loads v of
        None \<Rightarrow> Inl (NotJson field)
      | Some j \<Rightarrow> if \<not> is_dict j then Inl (NotJsonObject field) else Inr v)"

text \<open>
  Membership in the set of names seen: numbers compare by value across \<open>bool\<close>, \<open>int\<close> and
  \<open>float\<close>, and a list or dict cannot be hashed.
\<close>

fun hash_key :: "json \<Rightarrow> json option" where
  "hash_key (JBool b) = Some (JInt (if b then 1 else 0))"
| "hash_key (JFloat x) = Some (if x = of_int \<lfloor>x\<rfloor> then JInt \<lfloor>x\<rfloor> else JFloat x)"
| "hash_key (JArr _) = None"
| "hash_key (JObj _) = None"
| "hash_key v = Some v"

fun check_servers :: "json list \<Rightarrow> json list \<Rightarrow> config_error option" where
  "check_servers seen [] = None"
| "check_servers seen (entry # rest) =
     (case entry of
        JObj d \<Rightarrow>
          (if \<not> has_key d ''name'' \<or> \<not> has_key d ''base_url'' then Some MalformedServerEntry
           else (case hash_key (dict_get d ''name'') of
                   None \<Rightarrow> Some UnhashableServerName
                 | Some k \<Rightarrow> if k \<in> set seen then Some (DuplicateServerName (dict_get d ''name''))
                            else check_servers (k # seen) rest))
      | _ \<Rightarrow> Some MalformedServerEntry)"

definition validate_mcp_servers_json :: "string \<Rightarrow> config_error + string" where
  "validate_mcp_servers_json v =
     (case json_loads v of
        None \<Rightarrow> Inl (NotJson ''mcp_servers_json'')
      | Some (JArr xs) \<Rightarrow> (case check_servers [] xs of Some e \<Rightarrow> Inl e | None \<Rightarrow> Inr v)
      | Some _ \<Rightarrow> Inl NotJsonArray)"

definition validate_runtime_max_tool_iterations :: "int \<Rightarrow> config_error + int" where
  "validate_runtime_max_tool_iterations v = (if v < 1 then Inl TooFewToolIterations else Inr v)"

definition error_of :: "'e + 'a \<Rightarrow> 'e list" where
  "error_of r = (case r of Inl e \<Rightarrow> [e] | Inr _ \<Rightarrow> [])"

definition field_errors :: "settings \<Rightarrow> config_error list" where
  "field_errors s =
     error_of (validate_environment (s_environment s))
     @ error_of (validate_storage_backend (s_storage_backend s))
     @ error_of (validate_llm_default_provider (s_llm_default_provider s))
     @ error_of (validate_llm_allowed_providers (s_llm_allowed_providers s))
     @ error_of (validate_llm_json_config ''llm_model_aliases'' (s_llm_model_aliases s))
     @ error_of (validate_llm_json_config ''llm_pricing_json'' (s_llm_pricing_json s))
     @ error_of (validate_mcp_servers_json (s_mcp_servers_json s))
     @ error_of (validate_runtime_max_tool_iterations (s_runtime_max_tool_iterations s))"


section \<open>Model validators and construction\<close>

definition falsy_opt :: "string option \<Rightarrow> bool" where
  "falsy_opt v \<longleftrightarrow> (case v of None \<Rightarrow> True | Some t \<Rightarrow> t = [])"

definition validate_s3_settings_when_selected :: "settings \<Rightarrow> config_error + settings" where
  "validate_s3_settings_when_selected s =
     (if s_storage_backend s \<noteq> ''s3'' then Inr s
      else (let required = [(''S3_ENDPOINT_URL'', s_s3_endpoint_url s), (''S3_BUCKET'', s_s3_bucket s),
                            (''S3_REGION'', s_s3_region s), (''S3_ACCESS_KEY_ID'', s_s3_access_key_id s),
                            (''S3_SECRET_ACCESS_KEY'', s_s3_secret_access_key s)];
                missing = map fst (filter (\<lambda>(n, v). falsy_opt v) required)
            in if missing \<noteq> [] then Inl (MissingS3Settings missing) else Inr s))"

definition validate_llm_default_provider_is_allowed :: "settings \<Rightarrow> config_error + settings" where
  "validate_llm_default_provider_is_allowed s =
     (case s_llm_default_provider s of
        None \<Rightarrow> Inr s
      | Some p \<Rightarrow> if p \<notin> set (comma_list (s_llm_allowed_providers s))
                  then Inl (DefaultNotAllowed p (s_llm_allowed_providers s)) else Inr s)"

text \<open>\<open>str.splitlines\<close>.\<close>

definition line_break :: "char \<Rightarrow> bool" where
  "line_break c \<longleftrightarrow> of_char c \<in> {10, 11, 12, 13, 28, 29, 30, 133 :: nat}"

fun splitlines_aux :: "string \<Rightarrow> string \<Rightarrow> string list" where
  "splitlines_aux acc [] = (if acc = [] then [] else [rev acc])"
| "splitlines_aux acc (c # cs) =
     (if c = CHR 0x0D \<and> cs \<noteq> [] \<and> hd cs = CHR 0x0A then splitlines_aux acc cs
      else if line_break c then rev acc # splitlines_aux [] cs
      else splitlines_aux (c # acc) cs)"

definition splitlines :: "string \<Rightarrow> string list" where
  "splitlines s = splitlines_aux [] s"

definition starts_with :: "string \<Rightarrow> string \<Rightarrow> bool" where
  "starts_with p s \<longleftrightarrow> take (length p) s = p"

text \<open>The \<open>.env\<close> file's text, \<open>None\<close> when there is no file; whether the secret was written.\<close>

definition persist_dev_secret_to_env_file :: "string \<Rightarrow> string option \<Rightarrow> bool \<times> string option" where
  "persist_dev_secret_to_env_file secret env =
     (case env of None \<Rightarrow> (False, None)
      | Some content \<Rightarrow>
          if list_ex (\<lambda>l. starts_with ''JWT_SECRET_KEY='' (strip l)) (splitlines content)
          then (False, Some content)
          else (True, Some (content
                 @ (if content \<noteq> [] \<and> last content \<noteq> CHR 0x0A then [CHR 0x0A] else [])
                 @ ''JWT_SECRET_KEY='' @ secret @ [CHR 0x0A])))"

definition resolve_jwt_secret_key ::
  "string \<Rightarrow> string option \<Rightarrow> settings \<Rightarrow> config_error + settings \<times> string option" where
  "resolve_jwt_secret_key generated env s =
     (if \<not> falsy_opt (s_jwt_secret_key s)
      then (if length (the (s_jwt_secret_key s)) < 32 then Inl JwtSecretTooShort else Inr (s, env))
      else if s_environment s \<noteq> ''development'' then Inl (JwtSecretRequired (s_environment s))
      else Inr (s\<lparr>s_jwt_secret_key := Some generated\<rparr>, snd (persist_dev_secret_to_env_file generated env)))"

text \<open>
  \<open>Settings(...)\<close>: \<open>generated\<close> is what \<open>secrets.token_urlsafe\<close> would return, \<open>env\<close> the
  \<open>.env\<close> file. The result is the settings and the file after construction, or the errors.
\<close>

definition construct_settings ::
  "string \<Rightarrow> string option \<Rightarrow> settings \<Rightarrow> config_error list + settings \<times> string option" where
  "construct_settings generated env s =
     (if field_errors s \<noteq> [] then Inl (field_errors s)
      else (case bindE (validate_s3_settings_when_selected s) (\<lambda>s.
                 bindE (validate_llm_default_provider_is_allowed s)
                   (resolve_jwt_secret_key generated env)) of
              Inl e \<Rightarrow> Inl [e] | Inr r \<Rightarrow> Inr r))"

end
