(* ===== verification/Models.thy ===== *)
theory Models
  imports Errors
begin

text \<open>
  The persisted data model (\<open>app/models/\<close>): one record per ORM class with a field per column
  the code reads or writes (field names carry the table's initials), the record \<open>world\<close> of all
  tables, and the primitive operations the services use on them. A row's foreign-key
  relationship attributes and \<open>updated_at\<close> are never read by the modelled code and are left out.

  The state also holds \<open>tick\<close>, the number of outside values read so far (clock readings, random
  identifiers, replies of providers and MCP servers); see \<open>Oracles\<close>.
\<close>

record job =
  j_id :: uuid
  j_type :: string
  j_status :: job_status
  j_target :: "uuid option"
  j_input :: jdict
  j_error_code :: "string option"
  j_error_message :: "string option"
  j_attempt_count :: int
  j_max_attempts :: int
  j_next_attempt_at :: "time option"
  j_lease_expires_at :: "time option"
  j_heartbeat_at :: "time option"
  j_worker_id :: "string option"
  j_cancel_requested_at :: "time option"
  j_started_at :: "time option"
  j_completed_at :: "time option"
  j_created_at :: time

text \<open>One entry of \<open>AgentRun.tool_calls_json\<close>.\<close>

record tool_trace =
  tt_iteration :: int
  tt_llm_request_id :: string
  tt_tool_name :: string
  tt_arguments :: jdict
  tt_result :: string
  tt_is_error :: bool

record agent_run =
  ar_id :: uuid
  ar_agent_id :: uuid
  ar_created_by :: "uuid option"
  ar_status :: agent_run_status
  ar_llm_request_id :: "uuid option"
  ar_provider :: "string option"
  ar_model :: "string option"
  ar_input_tokens :: "int option"
  ar_output_tokens :: "int option"
  ar_total_tokens :: "int option"
  ar_cost :: "rat option"
  ar_output_text :: "string option"
  ar_tool_calls :: "tool_trace list option"
  ar_error_code :: "string option"
  ar_error_message :: "string option"
  ar_duration_ms :: "int option"
  ar_started_at :: "time option"
  ar_completed_at :: "time option"
  ar_created_at :: time

record workflow_run =
  wr_id :: uuid
  wr_workflow_id :: uuid
  wr_created_by :: "uuid option"
  wr_status :: workflow_run_status
  wr_output_text :: "string option"
  wr_error_code :: "string option"
  wr_error_message :: "string option"
  wr_duration_ms :: "int option"
  wr_started_at :: "time option"
  wr_completed_at :: "time option"
  wr_created_at :: time

record workflow_step_run =
  sr_id :: uuid
  sr_run_id :: uuid
  sr_step_id :: string
  sr_order :: int
  sr_agent_id :: uuid
  sr_agent_run_id :: "uuid option"
  sr_input_snapshot :: "string option"
  sr_output_text :: "string option"
  sr_status :: workflow_step_run_status
  sr_error_code :: "string option"
  sr_error_message :: "string option"
  sr_duration_ms :: "int option"
  sr_started_at :: "time option"
  sr_completed_at :: "time option"

record llm_request_record =
  lr_id :: uuid
  lr_user_id :: "uuid option"
  lr_provider :: string
  lr_model :: string
  lr_status :: llm_request_status
  lr_request_metadata :: jdict
  lr_response_metadata :: jdict
  lr_input_tokens :: "int option"
  lr_output_tokens :: "int option"
  lr_total_tokens :: "int option"
  lr_cost :: "rat option"
  lr_latency_ms :: "int option"
  lr_error_code :: "string option"
  lr_completed_at :: "time option"

record agent_definition =
  ag_id :: uuid
  ag_name :: string
  ag_status :: agent_status
  ag_configuration :: jdict

record workflow_definition =
  wd_id :: uuid
  wd_status :: workflow_status
  wd_definition :: jdict

record user =
  u_id :: uuid
  u_email :: string
  u_hashed_password :: string
  u_full_name :: string
  u_role :: user_role
  u_status :: user_status
  u_is_verified :: bool
  u_last_login_at :: "time option"

record asset =
  a_id :: uuid
  a_product_id :: uuid
  a_type :: string
  a_filename :: string
  a_storage_key :: string
  a_mime_type :: string
  a_size_bytes :: int
  a_checksum :: string
  a_original_filename :: "string option"
  a_content_type :: "string option"
  a_etag :: "string option"
  a_storage_backend :: storage_provider
  a_status :: asset_status
  a_uploaded_by :: "uuid option"
  a_deleted_at :: "time option"
  a_created_at :: time

record document_chunk =
  dc_asset_id :: uuid
  dc_index :: int
  dc_content :: string
  dc_content_hash :: string
  dc_char_start :: int
  dc_char_end :: int
  dc_embedding :: "rat list option"
  dc_embedding_model :: "string option"
  dc_embedding_provider :: "string option"

record product =
  p_id :: uuid
  p_slug :: string
  p_title :: string
  p_description :: "string option"
  p_type :: product_type
  p_status :: product_status
  p_version :: string
  p_price_cents :: int
  p_currency :: string
  p_metadata :: json
  p_created_at :: time

record worker_heartbeat =
  hb_worker_id :: string
  hb_started_at :: time
  hb_last_heartbeat_at :: time

record world =
  jobs :: "job list"
  agent_runs :: "agent_run list"
  workflow_runs :: "workflow_run list"
  step_runs :: "workflow_step_run list"
  llm_requests :: "llm_request_record list"
  agents :: "agent_definition list"
  workflows :: "workflow_definition list"
  users :: "user list"
  assets :: "asset list"
  chunks :: "document_chunk list"
  products :: "product list"
  heartbeats :: "worker_heartbeat list"
  tick :: nat

type_synonym 'a app = "(world, exn, 'a) m"


section \<open>Tables as row stores\<close>

text \<open>
  Every table with a primary key meets the contract of \<open>row_store\<close>: the interpretations give
  the read-after-write, frame and overwriting facts of each table under its name.
\<close>

interpretation job_rows: row_store j_id "row_get j_id" "row_put j_id"
  by (rule row_store_rows)

interpretation agent_run_rows: row_store ar_id "row_get ar_id" "row_put ar_id"
  by (rule row_store_rows)

interpretation workflow_run_rows: row_store wr_id "row_get wr_id" "row_put wr_id"
  by (rule row_store_rows)

interpretation step_run_rows: row_store sr_id "row_get sr_id" "row_put sr_id"
  by (rule row_store_rows)

interpretation llm_request_rows: row_store lr_id "row_get lr_id" "row_put lr_id"
  by (rule row_store_rows)

interpretation asset_rows: row_store a_id "row_get a_id" "row_put a_id"
  by (rule row_store_rows)

interpretation user_rows: row_store u_id "row_get u_id" "row_put u_id"
  by (rule row_store_rows)

interpretation product_rows: row_store p_id "row_get p_id" "row_put p_id"
  by (rule row_store_rows)

interpretation heartbeat_rows: row_store hb_worker_id "row_get hb_worker_id" "row_put hb_worker_id"
  by (rule row_store_rows)

text \<open>\<open>db.add(row)\<close> followed by the commit that flushes it.\<close>

definition put_job :: "job \<Rightarrow> unit app" where
  "put_job r = modifyM (\<lambda>w. w\<lparr>jobs := row_put j_id r (jobs w)\<rparr>)"

definition put_agent_run :: "agent_run \<Rightarrow> unit app" where
  "put_agent_run r = modifyM (\<lambda>w. w\<lparr>agent_runs := row_put ar_id r (agent_runs w)\<rparr>)"

definition put_workflow_run :: "workflow_run \<Rightarrow> unit app" where
  "put_workflow_run r = modifyM (\<lambda>w. w\<lparr>workflow_runs := row_put wr_id r (workflow_runs w)\<rparr>)"

definition put_step_run :: "workflow_step_run \<Rightarrow> unit app" where
  "put_step_run r = modifyM (\<lambda>w. w\<lparr>step_runs := row_put sr_id r (step_runs w)\<rparr>)"

definition put_llm_request :: "llm_request_record \<Rightarrow> unit app" where
  "put_llm_request r = modifyM (\<lambda>w. w\<lparr>llm_requests := row_put lr_id r (llm_requests w)\<rparr>)"

declare put_job_def [monad] put_agent_run_def [monad] put_workflow_run_def [monad]
  put_step_run_def [monad] put_llm_request_def [monad]


section \<open>Oracles\<close>

text \<open>
  A value that comes from outside the program is read from an oracle: a function of the number
  of outside values read before it, so successive reads may give any successive values.
\<close>

definition readM :: "(nat \<Rightarrow> 'a) \<Rightarrow> 'a app" where
  "readM f w = (Inr (f (tick w)), w\<lparr>tick := Suc (tick w)\<rparr>)"

declare readM_def [monad]

lemma run_readM [run]:
  "bindM (readM f) g w = g (f (tick w)) (w\<lparr>tick := Suc (tick w)\<rparr>)"
  by (simp add: monad)

lemma run_put [run]:
  "seqM (put_job a) p w = p (w\<lparr>jobs := row_put j_id a (jobs w)\<rparr>)"
  "seqM (put_agent_run b) p w = p (w\<lparr>agent_runs := row_put ar_id b (agent_runs w)\<rparr>)"
  "seqM (put_workflow_run c) p w = p (w\<lparr>workflow_runs := row_put wr_id c (workflow_runs w)\<rparr>)"
  "seqM (put_step_run d) p w = p (w\<lparr>step_runs := row_put sr_id d (step_runs w)\<rparr>)"
  "seqM (put_llm_request e) p w = p (w\<lparr>llm_requests := row_put lr_id e (llm_requests w)\<rparr>)"
  by (simp_all add: monad)

lemma triple_readM [hoare]:
  "triple (\<lambda>w. Q (f (tick w)) (w\<lparr>tick := Suc (tick w)\<rparr>)) (readM f) Q E"
  by (simp add: triple_def monad)

lemma keeps_readM: "(\<And>w n. I w \<Longrightarrow> I (w\<lparr>tick := n\<rparr>)) \<Longrightarrow> keeps I (readM f)"
  by (simp add: keeps_def monad)

end
