(* ===== verification/Llm.thy ===== *)
theory Llm
  imports Config Models
begin

text \<open>
  The gateway's data (\<open>app/llm/models.py\<close>, \<open>app/schemas/llm.py\<close>), the provider interface
  (\<open>app/llm/base.py\<close>), routing (\<open>app/llm/routing.py\<close>) and pricing (\<open>app/llm/pricing.py\<close>).
  Latencies are durations in microseconds. The content, the provider's id and a tool call's
  arguments come out of the provider's reply without a type check, so they are JSON values here
  (\<open>None\<close> is \<open>JNull\<close>); Pydantic checks them when the API's response model is built.
\<close>

section \<open>Data\<close>

record message =
  m_role :: string
  m_content :: string

record tool_definition =
  td_name :: string
  td_description :: string
  td_input_schema :: jdict

record tool_call =
  tc_id :: string
  tc_name :: string
  tc_arguments :: json

record response_format =
  rf_json_schema :: jdict
  rf_name :: string

record llm_request =
  rq_request_id :: string
  rq_model :: string
  rq_messages :: "message list"
  rq_provider :: "string option"
  rq_system_prompt :: "string option"
  rq_temperature :: "rat option"
  rq_max_tokens :: "int option"
  rq_response_format :: "response_format option"
  rq_tools :: "tool_definition list option"
  rq_metadata :: jdict

record llm_usage =
  us_input_tokens :: int
  us_output_tokens :: int

definition us_total_tokens :: "llm_usage \<Rightarrow> int" where
  "us_total_tokens u = us_input_tokens u + us_output_tokens u"

record llm_response =
  rs_request_id :: string
  rs_provider :: string
  rs_model :: string
  rs_content :: json
  rs_finish_reason :: string
  rs_usage :: llm_usage
  rs_latency :: duration
  rs_created_at :: time
  rs_provider_request_id :: json
  rs_cost :: "rat option"
  rs_tool_calls :: "tool_call list option"
  rs_metadata :: jdict

record embedding_request =
  eq_request_id :: string
  eq_model :: string
  eq_input :: "string list"
  eq_provider :: "string option"
  eq_metadata :: jdict

record embedding_response =
  es_request_id :: string
  es_provider :: string
  es_model :: string
  es_embeddings :: "rat list list"
  es_usage :: llm_usage
  es_latency :: duration
  es_created_at :: time
  es_provider_request_id :: json
  es_cost :: "rat option"
  es_metadata :: jdict

record provider_health =
  ph_provider :: string
  ph_status :: string
  ph_detail :: "string option"
  ph_latency :: "duration option"

text \<open>The validated bodies of \<open>app/schemas/llm.py\<close>; tools and messages keep their dataclass form.\<close>

record response_format_in =
  ri_mode :: string
  ri_name :: string
  ri_json_schema :: jdict

record generate_request =
  gr_provider :: "string option"
  gr_model :: string
  gr_system_prompt :: "string option"
  gr_messages :: "message list"
  gr_temperature :: "rat option"
  gr_max_tokens :: "int option"
  gr_response_format :: "response_format_in option"
  gr_tools :: "tool_definition list option"
  gr_metadata :: jdict

datatype embed_input = OneText string | ManyTexts "string list"

record embed_request =
  er_provider :: "string option"
  er_model :: string
  er_input :: embed_input
  er_metadata :: jdict

text \<open>
  What Pydantic checks when the request models are constructed: roles, minimum lengths and
  ranges. Constructing a model from values that fail raises \<open>ValidationError\<close>.
\<close>

definition valid_message :: "message \<Rightarrow> bool" where
  "valid_message m \<longleftrightarrow> m_role m \<in> {''system'', ''user'', ''assistant''} \<and> m_content m \<noteq> []"

definition valid_tool_definition :: "tool_definition \<Rightarrow> bool" where
  "valid_tool_definition t \<longleftrightarrow> td_name t \<noteq> [] \<and> td_description t \<noteq> []"

definition valid_generate_request :: "generate_request \<Rightarrow> bool" where
  "valid_generate_request r \<longleftrightarrow>
     gr_model r \<noteq> [] \<and> gr_messages r \<noteq> [] \<and> list_all valid_message (gr_messages r)
     \<and> (case gr_temperature r of None \<Rightarrow> True | Some t \<Rightarrow> 0 \<le> t \<and> t \<le> 2)
     \<and> (case gr_max_tokens r of None \<Rightarrow> True | Some n \<Rightarrow> 0 < n)
     \<and> (case gr_tools r of None \<Rightarrow> True | Some ts \<Rightarrow> list_all valid_tool_definition ts)"

definition valid_embed_input :: "embed_input \<Rightarrow> bool" where
  "valid_embed_input v = (case v of OneText t \<Rightarrow> t \<noteq> []
     | ManyTexts ts \<Rightarrow> ts \<noteq> [] \<and> list_all (\<lambda>t. t \<noteq> []) ts)"

definition validation_error :: exn where
  "validation_error = PyExc ''ValidationError'' ''validation error''"

definition construct_generate_request :: "generate_request \<Rightarrow> exn + generate_request" where
  "construct_generate_request r = (if valid_generate_request r then Inr r else Inl validation_error)"


section \<open>Providers\<close>

text \<open>
  \<open>LLMProvider\<close>: its operations run in the application's monad because an adapter reads the
  clock and the network; what the rest of the program relies on is the locale \<open>llm_provider\<close>:
  a provider has no access to the database, and raises \<open>LLMError\<close>s or Python's own exceptions.
\<close>

record provider =
  pv_generate :: "llm_request \<Rightarrow> llm_response app"
  pv_embed :: "embedding_request \<Rightarrow> embedding_response app"
  pv_health_check :: "provider_health app"

type_synonym registry = "string \<Rightarrow> provider option"

text \<open>The state except the position in the oracles.\<close>

definition same_tables :: "world \<Rightarrow> world \<Rightarrow> bool" where
  "same_tables w w' \<longleftrightarrow> w' = w\<lparr>tick := tick w'\<rparr>"

lemma same_tables_refl [simp, intro]: "same_tables w w"
  by (simp add: same_tables_def)

lemma same_tables_trans: "same_tables u v \<Longrightarrow> same_tables v w \<Longrightarrow> same_tables u w"
  unfolding same_tables_def by (metis world.surjective world.update_convs(13))

lemma same_tables_tick [simp]: "same_tables w (w\<lparr>tick := n\<rparr>)"
  by (simp add: same_tables_def)

definition no_tables :: "'a app \<Rightarrow> bool" where
  "no_tables p \<longleftrightarrow> (\<forall>w. same_tables w (snd (p w)))"

text \<open>What code outside the application may raise into it: an \<open>LLMError\<close> or an exception of Python's.\<close>

definition foreign_error :: "exn \<Rightarrow> bool" where
  "foreign_error e = (case e of LLM _ \<Rightarrow> True | PyExc _ _ \<Rightarrow> True | _ \<Rightarrow> False)"

definition py_error :: "exn \<Rightarrow> bool" where
  "py_error e = (case e of PyExc _ _ \<Rightarrow> True | _ \<Rightarrow> False)"

lemma error_kinds [simp]:
  "foreign_error (LLM l)" "foreign_error (PyExc n m)" "py_error (PyExc n m)" "\<not> py_error (LLM l)"
  by (simp_all add: foreign_error_def py_error_def)

lemma py_error_foreign: "py_error e \<Longrightarrow> foreign_error e"
  by (cases e) (simp_all add: py_error_def)

lemma errs_foreign: "errs py_error r \<Longrightarrow> errs foreign_error r"
  by (auto simp: errs_def py_error_foreign)

definition is_llm_error :: "exn \<Rightarrow> bool" where
  "is_llm_error e = (case e of LLM _ \<Rightarrow> True | _ \<Rightarrow> False)"

lemma no_tablesD: "no_tables p \<Longrightarrow> p w = (r, w') \<Longrightarrow> same_tables w w'"
  unfolding no_tables_def by (metis snd_conv)

lemma no_tables_ret [simp, intro]: "no_tables (ret x)" "no_tables (raise e)" "no_tables (liftE r)"
  "no_tables (getM f)" "no_tables (readM g)"
  by (simp_all add: no_tables_def monad)

lemma no_tables_bindM: "no_tables p \<Longrightarrow> (\<And>x. no_tables (f x)) \<Longrightarrow> no_tables (bindM p f)"
  unfolding no_tables_def monad
  by (auto split: prod.splits sum.splits) (metis same_tables_trans snd_conv)+

lemma no_tables_catchM: "no_tables p \<Longrightarrow> (\<And>e. no_tables (h e)) \<Longrightarrow> no_tables (catchM p h)"
  unfolding no_tables_def monad
  by (auto split: prod.splits sum.splits) (metis same_tables_trans snd_conv)+

lemma no_tables_if: "no_tables p \<Longrightarrow> no_tables q \<Longrightarrow> no_tables (if b then p else q)"
  by simp

lemma raises_only_readM [simp, intro]: "raises_only P (readM f)"
  by (simp add: raises_only_def monad)

lemma raises_only_put [simp, intro]: "raises_only P (put_llm_request r)" "raises_only P (put_agent_run a)"
  by (simp_all add: put_llm_request_def put_agent_run_def)

lemmas no_tables_rules = no_tables_bindM no_tables_catchM

locale llm_provider =
  fixes generate :: "llm_request \<Rightarrow> llm_response app"
    and embed :: "embedding_request \<Rightarrow> embedding_response app"
    and health_check :: "provider_health app"
  assumes generate_no_tables: "no_tables (generate rq)"
    and embed_no_tables: "no_tables (embed eq)"
    and health_no_tables: "no_tables health_check"
    and generate_raises_foreign: "raises_only foreign_error (generate rq)"
    and embed_raises_foreign: "raises_only foreign_error (embed eq)"

text \<open>
  What \<open>base.py\<close> also asks for: no failure but an \<open>LLMError\<close>, and a health check that never
  raises. The HTTP adapters break the first on malformed replies, see \<open>Providers\<close>.
\<close>

locale strict_llm_provider = llm_provider +
  assumes generate_raises: "raises_only is_llm_error (generate rq)"
    and embed_raises: "raises_only is_llm_error (embed eq)"
    and health_never_raises: "raises_only (\<lambda>_. False) health_check"

text \<open>A registry all of whose providers meet the contract.\<close>

definition lawful_registry :: "registry \<Rightarrow> bool" where
  "lawful_registry rg \<longleftrightarrow> (\<forall>n p. rg n = Some p \<longrightarrow>
     llm_provider (pv_generate p) (pv_embed p) (pv_health_check p))"


section \<open>The environment\<close>

text \<open>
  What the running process was given: its settings, the registry the gateway was built with, the
  JSON Schema validator (\<open>jsonschema.validate\<close>: the message of the failure, if any), and the
  oracles for the wall clock, the monotonic clock, fresh identifiers, the retry jitter and the
  replies of MCP servers. An HTTP exchange times out, fails with a request error, or gives a
  status, headers and a body text.
\<close>

datatype http_result =
    HttpTimeout
  | HttpRequestError string
  | HttpResponse int "(string \<times> string) list" string

record env =
  e_settings :: settings
  e_providers :: registry
  e_schema_error :: "jdict \<Rightarrow> json \<Rightarrow> string option"
  e_now :: "nat \<Rightarrow> time"
  e_mono :: "nat \<Rightarrow> time"
  e_uuid :: "nat \<Rightarrow> uuid"
  e_jitter :: "nat \<Rightarrow> duration"
  e_mcp_http :: "mcp_server_entry \<Rightarrow> json \<Rightarrow> nat \<Rightarrow> http_result"


section \<open>Routing\<close>

definition resolve_provider_name :: "string option \<Rightarrow> settings \<Rightarrow> exn + string" where
  "resolve_provider_name explicit st =
     (let allowed = set (llm_allowed_providers_list st) in
      case explicit of
        Some p \<Rightarrow>
          if p \<notin> allowed then Inl (LLM (LLMProviderNotConfigured p ''not in LLM_ALLOWED_PROVIDERS''))
          else Inr p
      | None \<Rightarrow>
          (case s_llm_default_provider st of
             Some d \<Rightarrow>
               if d \<notin> allowed then Inl (LLM (LLMProviderNotConfigured d ''not in LLM_ALLOWED_PROVIDERS''))
               else Inr d
           | None \<Rightarrow> Inl (LLM (LLMProviderNotConfigured ''none''
               ''no explicit provider in the request and no LLM_DEFAULT_PROVIDER configured''))))"

definition resolve_model :: "string \<Rightarrow> string \<Rightarrow> settings \<Rightarrow> exn + string" where
  "resolve_model provider requested st =
     bindE (llm_model_aliases_map st) (\<lambda>m.
       let aliases = (case map_of m provider of None \<Rightarrow> [] | Some a \<Rightarrow> a)
       in Inr (case map_of aliases requested of None \<Rightarrow> requested | Some r \<Rightarrow> r))"

definition default_model_for :: "string \<Rightarrow> settings \<Rightarrow> string option" where
  "default_model_for provider st =
     (let d = (if provider = ''anthropic'' then s_anthropic_default_model st
               else if provider = ''openai'' then s_openai_default_model st else None)
      in if falsy_opt d then s_llm_default_model st else d)"


section \<open>Pricing\<close>

definition price_key :: "string \<Rightarrow> string \<Rightarrow> string" where
  "price_key provider model = provider @ '':'' @ model"

definition estimate_cost_usd ::
  "settings \<Rightarrow> string \<Rightarrow> string \<Rightarrow> int \<Rightarrow> int \<Rightarrow> exn + rat option" where
  "estimate_cost_usd st provider model input_tokens output_tokens =
     bindE (llm_pricing_map st) (\<lambda>m.
       case map_of m (price_key provider model) of
         None \<Rightarrow> Inr None
       | Some entry \<Rightarrow>
           (case (map_of entry ''input_per_1k'', map_of entry ''output_per_1k'') of
              (Some i, Some q) \<Rightarrow>
                (case (decimal_of i, decimal_of q) of
                   (Some ip, Some op) \<Rightarrow>
                     Inr (Some (of_int input_tokens / 1000 * ip + of_int output_tokens / 1000 * op))
                 | _ \<Rightarrow> Inr None)
            | _ \<Rightarrow> Inr None))"

end
