(* ===== verification/Sha256.thy ===== *)
theory Sha256
  imports "HOL-Library.Word" Prelude
begin

text \<open>
  \<open>hashlib.sha256\<close>, which the code applies to uploaded bytes (checksums), to chunk texts (content
  hashes) and in the fake provider's embeddings: FIPS 180-4 on lists of bytes, with the hexadecimal
  digest, and \<open>str.encode('utf-8')\<close> for code points below 256.
\<close>

unbundle bit_operations_syntax

type_synonym word32 = "32 word"

definition rotr :: "nat \<Rightarrow> word32 \<Rightarrow> word32" where
  "rotr n x = (drop_bit n x OR push_bit (32 - n) x)"

definition sha_k :: "word32 list" where
  "sha_k = [1116352408, 1899447441, 3049323471, 3921009573, 961987163, 1508970993, 2453635748, 2870763221,
      3624381080, 310598401, 607225278, 1426881987, 1925078388, 2162078206, 2614888103, 3248222580,
      3835390401, 4022224774, 264347078, 604807628, 770255983, 1249150122, 1555081692, 1996064986,
      2554220882, 2821834349, 2952996808, 3210313671, 3336571891, 3584528711, 113926993, 338241895,
      666307205, 773529912, 1294757372, 1396182291, 1695183700, 1986661051, 2177026350, 2456956037,
      2730485921, 2820302411, 3259730800, 3345764771, 3516065817, 3600352804, 4094571909, 275423344,
      430227734, 506948616, 659060556, 883997877, 958139571, 1322822218, 1537002063, 1747873779,
      1955562222, 2024104815, 2227730452, 2361852424, 2428436474, 2756734187, 3204031479, 3329325298]"

definition sha_init :: "word32 list" where
  "sha_init = [1779033703, 3144134277, 1013904242, 2773480762, 1359893119, 2600822924, 528734635, 1541459225]"

text \<open>Big-endian conversions between bytes (numbers below 256) and words.\<close>

definition word_of_bytes :: "nat list \<Rightarrow> word32" where
  "word_of_bytes bs = word_of_nat (foldl (\<lambda>n b. 256 * n + b) 0 bs)"

definition bytes_of_nat :: "nat \<Rightarrow> nat \<Rightarrow> nat list" where
  "bytes_of_nat k n = map (\<lambda>i. (n div 256 ^ i) mod 256) (rev [0..<k])"

fun chunks_of :: "nat \<Rightarrow> nat \<Rightarrow> 'a list \<Rightarrow> 'a list list" where
  "chunks_of k 0 xs = []"
| "chunks_of k (Suc n) xs = take k xs # chunks_of k n (drop k xs)"

definition sha_pad :: "nat list \<Rightarrow> nat list" where
  "sha_pad bs = bs @ [128] @ replicate ((119 - length bs mod 64) mod 64) 0
     @ bytes_of_nat 8 (8 * length bs)"

definition sigma0 :: "word32 \<Rightarrow> word32" where
  "sigma0 x = (rotr 7 x XOR rotr 18 x XOR drop_bit 3 x)"

definition sigma1 :: "word32 \<Rightarrow> word32" where
  "sigma1 x = (rotr 17 x XOR rotr 19 x XOR drop_bit 10 x)"

text \<open>The message schedule, latest word first.\<close>

fun sha_extend :: "nat \<Rightarrow> word32 list \<Rightarrow> word32 list" where
  "sha_extend 0 ws = ws"
| "sha_extend (Suc n) ws =
     sha_extend n ((sigma1 (ws ! 1) + ws ! 6 + sigma0 (ws ! 14) + ws ! 15) # ws)"

definition sha_round :: "word32 list \<Rightarrow> word32 \<times> word32 \<Rightarrow> word32 list" where
  "sha_round st kw = (case st of
       [a, b, c, d, e, f, g, h] \<Rightarrow>
         (let t1 = h + (rotr 6 e XOR rotr 11 e XOR rotr 25 e) + ((e AND f) XOR (NOT e AND g))
                     + fst kw + snd kw;
              t2 = (rotr 2 a XOR rotr 13 a XOR rotr 22 a) + ((a AND b) XOR (a AND c) XOR (b AND c))
          in [t1 + t2, a, b, c, d + t1, e, f, g])
     | _ \<Rightarrow> st)"

definition sha_block :: "word32 list \<Rightarrow> nat list \<Rightarrow> word32 list" where
  "sha_block st block =
     (let ws = rev (sha_extend 48 (rev (map word_of_bytes (chunks_of 4 16 block))))
      in map2 (+) st (foldl sha_round st (zip sha_k ws)))"

definition sha256 :: "nat list \<Rightarrow> nat list" where
  "sha256 bs =
     (let p = sha_pad bs
      in concat (map (\<lambda>w. bytes_of_nat 4 (unat w))
           (foldl sha_block sha_init (chunks_of 64 (length p div 64) p))))"

definition nibble :: "nat \<Rightarrow> char" where
  "nibble n = (if n < 10 then char_of (48 + n) else char_of (87 + n))"

definition hexdigest :: "nat list \<Rightarrow> string" where
  "hexdigest bs = concat (map (\<lambda>b. [nibble (b div 16), nibble (b mod 16)]) bs)"

text \<open>UTF-8 of a text whose code points are below 256.\<close>

definition utf8 :: "string \<Rightarrow> nat list" where
  "utf8 s = concat (map (\<lambda>c. let n = of_char c :: nat in
     if n < 128 then [n] else [192 + n div 64, 128 + n mod 64]) s)"

definition sha256_text :: "string \<Rightarrow> string" where
  "sha256_text s = hexdigest (sha256 (utf8 s))"

lemma length_bytes_of_nat [simp]: "length (bytes_of_nat k n) = k"
  by (simp add: bytes_of_nat_def)

lemma bytes_below: "b \<in> set (bytes_of_nat k n) \<Longrightarrow> b < 256"
  by (auto simp: bytes_of_nat_def)

lemma length_chunks_of [simp]: "length (chunks_of k n xs) = n"
  by (induction n arbitrary: xs) auto

lemma length_sha_round [simp]: "length (sha_round st kw) = length st"
  by (simp add: sha_round_def Let_def split: list.splits)

lemma length_sha_rounds: "length (foldl sha_round st kws) = length st"
  by (induction kws arbitrary: st) auto

lemma length_sha_block [simp]: "length st = 8 \<Longrightarrow> length (sha_block st b) = 8"
  by (simp add: sha_block_def Let_def length_sha_rounds)

lemma length_sha_blocks: "length st = 8 \<Longrightarrow> length (foldl sha_block st bs) = 8"
  by (induction bs arbitrary: st) auto

lemma length_sha256 [simp]: "length (sha256 bs) = 32"
proof -
  have "length (foldl sha_block sha_init ps) = 8" for ps
    by (rule length_sha_blocks) (simp add: sha_init_def)
  then show ?thesis
    by (simp add: sha256_def Let_def length_concat comp_def sum_list_triv)
qed

lemma length_sha256_text [simp]: "length (sha256_text s) = 64"
  by (simp add: sha256_text_def hexdigest_def length_concat comp_def sum_list_triv)

end
