(* ===== verification/Providers.thy ===== *)
theory Providers
  imports Llm Sha256
begin

text \<open>
  The provider adapters of \<open>app/llm/providers/\<close>. The network is an oracle (\<open>http_result\<close>). Replies are
  taken apart with Python's dynamic operations, each of which raises what Python raises on a value
  of the wrong type; the message of a \<open>JSONDecodeError\<close> is not modelled.
\<close>

section \<open>Dynamic access\<close>

definition py_index :: "json \<Rightarrow> string \<Rightarrow> exn + json" where
  "py_index v k =
     (case v of
        JObj d \<Rightarrow> (case map_of d k of Some x \<Rightarrow> Inr x | None \<Rightarrow> Inl (PyExc ''KeyError'' (repr_str k)))
      | JArr _ \<Rightarrow> Inl (PyExc ''TypeError'' ''list indices must be integers or slices, not str'')
      | JStr _ \<Rightarrow> Inl (PyExc ''TypeError'' (''string indices must be integers, not '' @ repr_str ''str''))
      | _ \<Rightarrow> Inl (PyExc ''TypeError'' (repr_str (py_type_name v) @ '' object is not subscriptable'')))"

text \<open>\<open>v[0]\<close>.\<close>

definition py_first :: "json \<Rightarrow> exn + json" where
  "py_first v =
     (case v of
        JArr (x # _) \<Rightarrow> Inr x
      | JArr [] \<Rightarrow> Inl (PyExc ''IndexError'' ''list index out of range'')
      | JStr (c # _) \<Rightarrow> Inr (JStr [c])
      | JStr [] \<Rightarrow> Inl (PyExc ''IndexError'' ''string index out of range'')
      | JObj _ \<Rightarrow> Inl (PyExc ''KeyError'' ''0'')
      | _ \<Rightarrow> Inl (PyExc ''TypeError'' (repr_str (py_type_name v) @ '' object is not subscriptable'')))"

definition py_get :: "json \<Rightarrow> string \<Rightarrow> json \<Rightarrow> exn + json" where
  "py_get v k dflt =
     (case v of
        JObj d \<Rightarrow> Inr (dict_get_default d k dflt)
      | _ \<Rightarrow> Inl (PyExc ''AttributeError'' (repr_str (py_type_name v) @ '' object has no attribute ''
               @ repr_str ''get'')))"

definition int_of_text :: "string \<Rightarrow> int option" where
  "int_of_text s0 =
     (let s = filter (\<lambda>c. c \<noteq> CHR ''_'') (strip s0);
          t = (if s \<noteq> [] \<and> hd s \<in> {CHR ''-'', CHR ''+''} then tl s else s)
      in if t = [] \<or> \<not> list_all is_digit t then None
         else Some ((if hd s = CHR ''-'' then - 1 else 1) * int (digits_value 10 t)))"

definition py_int :: "json \<Rightarrow> exn + int" where
  "py_int v =
     (case v of
        JInt n \<Rightarrow> Inr n
      | JBool b \<Rightarrow> Inr (if b then 1 else 0)
      | JFloat x \<Rightarrow> Inr (if 0 \<le> x then \<lfloor>x\<rfloor> else \<lceil>x\<rceil>)
      | JStr s \<Rightarrow> (case int_of_text s of Some n \<Rightarrow> Inr n
          | None \<Rightarrow> Inl (PyExc ''ValueError''
              (''invalid literal for int() with base 10: '' @ repr_str s)))
      | _ \<Rightarrow> Inl (PyExc ''TypeError''
           (''int() argument must be a string, a bytes-like object or a real number, not ''
              @ repr_str (py_type_name v))))"

definition py_float :: "json \<Rightarrow> exn + rat" where
  "py_float v =
     (case v of
        JInt n \<Rightarrow> Inr (of_int n)
      | JBool b \<Rightarrow> Inr (if b then 1 else 0)
      | JFloat x \<Rightarrow> Inr x
      | JStr s \<Rightarrow> (case decimal_of s of Some x \<Rightarrow> Inr x
          | None \<Rightarrow> Inl (PyExc ''ValueError'' (''could not convert string to float: '' @ repr_str s)))
      | _ \<Rightarrow> Inl (PyExc ''TypeError'' (''float() argument must be a string or a real number, not ''
              @ repr_str (py_type_name v))))"

definition py_or :: "json \<Rightarrow> json \<Rightarrow> json" where
  "py_or v d = (if truthy v then v else d)"

text \<open>\<open>dict(v)\<close>; a list must consist of pairs, whose keys are taken to be strings.\<close>

fun dict_of_pairs :: "jdict \<Rightarrow> json list \<Rightarrow> exn + jdict" where
  "dict_of_pairs d [] = Inr d"
| "dict_of_pairs d (JArr [JStr k, v] # xs) = dict_of_pairs (dict_set d k v) xs"
| "dict_of_pairs d (x # xs) = Inl (PyExc ''ValueError'' ''dictionary update sequence element is not a pair'')"

definition py_dict :: "json \<Rightarrow> exn + jdict" where
  "py_dict v = (case v of JObj d \<Rightarrow> Inr d | _ \<Rightarrow> bindE (py_iter v) (dict_of_pairs []))"

text \<open>\<open>''.join(xs)\<close> and \<open>[f(x) for x in xs if p(x)]\<close> with a test that may raise.\<close>

definition py_join :: "json list \<Rightarrow> exn + string" where
  "py_join xs = bindE (mapE (\<lambda>x. case x of JStr s \<Rightarrow> Inr s
     | _ \<Rightarrow> Inl (PyExc ''TypeError'' (''sequence item: expected str instance, '' @ py_type_name x @ '' found''))) xs)
     (\<lambda>ss. Inr (concat ss))"

fun filterE :: "('a \<Rightarrow> 'e + bool) \<Rightarrow> 'a list \<Rightarrow> 'e + 'a list" where
  "filterE p [] = Inr []"
| "filterE p (x # xs) = bindE (p x) (\<lambda>b. bindE (filterE p xs) (\<lambda>ys. Inr (if b then x # ys else ys)))"


text \<open>The dynamic operations raise only exceptions of Python's.\<close>

lemma errs_dynamic [simp, intro]:
  "errs py_error (py_index v k)" "errs py_error (py_first v)" "errs py_error (py_get v k d)"
  "errs py_error (py_int v)" "errs py_error (py_float v)" "errs py_error (py_iter v)"
  "errs py_error (loads_or_raise t)"
  by (auto simp: py_index_def py_first_def py_get_def py_int_def py_float_def loads_or_raise_def
      split: json.splits option.splits list.splits) (cases v; simp)

lemma errs_dict_of_pairs: "errs py_error (dict_of_pairs d xs)"
  by (induction d xs rule: dict_of_pairs.induct) auto

lemma errs_filterE: "(\<And>x. errs P (p x)) \<Longrightarrow> errs P (filterE p xs)"
  by (induction xs) (auto intro!: errs_bindE)

lemma errs_py_dict [simp, intro]: "errs py_error (py_dict v)"
  by (cases v) (auto simp: py_dict_def errs_dict_of_pairs intro!: errs_bindE)

lemma errs_py_join [simp, intro]: "errs py_error (py_join xs)"
  by (auto simp: py_join_def intro!: errs_bindE errs_mapE split: json.splits)

lemmas errs_rules = errs_bindE errs_mapE errs_filterE


section \<open>app/llm/providers/_shared.py\<close>

definition parse_retry_after :: "string option \<Rightarrow> rat option" where
  "parse_retry_after v = (case v of None \<Rightarrow> None | Some t \<Rightarrow> decimal_of t)"

definition extract_error_message :: "string \<Rightarrow> string" where
  "extract_error_message text =
     (case json_loads text of
        None \<Rightarrow> take 200 text
      | Some body \<Rightarrow>
          (case body of
             JObj d \<Rightarrow>
               (case dict_get d ''error'' of
                  JObj err \<Rightarrow> take 200 (py_str (dict_get_default err ''message'' (JStr [])))
                | JStr s \<Rightarrow> take 200 s
                | _ \<Rightarrow> take 200 (py_str body))
           | _ \<Rightarrow> take 200 (py_str body)))"

definition map_http_error ::
  "string \<Rightarrow> string \<Rightarrow> int \<Rightarrow> (string \<times> string) list \<Rightarrow> string \<Rightarrow> bool \<Rightarrow> llm_error" where
  "map_http_error provider model status headers text not_found_is_unsupported =
     (let message = extract_error_message text in
      if status = 401 \<or> status = 403 then LLMAuthenticationError provider
      else if status = 429 then LLMRateLimitError provider (parse_retry_after (map_of headers ''retry-after''))
      else if status = 404 \<and> not_found_is_unsupported then LLMUnsupportedModel provider model
      else if status = 400 \<or> status = 413 \<or> status = 422 then LLMInvalidRequest provider message
      else if 500 \<le> status then LLMProviderUnavailable provider (''HTTP '' @ show_int status)
      else LLMResponseError provider (''HTTP '' @ show_int status @ '': '' @ message))"

text \<open>
  The \<open>except\<close> clauses around the reply's parsing: lookup, type and value errors become
  \<open>LLMResponseError\<close>; an \<open>AttributeError\<close> is in neither adapter's list.
\<close>

definition reply_errors :: "string set \<Rightarrow> string \<Rightarrow> exn + 'a \<Rightarrow> exn + 'a" where
  "reply_errors caught provider r =
     (case r of
        Inl (PyExc n msg) \<Rightarrow>
          if n \<in> caught then Inl (LLM (LLMResponseError provider msg)) else Inl (PyExc n msg)
      | _ \<Rightarrow> r)"


lemma errs_reply_errors: "errs py_error r \<Longrightarrow> errs foreign_error (reply_errors S p r)"
  by (cases r) (auto simp: reply_errors_def py_error_foreign split: exn.splits)


section \<open>app/llm/providers/fake.py\<close>

record fake_config =
  fk_fail_with :: "llm_error option"
  fk_response_content :: "string option"
  fk_tool_calls :: "tool_call list option"

definition deterministic_embedding :: "string \<Rightarrow> rat list" where
  "deterministic_embedding text = map (\<lambda>b. of_nat b / 255) (take 8 (sha256 (utf8 text)))"

definition deterministic_content :: "llm_request \<Rightarrow> string" where
  "deterministic_content rq =
     (let last_user = (case find (\<lambda>m. m_role m = ''user'') (rev (rq_messages rq)) of
                         Some m \<Rightarrow> m_content m | None \<Rightarrow> [])
      in ''[fake:'' @ rq_model rq @ ''] '' @ last_user)"

definition count_tokens :: "string \<Rightarrow> int" where
  "count_tokens text = int (length (words text))"

definition fake_content :: "fake_config \<Rightarrow> llm_request \<Rightarrow> string" where
  "fake_content fk rq = (case fk_response_content fk of Some c \<Rightarrow> c | None \<Rightarrow> deterministic_content rq)"

definition tools_truthy :: "'a list option \<Rightarrow> bool" where
  "tools_truthy ts = (case ts of None \<Rightarrow> False | Some xs \<Rightarrow> xs \<noteq> [])"

definition fake_generate :: "(nat \<Rightarrow> time) \<Rightarrow> fake_config \<Rightarrow> llm_request \<Rightarrow> llm_response app" where
  "fake_generate now fk rq =
     (case fk_fail_with fk of
        Some e \<Rightarrow> raise (LLM e)
      | None \<Rightarrow>
          (let content = fake_content fk rq;
               input_tokens = count_tokens (case rq_system_prompt rq of Some t \<Rightarrow> t | None \<Rightarrow> [])
                 + sum_list (map (\<lambda>m. count_tokens (m_content m)) (rq_messages rq))
           in bindM (readM now) (\<lambda>t. ret
                \<lparr>rs_request_id = rq_request_id rq, rs_provider = ''fake'',
                 rs_model = (if rq_model rq = [] then ''fake-v1'' else rq_model rq),
                 rs_content = JStr content,
                 rs_finish_reason = (if tools_truthy (fk_tool_calls fk) then ''tool_use'' else ''stop''),
                 rs_usage = \<lparr>us_input_tokens = input_tokens, us_output_tokens = count_tokens content\<rparr>,
                 rs_latency = 0, rs_created_at = t,
                 rs_provider_request_id = JStr (''fake-'' @ rq_request_id rq), rs_cost = None,
                 rs_tool_calls = fk_tool_calls fk, rs_metadata = []\<rparr>)))"

definition fake_embed :: "(nat \<Rightarrow> time) \<Rightarrow> fake_config \<Rightarrow> embedding_request \<Rightarrow> embedding_response app" where
  "fake_embed now fk eq =
     (case fk_fail_with fk of
        Some e \<Rightarrow> raise (LLM e)
      | None \<Rightarrow> bindM (readM now) (\<lambda>t. ret
          \<lparr>es_request_id = eq_request_id eq, es_provider = ''fake'',
           es_model = (if eq_model eq = [] then ''fake-embed-v1'' else eq_model eq),
           es_embeddings = map deterministic_embedding (eq_input eq),
           es_usage = \<lparr>us_input_tokens = sum_list (map count_tokens (eq_input eq)), us_output_tokens = 0\<rparr>,
           es_latency = 0, es_created_at = t,
           es_provider_request_id = JStr (''fake-'' @ eq_request_id eq), es_cost = None,
           es_metadata = []\<rparr>))"

definition fake_health_check :: "fake_config \<Rightarrow> provider_health app" where
  "fake_health_check fk = ret (case fk_fail_with fk of
       Some e \<Rightarrow> \<lparr>ph_provider = ''fake'', ph_status = ''unavailable'',
                  ph_detail = Some (llm_error_name e), ph_latency = None\<rparr>
     | None \<Rightarrow> \<lparr>ph_provider = ''fake'', ph_status = ''reachable'', ph_detail = None, ph_latency = Some 0\<rparr>)"

definition fake_provider :: "(nat \<Rightarrow> time) \<Rightarrow> fake_config \<Rightarrow> provider" where
  "fake_provider now fk = \<lparr>pv_generate = fake_generate now fk, pv_embed = fake_embed now fk,
     pv_health_check = fake_health_check fk\<rparr>"

interpretation fake: strict_llm_provider "fake_generate now fk" "fake_embed now fk" "fake_health_check fk"
  by unfold_locales
     (auto simp: fake_generate_def fake_embed_def fake_health_check_def is_llm_error_def Let_def
       split: option.splits intro!: no_tables_bindM raises_only_bindM)

lemma fake_generate_no_failure:
  "fk_fail_with fk = None \<Longrightarrow> \<exists>r. fake_generate now fk rq w = (Inr r, w\<lparr>tick := Suc (tick w)\<rparr>)"
  by (simp add: fake_generate_def Let_def monad)

lemma length_deterministic_embedding [simp]: "length (deterministic_embedding t) = 8"
  by (simp add: deterministic_embedding_def)


section \<open>The HTTP exchange of the adapters\<close>

text \<open>
  The body text of a reply with status 200 and the time the exchange took; a timeout, a request
  error and any other status are raised as the \<open>LLMError\<close> they map to.
\<close>

definition exchange ::
  "string \<Rightarrow> string \<Rightarrow> (nat \<Rightarrow> time) \<Rightarrow> (nat \<Rightarrow> http_result) \<Rightarrow> (string \<times> duration) app" where
  "exchange provider model tmr post =
     bindM (readM tmr) (\<lambda>started. bindM (readM post) (\<lambda>r. case r of
         HttpTimeout \<Rightarrow> raise (LLM (LLMTimeoutError provider))
       | HttpRequestError msg \<Rightarrow> raise (LLM (LLMProviderUnavailable provider msg))
       | HttpResponse status headers text \<Rightarrow>
           bindM (readM tmr) (\<lambda>finished.
             if status \<noteq> 200 then raise (LLM (map_http_error provider model status headers text True))
             else ret (text, finished - started))))"

definition http_health :: "string \<Rightarrow> (nat \<Rightarrow> time) \<Rightarrow> (nat \<Rightarrow> http_result) \<Rightarrow> provider_health app" where
  "http_health provider tmr get =
     bindM (readM tmr) (\<lambda>started. bindM (readM get) (\<lambda>r. case r of
         HttpTimeout \<Rightarrow> ret \<lparr>ph_provider = provider, ph_status = ''unavailable'',
             ph_detail = Some ''timeout'', ph_latency = None\<rparr>
       | HttpRequestError msg \<Rightarrow> ret \<lparr>ph_provider = provider, ph_status = ''unavailable'',
             ph_detail = Some msg, ph_latency = None\<rparr>
       | HttpResponse status _ _ \<Rightarrow>
           bindM (readM tmr) (\<lambda>finished. let latency = Some (finished - started) in ret
             (if status = 401 \<or> status = 403 then \<lparr>ph_provider = provider, ph_status = ''unavailable'',
                ph_detail = Some ''authentication failed'', ph_latency = latency\<rparr>
              else if 500 \<le> status then \<lparr>ph_provider = provider, ph_status = ''unavailable'',
                ph_detail = Some (''HTTP '' @ show_int status), ph_latency = latency\<rparr>
              else \<lparr>ph_provider = provider, ph_status = ''reachable'', ph_detail = None,
                ph_latency = latency\<rparr>))))"

lemma no_tables_exchange: "no_tables (exchange p m tmr post)"
  by (auto simp: exchange_def intro!: no_tables_bindM split: http_result.splits)

lemma exchange_raises_foreign: "raises_only foreign_error (exchange p m tmr post)"
  by (auto simp: exchange_def intro!: raises_only_bindM split: http_result.splits)

lemma exchange_raises: "raises_only is_llm_error (exchange p m tmr post)"
  by (auto simp: exchange_def is_llm_error_def intro!: raises_only_bindM split: http_result.splits)

lemma no_tables_http_health: "no_tables (http_health p tmr get)"
  by (auto simp: http_health_def Let_def intro!: no_tables_bindM split: http_result.splits)

lemma http_health_never_raises: "raises_only P (http_health p tmr get)"
  by (auto simp: http_health_def Let_def intro!: raises_only_bindM split: http_result.splits)


section \<open>app/llm/providers/anthropic.py\<close>

definition json_opt :: "string \<Rightarrow> 'a option \<Rightarrow> ('a \<Rightarrow> json) \<Rightarrow> jdict" where
  "json_opt k v f = (case v of None \<Rightarrow> [] | Some x \<Rightarrow> [(k, f x)])"

definition message_json :: "message \<Rightarrow> json" where
  "message_json m = JObj [(''role'', JStr (m_role m)), (''content'', JStr (m_content m))]"

definition newline2 :: string where
  "newline2 = [CHR 0x0A, CHR 0x0A]"

definition schema_hint :: "jdict \<Rightarrow> string" where
  "schema_hint schema =
     ''Respond with ONLY a single JSON object matching this JSON Schema, no prose, no markdown code fences:''
       @ [CHR 0x0A] @ py_repr (JObj schema)"

definition anthropic_payload :: "llm_request \<Rightarrow> json" where
  "anthropic_payload rq =
     (let parts = map m_content (filter (\<lambda>m. m_role m = ''system'') (rq_messages rq));
          system = (case rq_system_prompt rq of None \<Rightarrow> join newline2 parts
                    | Some t \<Rightarrow> if t = [] then join newline2 parts else t);
          base = [(''model'', JStr (rq_model rq)),
                  (''max_tokens'', JInt (case rq_max_tokens rq of None \<Rightarrow> 1024
                                       | Some n \<Rightarrow> if n = 0 then 1024 else n)),
                  (''messages'', JArr (map message_json
                      (filter (\<lambda>m. m_role m \<noteq> ''system'') (rq_messages rq))))]
                 @ (if system = [] then [] else [(''system'', JStr system)])
                 @ json_opt ''temperature'' (rq_temperature rq) JFloat;
          hinted = (case rq_response_format rq of None \<Rightarrow> base
                    | Some f \<Rightarrow> dict_set base ''system''
                        (JStr (strip (system @ newline2 @ schema_hint (rf_json_schema f)))))
      in JObj (hinted @ (if tools_truthy (rq_tools rq)
           then [(''tools'', JArr (map (\<lambda>t. JObj [(''name'', JStr (td_name t)),
                   (''description'', JStr (td_description t)),
                   (''input_schema'', JObj (td_input_schema t))]) (the (rq_tools rq))))]
           else [])))"

record parsed_reply =
  pr_content :: json
  pr_tool_calls :: "tool_call list option"
  pr_input_tokens :: int
  pr_output_tokens :: int
  pr_finish_reason :: string
  pr_id :: json

definition has_type :: "string \<Rightarrow> json \<Rightarrow> exn + bool" where
  "has_type t block = bindE (py_get block ''type'' JNull) (\<lambda>v. Inr (v = JStr t))"

definition anthropic_tool_call :: "json \<Rightarrow> exn + tool_call" where
  "anthropic_tool_call block =
     bindE (py_index block ''id'') (\<lambda>i. bindE (py_index block ''name'') (\<lambda>n.
     bindE (py_get block ''input'' JNull) (\<lambda>inp. bindE (py_dict (py_or inp (JObj []))) (\<lambda>args.
     Inr \<lparr>tc_id = py_str i, tc_name = py_str n, tc_arguments = JObj args\<rparr>))))"

definition parse_anthropic :: "string \<Rightarrow> exn + parsed_reply" where
  "parse_anthropic text =
     bindE (loads_or_raise text) (\<lambda>body.
     bindE (py_index body ''content'') (\<lambda>blocks0. bindE (py_iter blocks0) (\<lambda>blocks.
     bindE (filterE (has_type ''text'') blocks) (\<lambda>tbs.
     bindE (mapE (\<lambda>b. py_index b ''text'') tbs) (\<lambda>texts. bindE (py_join texts) (\<lambda>content.
     bindE (filterE (has_type ''tool_use'') blocks) (\<lambda>tus.
     bindE (mapE anthropic_tool_call tus) (\<lambda>calls.
     bindE (py_index body ''usage'') (\<lambda>usage.
     bindE (bindE (py_index usage ''input_tokens'') py_int) (\<lambda>ins.
     bindE (bindE (py_index usage ''output_tokens'') py_int) (\<lambda>outs.
     bindE (py_get body ''stop_reason'' JNull) (\<lambda>fin.
     bindE (py_get body ''id'' JNull) (\<lambda>rid.
     Inr \<lparr>pr_content = JStr content, pr_tool_calls = (if tus = [] then None else Some calls),
          pr_input_tokens = ins, pr_output_tokens = outs,
          pr_finish_reason = py_str (py_or fin (JStr ''stop'')), pr_id = rid\<rparr>)))))))))))))"

lemma parse_anthropic_raises: "errs py_error (parse_anthropic text)"
  by (auto simp: parse_anthropic_def has_type_def anthropic_tool_call_def intro!: errs_rules)

definition response_of :: "llm_request \<Rightarrow> string \<Rightarrow> duration \<Rightarrow> time \<Rightarrow> parsed_reply \<Rightarrow> llm_response" where
  "response_of rq provider latency t pr =
     \<lparr>rs_request_id = rq_request_id rq, rs_provider = provider, rs_model = rq_model rq,
      rs_content = pr_content pr, rs_finish_reason = pr_finish_reason pr,
      rs_usage = \<lparr>us_input_tokens = pr_input_tokens pr, us_output_tokens = pr_output_tokens pr\<rparr>,
      rs_latency = latency, rs_created_at = t, rs_provider_request_id = pr_id pr, rs_cost = None,
      rs_tool_calls = pr_tool_calls pr, rs_metadata = []\<rparr>"

definition anthropic_generate ::
  "(nat \<Rightarrow> time) \<Rightarrow> (nat \<Rightarrow> time) \<Rightarrow> (json \<Rightarrow> nat \<Rightarrow> http_result) \<Rightarrow> llm_request \<Rightarrow> llm_response app" where
  "anthropic_generate now tmr post rq =
     bindM (exchange ''anthropic'' (rq_model rq) tmr (post (anthropic_payload rq))) (\<lambda>(text, latency).
     bindM (liftE (reply_errors {''KeyError'', ''TypeError'', ''ValueError'', ''JSONDecodeError''}
              ''anthropic'' (parse_anthropic text))) (\<lambda>pr.
     bindM (readM now) (\<lambda>t. ret (response_of rq ''anthropic'' latency t pr))))"

definition anthropic_embed :: "embedding_request \<Rightarrow> embedding_response app" where
  "anthropic_embed eq = raise (LLM (LLMEmbeddingNotSupported ''anthropic''))"

interpretation anthropic: llm_provider "anthropic_generate now tmr post" anthropic_embed
    "http_health ''anthropic'' tmr get"
  by unfold_locales
     (auto simp: anthropic_generate_def anthropic_embed_def no_tables_http_health no_tables_exchange
       intro!: no_tables_bindM raises_only_bindM exchange_raises_foreign errs_reply_errors parse_anthropic_raises)


section \<open>app/llm/providers/openai_compatible.py\<close>

definition openai_payload :: "llm_request \<Rightarrow> json" where
  "openai_payload rq =
     (let system = (case rq_system_prompt rq of None \<Rightarrow> []
            | Some t \<Rightarrow> if t = [] then [] else [JObj [(''role'', JStr ''system''), (''content'', JStr t)]])
      in JObj ([(''model'', JStr (rq_model rq)),
                (''messages'', JArr (system @ map message_json (rq_messages rq)))]
          @ json_opt ''temperature'' (rq_temperature rq) JFloat
          @ json_opt ''max_tokens'' (rq_max_tokens rq) JInt
          @ json_opt ''response_format'' (rq_response_format rq) (\<lambda>f.
              JObj [(''type'', JStr ''json_schema''),
                    (''json_schema'', JObj [(''name'', JStr (rf_name f)),
                        (''schema'', JObj (rf_json_schema f)), (''strict'', JBool True)])])
          @ (if tools_truthy (rq_tools rq)
             then [(''tools'', JArr (map (\<lambda>t. JObj [(''type'', JStr ''function''),
                     (''function'', JObj [(''name'', JStr (td_name t)),
                        (''description'', JStr (td_description t)),
                        (''parameters'', JObj (td_input_schema t))])]) (the (rq_tools rq))))]
             else [])))"

text \<open>\<open>json.loads(x)\<close> of a value that need not be text.\<close>

definition loads_json :: "json \<Rightarrow> exn + json" where
  "loads_json v = (case v of JStr t \<Rightarrow> loads_or_raise t
     | _ \<Rightarrow> Inl (PyExc ''TypeError'' (''the JSON object must be str, bytes or bytearray, not ''
              @ py_type_name v)))"

definition openai_tool_call :: "json \<Rightarrow> exn + tool_call" where
  "openai_tool_call call =
     bindE (py_index call ''id'') (\<lambda>i. bindE (py_index call ''function'') (\<lambda>f.
     bindE (py_index f ''name'') (\<lambda>n. bindE (py_index f ''arguments'') (\<lambda>a.
     bindE (loads_json (py_or a (JStr ''{}''))) (\<lambda>args.
     Inr \<lparr>tc_id = py_str i, tc_name = py_str n, tc_arguments = args\<rparr>)))))"

definition parse_openai :: "string \<Rightarrow> exn + parsed_reply" where
  "parse_openai text =
     bindE (loads_or_raise text) (\<lambda>body.
     bindE (bindE (py_index body ''choices'') py_first) (\<lambda>choice.
     bindE (py_index choice ''message'') (\<lambda>msg.
     bindE (py_index msg ''content'') (\<lambda>content.
     bindE (py_get choice ''finish_reason'' JNull) (\<lambda>fin.
     bindE (py_get body ''usage'' JNull) (\<lambda>usage0. let usage = py_or usage0 (JObj []) in
     bindE (bindE (py_get usage ''prompt_tokens'' (JInt 0)) py_int) (\<lambda>ins.
     bindE (bindE (py_get usage ''completion_tokens'' (JInt 0)) py_int) (\<lambda>outs.
     bindE (py_get body ''id'' JNull) (\<lambda>rid.
     bindE (py_get msg ''tool_calls'' JNull) (\<lambda>raw.
     bindE (if truthy raw then bindE (bindE (py_iter raw) (mapE openai_tool_call)) (Inr \<circ> Some)
            else Inr None) (\<lambda>calls.
     Inr \<lparr>pr_content = py_or content (JStr []), pr_tool_calls = calls, pr_input_tokens = ins,
          pr_output_tokens = outs, pr_finish_reason = py_str (py_or fin (JStr ''stop'')),
          pr_id = rid\<rparr>)))))))))))"

lemma parse_openai_raises: "errs py_error (parse_openai text)"
  by (auto simp: parse_openai_def openai_tool_call_def loads_json_def Let_def intro!: errs_rules
      split: json.splits)

definition openai_caught :: "string set" where
  "openai_caught = {''KeyError'', ''IndexError'', ''TypeError'', ''ValueError'', ''JSONDecodeError''}"

definition openai_generate ::
  "(nat \<Rightarrow> time) \<Rightarrow> (nat \<Rightarrow> time) \<Rightarrow> (json \<Rightarrow> nat \<Rightarrow> http_result) \<Rightarrow> llm_request \<Rightarrow> llm_response app" where
  "openai_generate now tmr post rq =
     bindM (exchange ''openai'' (rq_model rq) tmr (post (openai_payload rq))) (\<lambda>(text, latency).
     bindM (liftE (reply_errors openai_caught ''openai'' (parse_openai text))) (\<lambda>pr.
     bindM (readM now) (\<lambda>t. ret (response_of rq ''openai'' latency t pr))))"

text \<open>\<open>sorted(items, key=...)\<close>: numbers order by value, texts as texts, other keys do not compare.\<close>

definition num_key :: "json \<Rightarrow> rat option" where
  "num_key v = (case v of JInt n \<Rightarrow> Some (of_int n) | JBool b \<Rightarrow> Some (if b then 1 else 0)
     | JFloat x \<Rightarrow> Some x | _ \<Rightarrow> None)"



definition py_sorted :: "(json \<times> json) list \<Rightarrow> exn + json list" where
  "py_sorted kvs =
     (if length kvs < 2 then Inr (map snd kvs)
      else if list_all (\<lambda>(k, v). num_key k \<noteq> None) kvs
      then Inr (map snd (sort_key (\<lambda>(k, v). the (num_key k)) kvs))
      else if list_all (\<lambda>(k, v). is_str k) kvs
      then Inr (map snd (foldr (insert_by (\<lambda>(k, v) (k', v'). text_le (str_of k) (str_of k')))
                   kvs []))
      else Inl (PyExc ''TypeError'' ''< not supported between these keys''))"

definition parse_openai_embeddings :: "string \<Rightarrow> exn + rat list list \<times> int \<times> json" where
  "parse_openai_embeddings text =
     bindE (loads_or_raise text) (\<lambda>body.
     bindE (bindE (py_index body ''data'') py_iter) (\<lambda>items.
     bindE (mapE (\<lambda>item. bindE (py_index item ''index'') (\<lambda>k. Inr (k, item))) items) (\<lambda>keyed.
     bindE (py_sorted keyed) (\<lambda>ordered.
     bindE (mapE (\<lambda>item. bindE (bindE (py_index item ''embedding'') py_iter) (mapE py_float)) ordered)
       (\<lambda>embeddings.
     bindE (py_get body ''usage'' JNull) (\<lambda>usage0.
     bindE (bindE (py_get (py_or usage0 (JObj [])) ''prompt_tokens'' (JInt 0)) py_int) (\<lambda>ins.
     bindE (py_get body ''id'' JNull) (\<lambda>rid.
     Inr (embeddings, ins, rid)))))))))"

lemma parse_openai_embeddings_raises: "errs py_error (parse_openai_embeddings text)"
  by (auto simp: parse_openai_embeddings_def py_sorted_def intro!: errs_rules)

definition openai_embed_payload :: "embedding_request \<Rightarrow> json" where
  "openai_embed_payload eq = JObj [(''model'', JStr (eq_model eq)), (''input'', JArr (map JStr (eq_input eq)))]"

definition openai_embed ::
  "(nat \<Rightarrow> time) \<Rightarrow> (nat \<Rightarrow> time) \<Rightarrow> (json \<Rightarrow> nat \<Rightarrow> http_result) \<Rightarrow> embedding_request \<Rightarrow>
     embedding_response app" where
  "openai_embed now tmr post eq =
     bindM (exchange ''openai'' (eq_model eq) tmr (post (openai_embed_payload eq))) (\<lambda>(text, latency).
     bindM (liftE (reply_errors openai_caught ''openai'' (parse_openai_embeddings text)))
       (\<lambda>(embeddings, ins, rid).
     bindM (readM now) (\<lambda>t. ret
       \<lparr>es_request_id = eq_request_id eq, es_provider = ''openai'', es_model = eq_model eq,
        es_embeddings = embeddings, es_usage = \<lparr>us_input_tokens = ins, us_output_tokens = 0\<rparr>,
        es_latency = latency, es_created_at = t, es_provider_request_id = rid, es_cost = None,
        es_metadata = []\<rparr>)))"

interpretation openai: llm_provider "openai_generate now tmr post" "openai_embed now tmr post_embed"
    "http_health ''openai'' tmr get"
  by unfold_locales
     (auto simp: openai_generate_def openai_embed_def no_tables_http_health no_tables_exchange
       split: prod.splits intro!: no_tables_bindM raises_only_bindM exchange_raises_foreign errs_reply_errors
         parse_openai_raises parse_openai_embeddings_raises)


section \<open>app/llm/factory.py\<close>

text \<open>The network oracles of the two HTTP adapters: a POST and the health check's GET for each.\<close>

record network =
  nw_anthropic :: "json \<Rightarrow> nat \<Rightarrow> http_result"
  nw_anthropic_get :: "nat \<Rightarrow> http_result"
  nw_openai :: "json \<Rightarrow> nat \<Rightarrow> http_result"
  nw_openai_embed :: "json \<Rightarrow> nat \<Rightarrow> http_result"
  nw_openai_get :: "nat \<Rightarrow> http_result"

definition default_fake :: fake_config where
  "default_fake = \<lparr>fk_fail_with = None, fk_response_content = None, fk_tool_calls = None\<rparr>"

definition build_provider ::
  "(nat \<Rightarrow> time) \<Rightarrow> (nat \<Rightarrow> time) \<Rightarrow> network \<Rightarrow> string \<Rightarrow> settings \<Rightarrow> exn + provider" where
  "build_provider now tmr net name st =
     (if name = ''fake'' then Inr (fake_provider now default_fake)
      else if name = ''anthropic'' then
        (if falsy_opt (s_anthropic_api_key st)
         then Inl (LLM (LLMProviderNotConfigured ''anthropic'' ''ANTHROPIC_API_KEY is not set''))
         else Inr \<lparr>pv_generate = anthropic_generate now tmr (nw_anthropic net), pv_embed = anthropic_embed,
                   pv_health_check = http_health ''anthropic'' tmr (nw_anthropic_get net)\<rparr>)
      else if name = ''openai'' then
        (if falsy_opt (s_openai_api_key st)
         then Inl (LLM (LLMProviderNotConfigured ''openai'' ''OPENAI_API_KEY is not set''))
         else Inr \<lparr>pv_generate = openai_generate now tmr (nw_openai net),
                   pv_embed = openai_embed now tmr (nw_openai_embed net),
                   pv_health_check = http_health ''openai'' tmr (nw_openai_get net)\<rparr>)
      else Inl (LLM (LLMProviderNotConfigured name ''unknown provider'')))"

definition provider_registry ::
  "(nat \<Rightarrow> time) \<Rightarrow> (nat \<Rightarrow> time) \<Rightarrow> network \<Rightarrow> settings \<Rightarrow> registry" where
  "provider_registry now tmr net st name =
     (if name \<in> set (llm_allowed_providers_list st)
      then (case build_provider now tmr net name st of Inl _ \<Rightarrow> None | Inr p \<Rightarrow> Some p)
      else None)"

lemma build_provider_lawful:
  "build_provider now tmr net name st = Inr p \<Longrightarrow>
     llm_provider (pv_generate p) (pv_embed p) (pv_health_check p)"
  by (auto simp: build_provider_def fake_provider_def fake.llm_provider_axioms
      anthropic.llm_provider_axioms openai.llm_provider_axioms split: if_splits)

text \<open>The registry the application builds meets the contract of every provider.\<close>

lemma provider_registry_lawful: "lawful_registry (provider_registry now tmr net st)"
  by (auto simp: lawful_registry_def provider_registry_def build_provider_lawful
      split: if_splits sum.splits)

end
