(* ===== verification/Lifecycle.thy ===== *)
theory Lifecycle
  imports Models
begin

text \<open>
  The four status machines (\<open>app/jobs/models.py\<close>, \<open>app/runtime/models.py\<close>,
  \<open>app/workflows/models.py\<close>): their transition tables and validators, and the facts every
  caller of a validator relies on, proved once in the locale \<open>lifecycle\<close> and interpreted for
  each machine. The run and step machines are also acyclic (\<open>ranked_lifecycle\<close>): a run passes
  through each status at most once. The job machine has the cycle RUNNING, RETRYING, RUNNING.
\<close>

section \<open>Interface\<close>

locale lifecycle =
  fixes transitions :: "'s \<Rightarrow> 's set"
    and validate :: "'s \<Rightarrow> 's \<Rightarrow> 'e + unit"
    and rejected :: "'s \<Rightarrow> 's \<Rightarrow> 'e"
    and terminal :: "'s \<Rightarrow> bool"
  assumes validate_spec:
      "validate s t = (if t \<in> transitions s then Inr () else Inl (rejected s t))"
    and terminal_iff: "terminal s \<longleftrightarrow> transitions s = {}"
begin

lemma validate_ok: "validate s t = Inr () \<longleftrightarrow> t \<in> transitions s"
  by (simp add: validate_spec)

lemma validate_rejects: "t \<notin> transitions s \<Longrightarrow> validate s t = Inl (rejected s t)"
  by (simp add: validate_spec)

lemma terminal_rejects: "terminal s \<Longrightarrow> validate s t = Inl (rejected s t)"
  by (simp add: validate_spec terminal_iff)

lemma terminal_absorbs:
  assumes "(\<lambda>a b. validate a b = Inr ())\<^sup>*\<^sup>* s t" and "terminal s"
  shows "t = s"
  using assms by (induction rule: converse_rtranclp_induct) (auto simp: terminal_rejects)

end

locale ranked_lifecycle = lifecycle transitions validate rejected terminal
  for transitions :: "'s \<Rightarrow> 's set"
    and validate :: "'s \<Rightarrow> 's \<Rightarrow> 'e + unit"
    and rejected :: "'s \<Rightarrow> 's \<Rightarrow> 'e"
    and terminal :: "'s \<Rightarrow> bool" +
  fixes rank :: "'s \<Rightarrow> nat" and top :: nat
  assumes rank_increases: "t \<in> transitions s \<Longrightarrow> rank s < rank t"
    and rank_bounded: "rank s \<le> top"
begin

lemma path_rank: "((\<lambda>a b. validate a b = Inr ()) ^^ n) s t \<Longrightarrow> rank s + n \<le> rank t"
proof (induction n arbitrary: t)
  case (Suc n)
  then obtain u where "((\<lambda>a b. validate a b = Inr ()) ^^ n) s u" and "validate u t = Inr ()"
    by auto
  then show ?case using Suc.IH [of u] rank_increases [of t u] by (simp add: validate_ok)
qed simp

lemma path_bounded: "((\<lambda>a b. validate a b = Inr ()) ^^ n) s t \<Longrightarrow> n \<le> top"
  using path_rank [of n s t] rank_bounded [of t] by simp

lemma never_revisits: "(\<lambda>a b. validate a b = Inr ())\<^sup>+\<^sup>+ s t \<Longrightarrow> t \<noteq> s"
proof -
  assume "(\<lambda>a b. validate a b = Inr ())\<^sup>+\<^sup>+ s t"
  then have "rank s < rank t"
    by (induction rule: tranclp_induct) (auto simp: validate_ok dest: rank_increases)
  then show "t \<noteq> s" by auto
qed

end


section \<open>Jobs\<close>

fun job_transitions :: "job_status \<Rightarrow> job_status set" where
  "job_transitions JS_QUEUED = {JS_RUNNING, JS_CANCELLED}"
| "job_transitions JS_RUNNING = {JS_COMPLETED, JS_FAILED, JS_RETRYING, JS_CANCELLED}"
| "job_transitions JS_RETRYING = {JS_RUNNING, JS_CANCELLED}"
| "job_transitions JS_COMPLETED = {}"
| "job_transitions JS_FAILED = {}"
| "job_transitions JS_CANCELLED = {}"

definition validate_job_transition :: "job_status \<Rightarrow> job_status \<Rightarrow> exn + unit" where
  "validate_job_transition current target =
     (if target \<notin> job_transitions current then Inl (JobExn (InvalidJobTransitionError current target))
      else Inr ())"

fun job_terminal :: "job_status \<Rightarrow> bool" where
  "job_terminal JS_COMPLETED = True"
| "job_terminal JS_FAILED = True"
| "job_terminal JS_CANCELLED = True"
| "job_terminal _ = False"

interpretation job_lifecycle: lifecycle job_transitions validate_job_transition
    "\<lambda>s t. JobExn (InvalidJobTransitionError s t)" job_terminal
proof
  fix s t :: job_status
  show "validate_job_transition s t
      = (if t \<in> job_transitions s then Inr () else Inl (JobExn (InvalidJobTransitionError s t)))"
    by (simp add: validate_job_transition_def)
  show "job_terminal s \<longleftrightarrow> job_transitions s = {}"
    by (cases s) auto
qed


section \<open>Agent runs\<close>

fun run_transitions :: "agent_run_status \<Rightarrow> agent_run_status set" where
  "run_transitions AR_QUEUED = {AR_RUNNING, AR_CANCELLED}"
| "run_transitions AR_RUNNING = {AR_COMPLETED, AR_FAILED, AR_CANCELLED}"
| "run_transitions AR_COMPLETED = {}"
| "run_transitions AR_FAILED = {}"
| "run_transitions AR_CANCELLED = {}"

definition validate_transition :: "agent_run_status \<Rightarrow> agent_run_status \<Rightarrow> exn + unit" where
  "validate_transition current target =
     (if target \<notin> run_transitions current then Inl (Runtime (InvalidRunTransitionError current target))
      else Inr ())"

fun run_terminal :: "agent_run_status \<Rightarrow> bool" where
  "run_terminal AR_QUEUED = False"
| "run_terminal AR_RUNNING = False"
| "run_terminal _ = True"

fun run_rank :: "agent_run_status \<Rightarrow> nat" where
  "run_rank AR_QUEUED = 0"
| "run_rank AR_RUNNING = 1"
| "run_rank _ = 2"

interpretation run_lifecycle: ranked_lifecycle run_transitions validate_transition
    "\<lambda>s t. Runtime (InvalidRunTransitionError s t)" run_terminal run_rank 2
proof
  fix s t :: agent_run_status
  show "validate_transition s t
      = (if t \<in> run_transitions s then Inr () else Inl (Runtime (InvalidRunTransitionError s t)))"
    by (simp add: validate_transition_def)
  show "run_terminal s \<longleftrightarrow> run_transitions s = {}"
    by (cases s) auto
  show "run_rank s < run_rank t" if "t \<in> run_transitions s"
    using that by (cases s) auto
  show "run_rank s \<le> 2" by (cases s) auto
qed


section \<open>Workflow runs and their steps\<close>

fun workflow_run_transitions :: "workflow_run_status \<Rightarrow> workflow_run_status set" where
  "workflow_run_transitions WR_QUEUED = {WR_RUNNING, WR_CANCELLED}"
| "workflow_run_transitions WR_RUNNING = {WR_COMPLETED, WR_FAILED, WR_CANCELLED}"
| "workflow_run_transitions WR_COMPLETED = {}"
| "workflow_run_transitions WR_FAILED = {}"
| "workflow_run_transitions WR_CANCELLED = {}"

fun step_run_transitions :: "workflow_step_run_status \<Rightarrow> workflow_step_run_status set" where
  "step_run_transitions SR_PENDING = {SR_RUNNING, SR_SKIPPED, SR_CANCELLED}"
| "step_run_transitions SR_RUNNING = {SR_COMPLETED, SR_FAILED, SR_CANCELLED}"
| "step_run_transitions SR_COMPLETED = {}"
| "step_run_transitions SR_FAILED = {}"
| "step_run_transitions SR_CANCELLED = {}"
| "step_run_transitions SR_SKIPPED = {}"

definition validate_workflow_run_transition ::
  "workflow_run_status \<Rightarrow> workflow_run_status \<Rightarrow> exn + unit" where
  "validate_workflow_run_transition current target =
     (if target \<notin> workflow_run_transitions current
      then Inl (Workflow (InvalidWorkflowRunTransitionError current target)) else Inr ())"

definition validate_step_run_transition ::
  "workflow_step_run_status \<Rightarrow> workflow_step_run_status \<Rightarrow> exn + unit" where
  "validate_step_run_transition current target =
     (if target \<notin> step_run_transitions current
      then Inl (Workflow (InvalidStepRunTransitionError current target)) else Inr ())"

fun workflow_run_terminal :: "workflow_run_status \<Rightarrow> bool" where
  "workflow_run_terminal WR_QUEUED = False"
| "workflow_run_terminal WR_RUNNING = False"
| "workflow_run_terminal _ = True"

fun workflow_run_rank :: "workflow_run_status \<Rightarrow> nat" where
  "workflow_run_rank WR_QUEUED = 0"
| "workflow_run_rank WR_RUNNING = 1"
| "workflow_run_rank _ = 2"

fun step_run_terminal :: "workflow_step_run_status \<Rightarrow> bool" where
  "step_run_terminal SR_PENDING = False"
| "step_run_terminal SR_RUNNING = False"
| "step_run_terminal _ = True"

fun step_run_rank :: "workflow_step_run_status \<Rightarrow> nat" where
  "step_run_rank SR_PENDING = 0"
| "step_run_rank SR_RUNNING = 1"
| "step_run_rank _ = 2"

interpretation workflow_run_lifecycle: ranked_lifecycle workflow_run_transitions
    validate_workflow_run_transition "\<lambda>s t. Workflow (InvalidWorkflowRunTransitionError s t)"
    workflow_run_terminal workflow_run_rank 2
proof
  fix s t :: workflow_run_status
  show "validate_workflow_run_transition s t = (if t \<in> workflow_run_transitions s then Inr ()
      else Inl (Workflow (InvalidWorkflowRunTransitionError s t)))"
    by (simp add: validate_workflow_run_transition_def)
  show "workflow_run_terminal s \<longleftrightarrow> workflow_run_transitions s = {}"
    by (cases s) auto
  show "workflow_run_rank s < workflow_run_rank t" if "t \<in> workflow_run_transitions s"
    using that by (cases s) auto
  show "workflow_run_rank s \<le> 2" by (cases s) auto
qed

interpretation step_run_lifecycle: ranked_lifecycle step_run_transitions
    validate_step_run_transition "\<lambda>s t. Workflow (InvalidStepRunTransitionError s t)"
    step_run_terminal step_run_rank 2
proof
  fix s t :: workflow_step_run_status
  show "validate_step_run_transition s t = (if t \<in> step_run_transitions s then Inr ()
      else Inl (Workflow (InvalidStepRunTransitionError s t)))"
    by (simp add: validate_step_run_transition_def)
  show "step_run_terminal s \<longleftrightarrow> step_run_transitions s = {}"
    by (cases s) auto
  show "step_run_rank s < step_run_rank t" if "t \<in> step_run_transitions s"
    using that by (cases s) auto
  show "step_run_rank s \<le> 2" by (cases s) auto
qed

text \<open>Deciding a validated transition between two concrete statuses.\<close>

lemmas validate_defs = validate_job_transition_def validate_transition_def
  validate_workflow_run_transition_def validate_step_run_transition_def

end
