(* ===== verification/JobQueue.thy ===== *)
theory JobQueue
  imports Lifecycle
begin

text \<open>
  \<open>app/jobs/queue.py\<close>: claiming, lease renewal, completion, failure, retry, cancellation and
  stale-lease recovery of durable jobs. An operation on a loaded job object is a function of the
  object and of the clock reading it takes; \<open>claim_next_job\<close> and \<open>recover_stale_jobs\<close> are
  functions of the jobs table. \<open>locked\<close> says which rows other transactions hold a row lock on
  when the query runs (\<open>FOR UPDATE SKIP LOCKED\<close> skips them).
\<close>

section \<open>Operations\<close>

definition compute_backoff :: "int \<Rightarrow> duration \<Rightarrow> duration" where
  "compute_backoff attempt_count base = base * 2 ^ nat (max (attempt_count - 1) 0)"

definition eligible :: "(uuid \<Rightarrow> bool) \<Rightarrow> time \<Rightarrow> job \<Rightarrow> bool" where
  "eligible locked now j \<longleftrightarrow>
     j_status j \<in> {JS_QUEUED, JS_RETRYING}
     \<and> (case j_next_attempt_at j of None \<Rightarrow> True | Some t \<Rightarrow> t \<le> now)
     \<and> \<not> locked (j_id j)"

definition claimed :: "time \<Rightarrow> string \<Rightarrow> duration \<Rightarrow> job \<Rightarrow> job" where
  "claimed now worker_id lease j =
     j\<lparr>j_status := JS_RUNNING,
       j_attempt_count := j_attempt_count j + 1,
       j_worker_id := Some worker_id,
       j_lease_expires_at := Some (now + lease),
       j_heartbeat_at := Some now,
       j_started_at := (case j_started_at j of None \<Rightarrow> Some now | Some t \<Rightarrow> Some t)\<rparr>"

definition claim_next_job ::
  "(uuid \<Rightarrow> bool) \<Rightarrow> time \<Rightarrow> string \<Rightarrow> duration \<Rightarrow> job list \<Rightarrow> exn + job option \<times> job list" where
  "claim_next_job locked now worker_id lease t =
     (case first_row (order_by j_created_at (filter (eligible locked now) t)) of
        None \<Rightarrow> Inr (None, t)
      | Some j \<Rightarrow>
          (case validate_job_transition (j_status j) JS_RUNNING of
             Inl e \<Rightarrow> Inl e
           | Inr _ \<Rightarrow> (let j' = claimed now worker_id lease j
                       in Inr (Some j', row_put j_id j' t))))"

definition renew_lease :: "time \<Rightarrow> duration \<Rightarrow> job \<Rightarrow> job" where
  "renew_lease now lease j = j\<lparr>j_heartbeat_at := Some now, j_lease_expires_at := Some (now + lease)\<rparr>"

definition mark_completed :: "time \<Rightarrow> job \<Rightarrow> exn + job" where
  "mark_completed now j =
     (case validate_job_transition (j_status j) JS_COMPLETED of
        Inl e \<Rightarrow> Inl e
      | Inr _ \<Rightarrow> Inr (j\<lparr>j_status := JS_COMPLETED, j_lease_expires_at := None,
                      j_completed_at := Some now\<rparr>))"

definition mark_failed :: "time \<Rightarrow> string \<Rightarrow> string \<Rightarrow> job \<Rightarrow> exn + job" where
  "mark_failed now code message j =
     (case validate_job_transition (j_status j) JS_FAILED of
        Inl e \<Rightarrow> Inl e
      | Inr _ \<Rightarrow> Inr (j\<lparr>j_status := JS_FAILED, j_error_code := Some code,
                      j_error_message := Some message, j_completed_at := Some now,
                      j_lease_expires_at := None\<rparr>))"

definition mark_retrying :: "time \<Rightarrow> string \<Rightarrow> string \<Rightarrow> duration \<Rightarrow> job \<Rightarrow> exn + job" where
  "mark_retrying now code message backoff j =
     (case validate_job_transition (j_status j) JS_RETRYING of
        Inl e \<Rightarrow> Inl e
      | Inr _ \<Rightarrow> Inr (j\<lparr>j_status := JS_RETRYING, j_error_code := Some code,
                      j_error_message := Some message, j_next_attempt_at := Some (now + backoff),
                      j_lease_expires_at := None, j_worker_id := None\<rparr>))"

definition mark_failed_or_retry ::
  "time \<Rightarrow> string \<Rightarrow> string \<Rightarrow> duration \<Rightarrow> job \<Rightarrow> exn + job_status \<times> job" where
  "mark_failed_or_retry now code message base j =
     (if j_attempt_count j < j_max_attempts j
      then (case mark_retrying now code message (compute_backoff (j_attempt_count j) base) j of
              Inl e \<Rightarrow> Inl e
            | Inr j' \<Rightarrow> Inr (JS_RETRYING, j'))
      else (case mark_failed now code message j of
              Inl e \<Rightarrow> Inl e
            | Inr j' \<Rightarrow> Inr (JS_FAILED, j')))"

definition mark_cancelled :: "time \<Rightarrow> job \<Rightarrow> exn + job" where
  "mark_cancelled now j =
     (case validate_job_transition (j_status j) JS_CANCELLED of
        Inl e \<Rightarrow> Inl e
      | Inr _ \<Rightarrow> Inr (j\<lparr>j_status := JS_CANCELLED, j_completed_at := Some now,
                      j_cancel_requested_at := (case j_cancel_requested_at j of
                          None \<Rightarrow> Some now | Some t \<Rightarrow> Some t)\<rparr>))"

definition cancel_queued_job :: "time \<Rightarrow> job \<Rightarrow> exn + job" where
  "cancel_queued_job now j =
     (if j_status j \<notin> {JS_QUEUED, JS_RETRYING}
      then Inl (JobExn (InvalidJobTransitionError (j_status j) JS_CANCELLED))
      else (case validate_job_transition (j_status j) JS_CANCELLED of
              Inl e \<Rightarrow> Inl e
            | Inr _ \<Rightarrow> Inr (j\<lparr>j_status := JS_CANCELLED, j_completed_at := Some now\<rparr>)))"

definition stale :: "(uuid \<Rightarrow> bool) \<Rightarrow> time \<Rightarrow> job \<Rightarrow> bool" where
  "stale locked now j \<longleftrightarrow>
     j_status j = JS_RUNNING
     \<and> (case j_lease_expires_at j of None \<Rightarrow> False | Some t \<Rightarrow> t < now)
     \<and> \<not> locked (j_id j)"

definition lease_expired_retry :: string where
  "lease_expired_retry =
     ''Worker heartbeat lease expired before the job finished - reclaimed for retry.''"

definition lease_expired_final :: string where
  "lease_expired_final =
     ''Worker heartbeat lease expired and max_attempts was already exhausted.''"

definition reclaimed :: "time \<Rightarrow> duration \<Rightarrow> job \<Rightarrow> job" where
  "reclaimed now base j0 =
     (let j = j0\<lparr>j_worker_id := None, j_lease_expires_at := None, j_heartbeat_at := None\<rparr>
      in if j_attempt_count j < j_max_attempts j
         then j\<lparr>j_status := JS_RETRYING,
                j_next_attempt_at := Some (now + compute_backoff (j_attempt_count j) base),
                j_error_code := Some ''WorkerLeaseExpired'',
                j_error_message := Some lease_expired_retry\<rparr>
         else j\<lparr>j_status := JS_FAILED, j_completed_at := Some now,
                j_error_code := Some ''WorkerLeaseExpired'',
                j_error_message := Some lease_expired_final\<rparr>)"

definition recover_stale_jobs ::
  "(uuid \<Rightarrow> bool) \<Rightarrow> time \<Rightarrow> duration \<Rightarrow> job list \<Rightarrow> nat \<times> job list" where
  "recover_stale_jobs locked now base t =
     (length (filter (stale locked now) t), update_where (stale locked now) (reclaimed now base) t)"

lemmas queue_defs = mark_completed_def mark_failed_def mark_retrying_def mark_cancelled_def
  cancel_queued_job_def validate_job_transition_def


section \<open>Functional behaviour\<close>

lemma claimed_fields [simp]:
  "j_id (claimed now wk l j) = j_id j" "j_status (claimed now wk l j) = JS_RUNNING"
  "j_worker_id (claimed now wk l j) = Some wk" "j_lease_expires_at (claimed now wk l j) = Some (now + l)"
  "j_attempt_count (claimed now wk l j) = j_attempt_count j + 1"
  "j_max_attempts (claimed now wk l j) = j_max_attempts j"
  "j_created_at (claimed now wk l j) = j_created_at j"
  "j_next_attempt_at (claimed now wk l j) = j_next_attempt_at j"
  "j_type (claimed now wk l j) = j_type j" "j_target (claimed now wk l j) = j_target j"
  by (simp_all add: claimed_def)

lemma reclaimed_fields [simp]:
  "j_id (reclaimed now b j) = j_id j" "j_worker_id (reclaimed now b j) = None"
  "j_attempt_count (reclaimed now b j) = j_attempt_count j"
  "j_max_attempts (reclaimed now b j) = j_max_attempts j"
  "j_status (reclaimed now b j)
     = (if j_attempt_count j < j_max_attempts j then JS_RETRYING else JS_FAILED)"
  by (simp_all add: reclaimed_def Let_def)

lemma renew_lease_fields [simp]:
  "j_id (renew_lease now l j) = j_id j" "j_status (renew_lease now l j) = j_status j"
  "j_worker_id (renew_lease now l j) = j_worker_id j"
  "j_lease_expires_at (renew_lease now l j) = Some (now + l)"
  "j_attempt_count (renew_lease now l j) = j_attempt_count j"
  "j_max_attempts (renew_lease now l j) = j_max_attempts j"
  by (simp_all add: renew_lease_def)

text \<open>What a claim returns: the query's first row, now RUNNING, or nothing when no row is eligible.\<close>

lemma claim_next_job_cases:
  "claim_next_job locked now wk l t =
     (case first_row (order_by j_created_at (filter (eligible locked now) t)) of
        None \<Rightarrow> Inr (None, t)
      | Some j \<Rightarrow> Inr (Some (claimed now wk l j), row_put j_id (claimed now wk l j) t))"
proof (cases "first_row (order_by j_created_at (filter (eligible locked now) t))")
  case (Some j)
  then have "j_status j \<in> {JS_QUEUED, JS_RETRYING}"
    using first_row_SomeD [OF Some] by (simp add: eligible_def)
  with Some show ?thesis
    by (auto simp: claim_next_job_def validate_job_transition_def Let_def)
qed (simp add: claim_next_job_def)

lemma claim_next_job_SomeD:
  assumes "claim_next_job locked now wk l t = Inr (Some j', t')"
  obtains j where "j \<in> set t" "eligible locked now j" "j' = claimed now wk l j"
    "t' = row_put j_id j' t"
    "\<And>k. k \<in> set t \<Longrightarrow> eligible locked now k \<Longrightarrow> j_created_at j \<le> j_created_at k"
proof -
  from assms obtain j where j: "first_row (order_by j_created_at (filter (eligible locked now) t)) = Some j"
    and eqs: "j' = claimed now wk l j" "t' = row_put j_id j' t"
    by (auto simp: claim_next_job_cases split: option.splits)
  have "j \<in> set t \<and> eligible locked now j" using first_row_SomeD [OF j] by simp
  moreover have "j_created_at j \<le> j_created_at k" if "k \<in> set t" "eligible locked now k" for k
    using first_row_order_by_least [OF j, of k] that by simp
  ultimately show thesis using that eqs by blast
qed

lemma claim_next_job_None:
  "claim_next_job locked now wk l t = Inr (None, t') \<longleftrightarrow>
     t' = t \<and> (\<forall>j\<in>set t. \<not> eligible locked now j)"
proof (cases "first_row (order_by j_created_at (filter (eligible locked now) t))")
  case None
  then show ?thesis by (auto simp: claim_next_job_cases filter_empty_conv)
next
  case (Some j)
  then have "j \<in> set t \<and> eligible locked now j" using first_row_SomeD [OF Some] by simp
  with Some show ?thesis by (auto simp: claim_next_job_cases)
qed

lemma recover_stale_jobs_row:
  "row_get j_id k (snd (recover_stale_jobs locked now b t))
     = map_option (\<lambda>j. if stale locked now j then reclaimed now b j else j) (row_get j_id k t)"
  by (simp add: recover_stale_jobs_def row_get_update_where)

end
