(* ===== verification/QueueSystem.thy ===== *)
theory QueueSystem
  imports JobQueue
begin

text \<open>
  Workers, the API and the passage of time acting on one jobs table, as a step relation. Each
  worker session holds at most one job object, loaded when it claimed the row
  (\<open>process_one_job\<close>, \<open>app/worker/runner.py\<close>); its final operation is computed on that object
  and flushed to the row. How a flush combines the object loaded, the object changed and the row
  now in the database is the ORM's business: it is the parameter \<open>flush\<close>, with the documented
  behaviour of a unit of work as the locale \<open>unit_of_work\<close>: a column whose value was changed is
  written, a column left alone is not.

  \<open>timely\<close> runs are those in which no recovery pass finds an expired lease on a job some session
  still holds, which is what the heartbeat of \<open>_heartbeat_while_running\<close> is there to ensure.
\<close>

section \<open>Flushing a changed row\<close>

locale unit_of_work =
  fixes flush :: "job \<Rightarrow> job \<Rightarrow> job \<Rightarrow> job"
  assumes flush_id: "j_id (flush old new row) = j_id row"
    and flush_status: "j_status (flush old new row)
      = (if j_status new \<noteq> j_status old then j_status new else j_status row)"
    and flush_worker: "j_worker_id (flush old new row)
      = (if j_worker_id new \<noteq> j_worker_id old then j_worker_id new else j_worker_id row)"
    and flush_attempts: "j_attempt_count (flush old new row)
      = (if j_attempt_count new \<noteq> j_attempt_count old then j_attempt_count new
         else j_attempt_count row)"
    and flush_max: "j_max_attempts (flush old new row)
      = (if j_max_attempts new \<noteq> j_max_attempts old then j_max_attempts new
         else j_max_attempts row)"
begin

lemmas flush_laws = flush_id flush_status flush_worker flush_attempts flush_max

lemma flush_new_status: "j_status new \<noteq> j_status old \<Longrightarrow> j_status (flush old new row) = j_status new"
  by (simp add: flush_status)

end

text \<open>The flush that writes exactly the changed columns.\<close>

definition changed :: "('r \<Rightarrow> 'c) \<Rightarrow> 'r \<Rightarrow> 'r \<Rightarrow> 'r \<Rightarrow> 'c" where
  "changed f old new row = (if f new \<noteq> f old then f new else f row)"

definition flush_changed :: "job \<Rightarrow> job \<Rightarrow> job \<Rightarrow> job" where
  "flush_changed old new row =
     row\<lparr>j_status := changed j_status old new row,
         j_error_code := changed j_error_code old new row,
         j_error_message := changed j_error_message old new row,
         j_attempt_count := changed j_attempt_count old new row,
         j_max_attempts := changed j_max_attempts old new row,
         j_next_attempt_at := changed j_next_attempt_at old new row,
         j_lease_expires_at := changed j_lease_expires_at old new row,
         j_heartbeat_at := changed j_heartbeat_at old new row,
         j_worker_id := changed j_worker_id old new row,
         j_cancel_requested_at := changed j_cancel_requested_at old new row,
         j_started_at := changed j_started_at old new row,
         j_completed_at := changed j_completed_at old new row\<rparr>"

interpretation changed_columns: unit_of_work flush_changed
  by unfold_locales (simp_all add: flush_changed_def changed_def)


section \<open>The step relation\<close>

record qsys =
  q_jobs :: "job list"
  q_now :: time
  q_held :: "string \<Rightarrow> job option"

definition fresh_job :: "job \<Rightarrow> bool" where
  "fresh_job j \<longleftrightarrow> j_status j = JS_QUEUED \<and> j_attempt_count j = 0 \<and> 0 < j_max_attempts j
     \<and> j_worker_id j = None \<and> j_lease_expires_at j = None"

text \<open>The operations a worker session may end its job with (\<open>app/worker/dispatch.py\<close>).\<close>

inductive worker_outcome :: "time \<Rightarrow> duration \<Rightarrow> job \<Rightarrow> job \<Rightarrow> bool" for now base where
  completed: "mark_completed now j = Inr j' \<Longrightarrow> worker_outcome now base j j'"
| failed: "mark_failed now c m j = Inr j' \<Longrightarrow> worker_outcome now base j j'"
| retried: "mark_failed_or_retry now c m base j = Inr (st, j') \<Longrightarrow> worker_outcome now base j j'"
| cancelled: "mark_cancelled now j = Inr j' \<Longrightarrow> worker_outcome now base j j'"

inductive queue_step ::
  "(job \<Rightarrow> job \<Rightarrow> job \<Rightarrow> job) \<Rightarrow> bool \<Rightarrow> duration \<Rightarrow> duration \<Rightarrow> qsys \<Rightarrow> qsys \<Rightarrow> bool"
  for flush timely lease base where
  time_passes: "q_now s \<le> now' \<Longrightarrow> queue_step flush timely lease base s (s\<lparr>q_now := now'\<rparr>)"
| enqueue: "fresh_job j \<Longrightarrow> j_id j \<notin> j_id ` set (q_jobs s) \<Longrightarrow>
    queue_step flush timely lease base s (s\<lparr>q_jobs := q_jobs s @ [j]\<rparr>)"
| claim: "q_held s wk = None \<Longrightarrow>
    claim_next_job locked (q_now s) wk lease (q_jobs s) = Inr (Some j, t') \<Longrightarrow>
    queue_step flush timely lease base s (s\<lparr>q_jobs := t', q_held := (q_held s)(wk \<mapsto> j)\<rparr>)"
| heartbeat: "q_held s wk = Some j \<Longrightarrow> row_get j_id (j_id j) (q_jobs s) = Some r \<Longrightarrow>
    j_status r = JS_RUNNING \<Longrightarrow>
    queue_step flush timely lease base s
      (s\<lparr>q_jobs := row_put j_id (renew_lease (q_now s) lease r) (q_jobs s)\<rparr>)"
| finish: "q_held s wk = Some j \<Longrightarrow> row_get j_id (j_id j) (q_jobs s) = Some r \<Longrightarrow>
    worker_outcome (q_now s) base j j' \<Longrightarrow>
    queue_step flush timely lease base s
      (s\<lparr>q_jobs := row_put j_id (flush j j' r) (q_jobs s), q_held := (q_held s)(wk := None)\<rparr>)"
| crash: "queue_step flush timely lease base s (s\<lparr>q_held := (q_held s)(wk := None)\<rparr>)"
| cancel_queued: "row_get j_id k (q_jobs s) = Some r \<Longrightarrow>
    cancel_queued_job (q_now s) r = Inr r' \<Longrightarrow>
    queue_step flush timely lease base s (s\<lparr>q_jobs := row_put j_id r' (q_jobs s)\<rparr>)"
| request_cancel: "row_get j_id k (q_jobs s) = Some r \<Longrightarrow> j_status r = JS_RUNNING \<Longrightarrow>
    j_cancel_requested_at r = None \<Longrightarrow>
    queue_step flush timely lease base s
      (s\<lparr>q_jobs := row_put j_id (r\<lparr>j_cancel_requested_at := Some (q_now s)\<rparr>) (q_jobs s)\<rparr>)"
| recover: "(timely \<longrightarrow> (\<forall>wk j r. q_held s wk = Some j \<longrightarrow>
      row_get j_id (j_id j) (q_jobs s) = Some r \<longrightarrow> \<not> stale locked (q_now s) r)) \<Longrightarrow>
    queue_step flush timely lease base s
      (s\<lparr>q_jobs := snd (recover_stale_jobs locked (q_now s) base (q_jobs s))\<rparr>)"

inductive queue_reachable ::
  "(job \<Rightarrow> job \<Rightarrow> job \<Rightarrow> job) \<Rightarrow> bool \<Rightarrow> duration \<Rightarrow> duration \<Rightarrow> qsys \<Rightarrow> bool"
  for flush timely lease base where
  start: "queue_reachable flush timely lease base \<lparr>q_jobs = [], q_now = t0, q_held = Map.empty\<rparr>"
| step: "queue_reachable flush timely lease base s \<Longrightarrow> queue_step flush timely lease base s t \<Longrightarrow>
    queue_reachable flush timely lease base t"

inductive_cases queue_stepE: "queue_step flush timely lease base s t"


section \<open>What one step does to a row\<close>

lemma worker_outcome_status:
  assumes "worker_outcome now base j j'" and "j_status j = JS_RUNNING"
  shows "j_status j' \<noteq> JS_RUNNING \<and> j_id j' = j_id j \<and> j_attempt_count j' = j_attempt_count j
    \<and> j_max_attempts j' = j_max_attempts j
    \<and> (j_status j' = JS_RETRYING \<longrightarrow> j_attempt_count j < j_max_attempts j)
    \<and> j_status j' \<noteq> JS_QUEUED"
  using assms
  by (induction rule: worker_outcome.induct)
     (auto simp: queue_defs mark_failed_or_retry_def split: if_splits sum.splits)

lemma cancel_queued_job_fields:
  "cancel_queued_job now r = Inr r' \<Longrightarrow>
     j_status r \<in> {JS_QUEUED, JS_RETRYING} \<and> j_status r' = JS_CANCELLED \<and> j_id r' = j_id r
     \<and> j_attempt_count r' = j_attempt_count r \<and> j_max_attempts r' = j_max_attempts r
     \<and> j_worker_id r' = j_worker_id r"
  by (auto simp: queue_defs split: if_splits)


section \<open>Invariants of timely runs\<close>

text \<open>
  Every held job is a row in status RUNNING, owned by its holder, with the attempt counters the
  holder loaded; attempts never exceed their maximum, and a waiting job has an attempt left.
\<close>

definition owner_inv :: "qsys \<Rightarrow> bool" where
  "owner_inv s \<longleftrightarrow> (\<forall>wk j. q_held s wk = Some j \<longrightarrow> j_status j = JS_RUNNING \<and>
     (\<exists>r. row_get j_id (j_id j) (q_jobs s) = Some r \<and> j_status r = JS_RUNNING
        \<and> j_worker_id r = Some wk \<and> j_attempt_count r = j_attempt_count j
        \<and> j_max_attempts r = j_max_attempts j))"

definition attempts_ok :: "job \<Rightarrow> bool" where
  "attempts_ok r \<longleftrightarrow> 0 \<le> j_attempt_count r \<and> j_attempt_count r \<le> j_max_attempts r
     \<and> (j_status r \<in> {JS_QUEUED, JS_RETRYING} \<longrightarrow> j_attempt_count r < j_max_attempts r)"

definition queue_inv :: "qsys \<Rightarrow> bool" where
  "queue_inv s \<longleftrightarrow> distinct (map j_id (q_jobs s)) \<and> owner_inv s \<and> (\<forall>r\<in>set (q_jobs s). attempts_ok r)"

lemma owner_invD:
  assumes "owner_inv s" and "q_held s wk = Some j"
  obtains r where "row_get j_id (j_id j) (q_jobs s) = Some r" "j_status r = JS_RUNNING"
    "j_worker_id r = Some wk" "j_attempt_count r = j_attempt_count j"
    "j_max_attempts r = j_max_attempts j" "j_status j = JS_RUNNING"
  using assms unfolding owner_inv_def by blast

text \<open>Writing a row no session holds, or one that stays RUNNING under its owner, keeps ownership.\<close>

lemma owner_inv_put:
  assumes "owner_inv s"
    and "\<And>wk j. q_held s wk = Some j \<Longrightarrow> j_id j = j_id r' \<Longrightarrow>
      j_status r' = JS_RUNNING \<and> j_worker_id r' = Some wk
      \<and> j_attempt_count r' = j_attempt_count j \<and> j_max_attempts r' = j_max_attempts j"
  shows "owner_inv (s\<lparr>q_jobs := row_put j_id r' (q_jobs s)\<rparr>)"
  using assms unfolding owner_inv_def by (auto simp: row_get_put)

lemma owner_inv_release:
  assumes "owner_inv s"
  shows "owner_inv (s\<lparr>q_held := (q_held s)(wk := None)\<rparr>)"
  using assms unfolding owner_inv_def by simp

lemma not_held:
  assumes "owner_inv s" "row_get j_id k (q_jobs s) = Some r" "j_status r \<noteq> JS_RUNNING"
    "q_held s wk = Some j"
  shows "j_id j \<noteq> k"
  using assms by (auto elim: owner_invD)

lemma attempts_put:
  "\<forall>r\<in>set t. attempts_ok r \<Longrightarrow> attempts_ok r' \<Longrightarrow> \<forall>r\<in>set (row_put j_id r' t). attempts_ok r"
  using set_row_put [of j_id r' t] by blast

lemma row_attempts: "\<forall>r\<in>set t. attempts_ok r \<Longrightarrow> row_get j_id k t = Some r \<Longrightarrow> attempts_ok r"
  using row_get_SomeD by fast

lemma queue_inv_put:
  assumes "queue_inv s" and "owner_inv (s\<lparr>q_jobs := row_put j_id r (q_jobs s)\<rparr>)" and "attempts_ok r"
  shows "queue_inv (s\<lparr>q_jobs := row_put j_id r (q_jobs s)\<rparr>)"
  using assms attempts_put [of "q_jobs s" r] unfolding queue_inv_def
  by (simp add: distinct_row_put)

lemma claim_keeps_inv:
  assumes "queue_inv s" "q_held s wk = None"
    "claim_next_job locked (q_now s) wk lease (q_jobs s) = Inr (Some j', t')"
  shows "queue_inv (s\<lparr>q_jobs := t', q_held := (q_held s)(wk \<mapsto> j')\<rparr>)"
proof -
  obtain j where j: "j \<in> set (q_jobs s)" "eligible locked (q_now s) j"
    and j': "j' = claimed (q_now s) wk lease j" "t' = row_put j_id j' (q_jobs s)"
    using claim_next_job_SomeD [OF assms(3)] by metis
  have inv: "distinct (map j_id (q_jobs s))" "owner_inv s" "\<forall>r\<in>set (q_jobs s). attempts_ok r"
    using assms(1) by (simp_all add: queue_inv_def)
  have row: "row_get j_id (j_id j) (q_jobs s) = Some j"
    using row_get_mem [OF inv(1) j(1)] .
  have waiting: "j_status j \<in> {JS_QUEUED, JS_RETRYING}" using j(2) by (simp add: eligible_def)
  have unheld: "q_held s v = Some h \<Longrightarrow> j_id h \<noteq> j_id j" for v h
    using not_held [OF inv(2) row] waiting by auto
  have "owner_inv (s\<lparr>q_jobs := t', q_held := (q_held s)(wk \<mapsto> j')\<rparr>)"
    unfolding owner_inv_def using inv(2) unheld
    by (auto simp: j' row_get_put dest: unheld elim: owner_invD)
  moreover have "attempts_ok j'"
    using inv(3) j(1) waiting by (auto simp: attempts_ok_def j'(1))
  ultimately show ?thesis
    using inv attempts_put [OF inv(3)] by (simp add: queue_inv_def j'(2) distinct_row_put)
qed

lemma recover_keeps_inv:
  assumes "queue_inv s"
    and timely: "\<And>wk j r. q_held s wk = Some j \<Longrightarrow> row_get j_id (j_id j) (q_jobs s) = Some r \<Longrightarrow>
      \<not> stale locked (q_now s) r"
  shows "queue_inv (s\<lparr>q_jobs := snd (recover_stale_jobs locked (q_now s) base (q_jobs s))\<rparr>)"
proof -
  have inv: "distinct (map j_id (q_jobs s))" "owner_inv s" "\<forall>r\<in>set (q_jobs s). attempts_ok r"
    using assms(1) by (simp_all add: queue_inv_def)
  have "owner_inv (s\<lparr>q_jobs := snd (recover_stale_jobs locked (q_now s) base (q_jobs s))\<rparr>)"
    unfolding owner_inv_def
  proof (intro allI impI)
    fix wk j assume held: "q_held (s\<lparr>q_jobs := snd (recover_stale_jobs locked (q_now s) base
        (q_jobs s))\<rparr>) wk = Some j"
    then obtain r where r: "row_get j_id (j_id j) (q_jobs s) = Some r" "j_status r = JS_RUNNING"
        "j_worker_id r = Some wk" "j_attempt_count r = j_attempt_count j"
        "j_max_attempts r = j_max_attempts j" "j_status j = JS_RUNNING"
      using owner_invD [OF inv(2)] by auto
    moreover have "\<not> stale locked (q_now s) r" using timely held r(1) by simp
    ultimately show "j_status j = JS_RUNNING \<and> (\<exists>r. row_get j_id (j_id j)
        (q_jobs (s\<lparr>q_jobs := snd (recover_stale_jobs locked (q_now s) base (q_jobs s))\<rparr>)) = Some r
      \<and> j_status r = JS_RUNNING \<and> j_worker_id r = Some wk
      \<and> j_attempt_count r = j_attempt_count j \<and> j_max_attempts r = j_max_attempts j)"
      by (simp add: recover_stale_jobs_row)
  qed
  moreover have "attempts_ok (reclaimed now b r)" if "r \<in> set (q_jobs s)" for r now b
    using inv(3) that by (auto simp: attempts_ok_def)
  ultimately show ?thesis
    using inv by (auto simp: queue_inv_def recover_stale_jobs_def set_update_where map_key_update_where)
qed

context unit_of_work begin

lemma finish_keeps_inv:
  assumes "queue_inv s" "q_held s wk = Some j" "row_get j_id (j_id j) (q_jobs s) = Some r"
    "worker_outcome (q_now s) base j j'"
  shows "queue_inv (s\<lparr>q_jobs := row_put j_id (flush j j' r) (q_jobs s),
                      q_held := (q_held s)(wk := None)\<rparr>)"
proof -
  have inv: "distinct (map j_id (q_jobs s))" "owner_inv s" "\<forall>r\<in>set (q_jobs s). attempts_ok r"
    using assms(1) by (simp_all add: queue_inv_def)
  obtain own: "j_worker_id r = Some wk" "j_status j = JS_RUNNING" "j_status r = JS_RUNNING"
      "j_attempt_count r = j_attempt_count j" "j_max_attempts r = j_max_attempts j"
    using owner_invD [OF inv(2) assms(2)] assms(3) by (metis option.inject)
  note out = worker_outcome_status [OF assms(4) own(2)]
  have rid: "j_id r = j_id j" using row_get_SomeD [OF assms(3)] by simp
  let ?s = "s\<lparr>q_held := (q_held s)(wk := None)\<rparr>"
  have others: "j_id h \<noteq> j_id r" if "q_held ?s v = Some h" for v h
  proof
    assume "j_id h = j_id r"
    moreover have "q_held s v = Some h" "v \<noteq> wk" using that by (auto split: if_splits)
    ultimately have "j_worker_id r = Some v"
      using assms(3) rid by (auto elim!: owner_invD [OF inv(2)])
    with own(1) \<open>v \<noteq> wk\<close> show False by simp
  qed
  have "owner_inv (?s\<lparr>q_jobs := row_put j_id (flush j j' r) (q_jobs ?s)\<rparr>)"
    using owner_inv_release [OF inv(2), of wk] others
    by (intro owner_inv_put) (auto simp: flush_id)
  moreover have "attempts_ok (flush j j' r)"
    using row_attempts [OF inv(3) assms(3)] out own
    by (auto simp: attempts_ok_def flush_laws)
  ultimately show ?thesis
    using inv attempts_put [OF inv(3)] by (simp add: queue_inv_def owner_inv_def distinct_row_put)
qed

lemma timely_step_keeps_inv:
  assumes "queue_step flush True lease base s t" and "queue_inv s"
  shows "queue_inv t"
  using assms(1)
proof (cases rule: queue_step.cases)
  case time_passes
  then show ?thesis using assms(2) by (simp add: queue_inv_def owner_inv_def)
next
  case (enqueue j)
  have new: "row_put j_id j (q_jobs s) = q_jobs s @ [j]" using enqueue(3) by (rule row_put_fresh)
  have "j_id h \<noteq> j_id j" if held: "q_held s v = Some h" for v h
  proof -
    obtain r where "row_get j_id (j_id h) (q_jobs s) = Some r"
      using assms(2) held unfolding queue_inv_def owner_inv_def by blast
    then have "j_id h \<in> j_id ` set (q_jobs s)"
      by (metis option.distinct(1) row_get_None_iff)
    then show ?thesis using enqueue(3) by metis
  qed
  then have "owner_inv (s\<lparr>q_jobs := q_jobs s @ [j]\<rparr>)"
    using assms(2) owner_inv_put [of s j] unfolding queue_inv_def new by blast
  then show ?thesis
    using assms(2) enqueue by (auto simp: queue_inv_def attempts_ok_def fresh_job_def)
next
  case (claim wk locked j t')
  then show ?thesis using claim_keeps_inv [OF assms(2)] by simp
next
  case (heartbeat wk j r)
  have r: "j_worker_id r = Some wk" "j_attempt_count r = j_attempt_count j"
      "j_max_attempts r = j_max_attempts j" "j_id r = j_id j"
    using assms(2) heartbeat(2,3) row_get_SomeD [OF heartbeat(3)] unfolding queue_inv_def
    by (auto elim!: owner_invD)
  have "owner_inv t" unfolding heartbeat(1)
  proof (rule owner_inv_put)
    show "owner_inv s" using assms(2) by (simp add: queue_inv_def)
    fix v h assume "q_held s v = Some h" "j_id h = j_id (renew_lease (q_now s) lease r)"
    then show "j_status (renew_lease (q_now s) lease r) = JS_RUNNING
      \<and> j_worker_id (renew_lease (q_now s) lease r) = Some v
      \<and> j_attempt_count (renew_lease (q_now s) lease r) = j_attempt_count h
      \<and> j_max_attempts (renew_lease (q_now s) lease r) = j_max_attempts h"
      using assms(2) heartbeat(3,4) r unfolding queue_inv_def by (auto elim!: owner_invD)
  qed
  moreover have "attempts_ok (renew_lease (q_now s) lease r)"
    using assms(2) row_attempts [of "q_jobs s" "j_id j" r] heartbeat(3)
    by (auto simp: queue_inv_def attempts_ok_def)
  ultimately show ?thesis using queue_inv_put [OF assms(2)] heartbeat(1) by blast
next
  case (finish wk j r j')
  then show ?thesis using finish_keeps_inv [OF assms(2)] by simp
next
  case (crash wk)
  then show ?thesis using assms(2) owner_inv_release by (simp add: queue_inv_def)
next
  case (cancel_queued k r r')
  note f = cancel_queued_job_fields [OF cancel_queued(3)]
  have k: "j_id r = k" using row_get_SomeD [OF cancel_queued(2)] by simp
  have "owner_inv t" unfolding cancel_queued(1)
  proof (rule owner_inv_put)
    show "owner_inv s" using assms(2) by (simp add: queue_inv_def)
    then show "j_status r' = JS_RUNNING \<and> j_worker_id r' = Some v
        \<and> j_attempt_count r' = j_attempt_count h \<and> j_max_attempts r' = j_max_attempts h"
      if "q_held s v = Some h" "j_id h = j_id r'" for v h
      using not_held [of s k r v h] cancel_queued(2) f k that by auto
  qed
  moreover have "attempts_ok r'"
    using assms(2) row_attempts [OF _ cancel_queued(2)] f by (auto simp: queue_inv_def attempts_ok_def)
  ultimately show ?thesis using queue_inv_put [OF assms(2)] cancel_queued(1) by blast
next
  case (request_cancel k r)
  let ?r = "r\<lparr>j_cancel_requested_at := Some (q_now s)\<rparr>"
  have k: "j_id r = k" using row_get_SomeD [OF request_cancel(2)] by simp
  have "owner_inv t" unfolding request_cancel(1)
  proof (rule owner_inv_put)
    show "owner_inv s" using assms(2) by (simp add: queue_inv_def)
    then show "j_status ?r = JS_RUNNING \<and> j_worker_id ?r = Some v
        \<and> j_attempt_count ?r = j_attempt_count h \<and> j_max_attempts ?r = j_max_attempts h"
      if "q_held s v = Some h" "j_id h = j_id ?r" for v h
      using request_cancel(2) k that by (auto elim!: owner_invD)
  qed
  moreover have "attempts_ok ?r"
    using assms(2) row_attempts [OF _ request_cancel(2)] by (auto simp: queue_inv_def attempts_ok_def)
  ultimately show ?thesis using queue_inv_put [OF assms(2)] request_cancel(1) by blast
next
  case (recover locked)
  then show ?thesis using recover_keeps_inv [OF assms(2), of locked] by simp
qed

lemma timely_reachable_inv: "queue_reachable flush True lease base s \<Longrightarrow> queue_inv s"
proof (induction rule: queue_reachable.induct)
  case (start t0)
  show ?case by (simp add: queue_inv_def owner_inv_def)
next
  case (step s t)
  then show ?case using timely_step_keeps_inv by blast
qed

lemma timely_terminal_step:
  assumes "queue_step flush True lease base s t" and "queue_inv s"
    and row: "row_get j_id k (q_jobs s) = Some x" and done_row: "job_terminal (j_status x)"
  shows "row_get j_id k (q_jobs t) = Some x"
proof -
  have keep: "row_get j_id k (row_put j_id r' (q_jobs s)) = Some x"
    if "row_get j_id k' (q_jobs s) = Some r" "j_id r' = k'" "\<not> job_terminal (j_status r)" for k' r r'
    using that row done_row by (cases "k = k'") (auto simp: row_get_put)
  show ?thesis
    using assms(1)
  proof (cases rule: queue_step.cases)
    case (enqueue j)
    then have "j_id j \<noteq> k" using row row_get_None_iff by (metis option.distinct(1))
    moreover have "row_put j_id j (q_jobs s) = q_jobs s @ [j]" using enqueue(3) by (rule row_put_fresh)
    ultimately show ?thesis using row enqueue(1) row_get_put [of j_id k j "q_jobs s"] by simp
  next
    case (claim wk locked j' t')
    obtain j where j: "j \<in> set (q_jobs s)" "eligible locked (q_now s) j"
      and j': "j' = claimed (q_now s) wk lease j" "t' = row_put j_id j' (q_jobs s)"
      using claim_next_job_SomeD [OF claim(3)] by metis
    have "row_get j_id (j_id j) (q_jobs s) = Some j"
      using assms(2) j(1) by (simp add: queue_inv_def row_get_mem)
    moreover have "\<not> job_terminal (j_status j)" using j(2) by (auto simp: eligible_def)
    ultimately show ?thesis using keep [of "j_id j" j j'] j' claim(1) by simp
  next
    case (heartbeat wk j r)
    then show ?thesis
      using keep [of "j_id j" r] row_get_SomeD [OF heartbeat(3)] by simp
  next
    case (finish wk j r j')
    have "j_status r = JS_RUNNING"
      using assms(2) finish(2,3) unfolding queue_inv_def owner_inv_def by fastforce
    then show ?thesis
      using keep [OF finish(3)] row_get_SomeD [OF finish(3)] finish(1) by (simp add: flush_id)
  next
    case (cancel_queued k' r r')
    then show ?thesis
      using keep [OF cancel_queued(2)] row_get_SomeD [OF cancel_queued(2)]
        cancel_queued_job_fields [OF cancel_queued(3)] by auto
  next
    case (request_cancel k' r)
    then show ?thesis
      using keep [OF request_cancel(2)] row_get_SomeD [OF request_cancel(2)] by simp
  next
    case (recover locked)
    have "\<not> stale locked (q_now s) x" using done_row by (auto simp: stale_def)
    then show ?thesis using row recover(1) by (simp add: recover_stale_jobs_row)
  qed (use row in auto)
qed

end


section \<open>A concrete run\<close>

text \<open>One job with a single attempt, enqueued at time 0 and claimed by a worker at once.\<close>

definition demo_job :: job where
  "demo_job = \<lparr>j_id = ''j1'', j_type = ''agent_run_execution'', j_status = JS_QUEUED,
     j_target = Some ''r1'', j_input = [], j_error_code = None, j_error_message = None,
     j_attempt_count = 0, j_max_attempts = 1, j_next_attempt_at = None, j_lease_expires_at = None,
     j_heartbeat_at = None, j_worker_id = None, j_cancel_requested_at = None, j_started_at = None,
     j_completed_at = None, j_created_at = 0\<rparr>"

definition demo_claimed :: job where
  "demo_claimed = claimed 0 ''w1'' 60 demo_job"

definition demo_completed :: job where
  "demo_completed = demo_claimed\<lparr>j_status := JS_COMPLETED, j_lease_expires_at := None,
     j_completed_at := Some 100\<rparr>"

definition demo_running :: "time \<Rightarrow> qsys" where
  "demo_running now = \<lparr>q_jobs = [demo_claimed], q_now = now, q_held = [''w1'' \<mapsto> demo_claimed]\<rparr>"

definition demo_done :: qsys where
  "demo_done = \<lparr>q_jobs = [demo_completed], q_now = 100, q_held = Map.empty\<rparr>"

definition demo_reclaimed :: qsys where
  "demo_reclaimed = \<lparr>q_jobs = [reclaimed 100 5 demo_claimed], q_now = 100,
     q_held = [''w1'' \<mapsto> demo_claimed]\<rparr>"

lemma demo_running_reachable: "queue_reachable flush_changed timely 60 5 (demo_running 100)"
proof -
  let ?s0 = "\<lparr>q_jobs = [], q_now = 0, q_held = Map.empty\<rparr>"
  let ?s1 = "\<lparr>q_jobs = [demo_job], q_now = 0, q_held = Map.empty\<rparr>"
  have "queue_step flush_changed timely 60 5 ?s0 ?s1"
    using queue_step.enqueue [of demo_job ?s0] by (simp add: fresh_job_def demo_job_def)
  then have 1: "queue_reachable flush_changed timely 60 5 ?s1"
    using queue_reachable.start queue_reachable.step by blast
  have "claim_next_job (\<lambda>_. False) 0 ''w1'' 60 [demo_job] = Inr (Some demo_claimed, [demo_claimed])"
    by (simp add: claim_next_job_cases eligible_def demo_claimed_def order_by_def) (simp add: demo_job_def)
  then have "queue_step flush_changed timely 60 5 ?s1 (demo_running 0)"
    using queue_step.claim [of ?s1 "''w1''" "\<lambda>_. False" 60 demo_claimed]
    by (simp add: demo_running_def)
  then have "queue_reachable flush_changed timely 60 5 (demo_running 0)"
    using 1 queue_reachable.step by blast
  moreover have "queue_step flush_changed timely 60 5 (demo_running 0) (demo_running 100)"
    using queue_step.time_passes [of "demo_running 0" 100] by (simp add: demo_running_def)
  ultimately show ?thesis using queue_reachable.step by blast
qed

lemma demo_done_reachable: "queue_reachable flush_changed timely 60 5 demo_done"
proof -
  have "mark_completed 100 demo_claimed = Inr demo_completed"
    by (simp add: queue_defs demo_claimed_def demo_completed_def)
  moreover have "flush_changed demo_claimed demo_completed demo_claimed = demo_completed"
    by (simp add: flush_changed_def changed_def demo_completed_def demo_claimed_def demo_job_def
        claimed_def)
  ultimately have "queue_step flush_changed timely 60 5 (demo_running 100) demo_done"
    using queue_step.finish [of "demo_running 100" "''w1''" demo_claimed demo_claimed 5 demo_completed
        flush_changed timely 60] worker_outcome.completed [of 100 demo_claimed demo_completed 5]
    by (simp add: demo_running_def demo_done_def) (simp add: demo_completed_def)
  then show ?thesis using demo_running_reachable queue_reachable.step by blast
qed


section \<open>Properties\<close>

text \<open>
  C1: In a timely run no two worker sessions ever hold the same job, whatever the interleaving of
  claims, heartbeats, completions, crashes, cancellations and recovery passes.
\<close>

theorem job_held_by_one_worker:
  assumes "unit_of_work flush" and "queue_reachable flush True lease base s"
    and "q_held s w1 = Some j1" and "q_held s w2 = Some j2" and "j_id j1 = j_id j2"
  shows "w1 = w2"
proof -
  have "owner_inv s"
    using unit_of_work.timely_reachable_inv [OF assms(1,2)] by (simp add: queue_inv_def)
  then show ?thesis using assms(3-5) unfolding owner_inv_def by (metis option.inject)
qed

lemma job_held_by_one_worker_witness:
  "q_held (demo_running 100) ''w1'' = Some demo_claimed \<and> ''w1'' = ''w1''"
  using job_held_by_one_worker [OF changed_columns.unit_of_work_axioms demo_running_reachable,
      of "''w1''" demo_claimed "''w1''" demo_claimed]
  by (simp add: demo_running_def)









text \<open>
  Without timeliness the guarantee is lost: a worker whose lease expired, and whose job the
  recovery pass already failed for good, still overwrites the FAILED row with COMPLETED, because
  \<open>mark_completed\<close> checks the status of the object loaded at the claim and not the row's.
\<close>

theorem late_completion_overwrites_failed_job:
  "\<exists>s t r. queue_reachable flush_changed False 60 5 s \<and> queue_step flush_changed False 60 5 s t
     \<and> row_get j_id ''j1'' (q_jobs s) = Some r \<and> j_status r = JS_FAILED
     \<and> map_option j_status (row_get j_id ''j1'' (q_jobs t)) = Some JS_COMPLETED"
proof -
  have job: "j_id demo_claimed = ''j1''" "j_attempt_count demo_claimed = 1"
      "j_max_attempts demo_claimed = 1" "stale (\<lambda>_. False) 100 demo_claimed"
    by (simp_all add: demo_claimed_def stale_def) (simp_all add: demo_job_def)
  have "queue_step flush_changed False 60 5 (demo_running 100) demo_reclaimed"
    using queue_step.recover [of False "demo_running 100" "\<lambda>_. False" flush_changed 60 5] job
    by (simp add: demo_running_def demo_reclaimed_def recover_stale_jobs_def update_where_def)
  then have "queue_reachable flush_changed False 60 5 demo_reclaimed"
    using demo_running_reachable queue_reachable.step by blast
  moreover have "worker_outcome 100 5 demo_claimed demo_completed"
    by (rule worker_outcome.completed) (simp add: queue_defs demo_claimed_def demo_completed_def)
  then have "queue_step flush_changed False 60 5 demo_reclaimed (demo_reclaimed\<lparr>
      q_jobs := [flush_changed demo_claimed demo_completed (reclaimed 100 5 demo_claimed)],
      q_held := Map.empty\<rparr>)"
    using queue_step.finish [of demo_reclaimed "''w1''" demo_claimed "reclaimed 100 5 demo_claimed" 5
        demo_completed flush_changed False 60] job
    by (simp add: demo_reclaimed_def changed_columns.flush_id)
  ultimately show ?thesis
    using job by (intro exI conjI) (auto simp: demo_reclaimed_def flush_changed_def changed_def
        demo_completed_def demo_claimed_def)
qed

end
