(* ===== verification/WorkflowDefs.thy ===== *)
theory WorkflowDefs
  imports Config
begin

text \<open>
  \<open>app/workflows/definition.py\<close> and \<open>app/workflows/input_builder.py\<close>: parsing the steps of a
  workflow definition and building the input of a step from the outputs recorded before it.
\<close>

section \<open>app/workflows/definition.py\<close>

definition MAPPING_SOURCES :: "string set" where
  "MAPPING_SOURCES = {''workflow_input'', ''previous_output'', ''step_output'', ''static''}"

record input_mapping =
  im_source :: string
  im_step_id :: "string option"
  im_value :: "string option"

record workflow_step_spec =
  ws_step_id :: string
  ws_name :: string
  ws_agent_id :: uuid
  ws_order :: int
  ws_mapping :: input_mapping

definition mapping_of :: "string \<Rightarrow> input_mapping" where
  "mapping_of source = \<lparr>im_source = source, im_step_id = None, im_value = None\<rparr>"

definition invalid :: "uuid \<Rightarrow> string \<Rightarrow> exn" where
  "invalid wid detail = Workflow (WorkflowDefinitionInvalidError wid detail)"

definition step_text :: "string \<Rightarrow> string \<Rightarrow> string" where
  "step_text step_id detail = ''step '' @ repr_str step_id @ '': '' @ detail"

definition parse_input_mapping ::
  "uuid \<Rightarrow> string \<Rightarrow> json \<Rightarrow> string set \<Rightarrow> bool \<Rightarrow> exn + input_mapping" where
  "parse_input_mapping wid step_id raw known_earlier is_first =
     (case raw of
        JObj d \<Rightarrow>
          (let source = dict_get d ''source'' in
           if is_list source \<or> is_dict source
           then Inl (PyExc ''TypeError'' (''unhashable type: '' @ repr_str (py_type_name source)))
           else if \<not> (is_str source \<and> str_of source \<in> MAPPING_SOURCES)
           then Inl (invalid wid (step_text step_id (''unsupported input_mapping source '' @ py_repr source)))
           else if str_of source = ''previous_output'' \<and> is_first
           then Inl (invalid wid (step_text step_id ''previous_output mapping requires a preceding step''))
           else if str_of source = ''step_output'' then
             (let ref = dict_get d ''step_id'' in
              if \<not> is_str ref \<or> str_of ref = []
              then Inl (invalid wid (step_text step_id ''step_output mapping requires a step_id''))
              else if str_of ref = step_id
              then Inl (invalid wid (step_text step_id ''cannot reference its own output''))
              else if str_of ref \<notin> known_earlier
              then Inl (invalid wid (step_text step_id (''step_output references ''
                     @ repr_str (str_of ref) @ '', which is not an earlier step'')))
              else Inr \<lparr>im_source = ''step_output'', im_step_id = Some (str_of ref), im_value = None\<rparr>)
           else if str_of source = ''static'' then
             (case dict_get d ''value'' of
                JStr v \<Rightarrow> Inr \<lparr>im_source = ''static'', im_step_id = None, im_value = Some v\<rparr>
              | _ \<Rightarrow> Inl (invalid wid (step_text step_id ''static mapping requires a string value'')))
           else Inr (mapping_of (str_of source)))
      | _ \<Rightarrow> Inl (invalid wid (step_text step_id ''input_mapping must be an object'')))"

text \<open>The first pass: identifiers, order, name and agent of one raw step.\<close>

definition parse_step_head ::
  "uuid \<Rightarrow> string set \<Rightarrow> int set \<Rightarrow> json \<Rightarrow> exn + workflow_step_spec \<times> jdict" where
  "parse_step_head wid seen_ids seen_orders raw =
     (case raw of
        JObj d \<Rightarrow>
          (let step_id = dict_get d ''step_id''; order = dict_get d ''order'';
               name = dict_get d ''name''; agent = dict_get d ''agent_definition_id'' in
           if \<not> is_str step_id \<or> str_of step_id = []
           then Inl (invalid wid ''each step requires a non-empty step_id'')
           else if str_of step_id \<in> seen_ids
           then Inl (invalid wid (''duplicate step_id '' @ repr_str (str_of step_id)))
           else if \<not> is_int order \<or> is_bool order
           then Inl (invalid wid (step_text (str_of step_id) ''order must be an integer''))
           else if int_of order \<in> seen_orders
           then Inl (invalid wid (''duplicate order '' @ show_int (int_of order)))
           else if \<not> is_str name \<or> str_of name = []
           then Inl (invalid wid (step_text (str_of step_id) ''requires a non-empty name''))
           else if \<not> is_str agent
           then Inl (invalid wid (step_text (str_of step_id) ''agent_definition_id must be a string''))
           else (case parse_uuid (str_of agent) of
                   None \<Rightarrow> Inl (invalid wid (step_text (str_of step_id)
                            ''agent_definition_id is not a valid UUID''))
                 | Some u \<Rightarrow> Inr (\<lparr>ws_step_id = str_of step_id, ws_name = str_of name, ws_agent_id = u,
                               ws_order = int_of order, ws_mapping = mapping_of ''workflow_input''\<rparr>, d)))
      | _ \<Rightarrow> Inl (invalid wid ''each step must be an object''))"

fun parse_heads ::
  "uuid \<Rightarrow> string set \<Rightarrow> int set \<Rightarrow> json list \<Rightarrow> exn + (workflow_step_spec \<times> jdict) list" where
  "parse_heads wid ids orders [] = Inr []"
| "parse_heads wid ids orders (raw # raws) =
     (case parse_step_head wid ids orders raw of
        Inl e \<Rightarrow> Inl e
      | Inr (spec, d) \<Rightarrow>
          (case parse_heads wid (insert (ws_step_id spec) ids) (insert (ws_order spec) orders) raws of
             Inl e \<Rightarrow> Inl e | Inr rest \<Rightarrow> Inr ((spec, d) # rest)))"

text \<open>The second pass, in execution order: each step's mapping, given the steps before it.\<close>

fun resolve_mappings ::
  "uuid \<Rightarrow> string set \<Rightarrow> bool \<Rightarrow> (workflow_step_spec \<times> jdict) list \<Rightarrow> exn + workflow_step_spec list" where
  "resolve_mappings wid known first [] = Inr []"
| "resolve_mappings wid known first ((spec, d) # rest) =
     (case (case dict_get d ''input_mapping'' of
              JNull \<Rightarrow> Inr (mapping_of (if first then ''workflow_input'' else ''previous_output''))
            | raw \<Rightarrow> parse_input_mapping wid (ws_step_id spec) raw known first) of
        Inl e \<Rightarrow> Inl e
      | Inr m \<Rightarrow>
          (case resolve_mappings wid (insert (ws_step_id spec) known) False rest of
             Inl e \<Rightarrow> Inl e | Inr specs \<Rightarrow> Inr (spec\<lparr>ws_mapping := m\<rparr> # specs)))"

definition parse_workflow_steps :: "uuid \<Rightarrow> jdict \<Rightarrow> exn + workflow_step_spec list" where
  "parse_workflow_steps wid definition_json =
     (case dict_get definition_json ''steps'' of
        JArr raws \<Rightarrow>
          if raws = [] then Inl (invalid wid ''definition_json must have a non-empty 'steps' list'')
          else bindE (parse_heads wid {} {} raws)
                 (\<lambda>heads. resolve_mappings wid {} True (sort_key (\<lambda>h. ws_order (fst h)) heads))
      | _ \<Rightarrow> Inl (invalid wid ''definition_json must have a non-empty 'steps' list''))"


section \<open>app/workflows/input_builder.py\<close>

definition unresolved :: "workflow_step_spec \<Rightarrow> string \<Rightarrow> exn" where
  "unresolved step detail = Workflow (WorkflowInputResolutionError (ws_step_id step) detail)"

definition build_step_input ::
  "workflow_step_spec \<Rightarrow> string \<Rightarrow> string option \<Rightarrow> (string \<times> string) list \<Rightarrow> exn + string" where
  "build_step_input step user_input previous outputs =
     (let m = ws_mapping step in
      if im_source m = ''workflow_input'' then Inr user_input
      else if im_source m = ''static''
      then (case im_value m of Some v \<Rightarrow> Inr v | None \<Rightarrow> Inl (PyExc ''AssertionError'' []))
      else if im_source m = ''previous_output'' then
        (case previous of
           None \<Rightarrow> Inl (unresolved step ''previous_output mapping has no preceding step at execution time'')
         | Some p \<Rightarrow>
             (case map_of outputs p of
                None \<Rightarrow> Inl (unresolved step (''previous step '' @ repr_str p @ '' has no recorded output yet''))
              | Some t \<Rightarrow> Inr t))
      else
        (case im_step_id m of
           None \<Rightarrow> Inl (unresolved step (''step_output reference None has no recorded output yet''))
         | Some r \<Rightarrow>
             (case map_of outputs r of
                None \<Rightarrow> Inl (unresolved step (''step_output reference '' @ repr_str r
                          @ '' has no recorded output yet''))
              | Some t \<Rightarrow> Inr t)))"


section \<open>Well-formed step lists\<close>

text \<open>What an executor may rely on: a mapping refers only to the steps before it.\<close>

definition mapping_resolvable :: "string set \<Rightarrow> bool \<Rightarrow> workflow_step_spec \<Rightarrow> bool" where
  "mapping_resolvable earlier first s \<longleftrightarrow>
     (let m = ws_mapping s in
      im_source m = ''workflow_input''
      \<or> (im_source m = ''static'' \<and> im_value m \<noteq> None)
      \<or> (im_source m = ''previous_output'' \<and> \<not> first)
      \<or> (im_source m = ''step_output'' \<and> (\<exists>r. im_step_id m = Some r \<and> r \<in> earlier \<and> r \<noteq> ws_step_id s)))"

fun resolvable_from :: "string set \<Rightarrow> bool \<Rightarrow> workflow_step_spec list \<Rightarrow> bool" where
  "resolvable_from earlier first [] = True"
| "resolvable_from earlier first (s # ss) \<longleftrightarrow>
     mapping_resolvable earlier first s \<and> resolvable_from (insert (ws_step_id s) earlier) False ss"

definition well_formed_steps :: "workflow_step_spec list \<Rightarrow> bool" where
  "well_formed_steps ss \<longleftrightarrow> ss \<noteq> [] \<and> distinct (map ws_step_id ss) \<and> sorted_wrt (<) (map ws_order ss)
     \<and> resolvable_from {} True ss"

lemma parse_input_mapping_resolvable:
  "parse_input_mapping wid sid raw earlier first = Inr m \<Longrightarrow>
     mapping_resolvable earlier first (s\<lparr>ws_step_id := sid, ws_mapping := m\<rparr>)"
  by (auto simp: parse_input_mapping_def mapping_resolvable_def mapping_of_def MAPPING_SOURCES_def Let_def
      split: json.splits if_splits)

lemma resolve_mappings_result:
  "resolve_mappings wid known first heads = Inr ss \<Longrightarrow>
     map ws_step_id ss = map (ws_step_id \<circ> fst) heads \<and> map ws_order ss = map (ws_order \<circ> fst) heads
     \<and> resolvable_from known first ss"
proof (induction wid known first heads arbitrary: ss rule: resolve_mappings.induct)
  case (2 wid known first spec d rest)
  obtain m where m: "(case dict_get d ''input_mapping'' of
              JNull \<Rightarrow> Inr (mapping_of (if first then ''workflow_input'' else ''previous_output''))
            | raw \<Rightarrow> parse_input_mapping wid (ws_step_id spec) raw known first) = Inr m"
    using 2(2) by (auto split: sum.splits)
  moreover obtain rs where rs: "resolve_mappings wid (insert (ws_step_id spec) known) False rest = Inr rs"
      "ss = spec\<lparr>ws_mapping := m\<rparr> # rs"
    using 2(2) m by (auto split: sum.splits)
  moreover have "mapping_resolvable known first (spec\<lparr>ws_mapping := m\<rparr>)"
    using m parse_input_mapping_resolvable [of wid "ws_step_id spec" _ known first m spec]
    by (auto simp: mapping_resolvable_def mapping_of_def split: json.splits if_splits)
  ultimately show ?case using 2(1) [OF m rs(1)] by simp
qed simp

lemma parse_heads_distinct:
  "parse_heads wid ids orders raws = Inr hs \<Longrightarrow>
     distinct (map (ws_step_id \<circ> fst) hs) \<and> distinct (map (ws_order \<circ> fst) hs)
     \<and> set (map (ws_step_id \<circ> fst) hs) \<inter> ids = {} \<and> set (map (ws_order \<circ> fst) hs) \<inter> orders = {}
     \<and> length hs = length raws"
proof (induction wid ids orders raws arbitrary: hs rule: parse_heads.induct)
  case (2 wid ids orders raw raws)
  obtain spec d where h: "parse_step_head wid ids orders raw = Inr (spec, d)"
    using 2(2) by (auto split: sum.splits)
  then have "ws_step_id spec \<notin> ids" "ws_order spec \<notin> orders"
    by (auto simp: parse_step_head_def Let_def split: json.splits if_splits option.splits)
  moreover obtain rest where "parse_heads wid (insert (ws_step_id spec) ids) (insert (ws_order spec) orders) raws
      = Inr rest" "hs = (spec, d) # rest"
    using 2(2) h by (auto split: sum.splits)
  ultimately show ?case using 2(1) [OF h refl, of rest] by auto
qed simp

lemma sorted_distinct_strict: "sorted xs \<Longrightarrow> distinct xs \<Longrightarrow> sorted_wrt (<) xs"
  by (simp add: strict_sorted_iff)

lemma parse_workflow_steps_well_formed:
  assumes "parse_workflow_steps wid d = Inr ss"
  shows "well_formed_steps ss"
proof -
  obtain raws hs where raws: "dict_get d ''steps'' = JArr raws" "raws \<noteq> []"
    and hs: "parse_heads wid {} {} raws = Inr hs"
    and ss: "resolve_mappings wid {} True (sort_key (\<lambda>h. ws_order (fst h)) hs) = Inr ss"
    using assms by (auto simp: parse_workflow_steps_def bindE_def split: json.splits if_splits sum.splits)
  let ?hs = "sort_key (\<lambda>h. ws_order (fst h)) hs"
  note d = parse_heads_distinct [OF hs]
  note r = resolve_mappings_result [OF ss]
  have dis: "distinct (map (ws_step_id \<circ> fst) ?hs)" "distinct (map (ws_order \<circ> fst) ?hs)"
    using d by (auto simp: distinct_map)
  have srt: "sorted (map (ws_order \<circ> fst) ?hs)" by (simp add: comp_def)
  have "length (map ws_step_id ss) = length (map (ws_step_id \<circ> fst) ?hs)" using r by presburger
  then have "length ss = length hs" by simp
  then have "ss \<noteq> []" using d raws(2) by auto
  moreover have "distinct (map ws_step_id ss)" using dis(1) r by presburger
  moreover have "sorted_wrt (<) (map ws_order ss)"
    using sorted_distinct_strict [OF srt dis(2)] r by presburger
  ultimately show ?thesis using r unfolding well_formed_steps_def by blast
qed

text \<open>
  With an output recorded for every earlier step, and the previous step among them, the input of a
  resolvable step is always built.
\<close>

lemma build_step_input_returns:
  assumes "mapping_resolvable earlier first s" and "earlier \<subseteq> dom (map_of outputs)"
    and "\<not> first \<Longrightarrow> \<exists>p. previous = Some p \<and> p \<in> earlier"
  shows "\<exists>t. build_step_input s user_input previous outputs = Inr t"
  using assms
  by (auto simp: mapping_resolvable_def build_step_input_def Let_def subset_iff dom_def split: option.splits)

lemma resolvable_from_nth:
  "resolvable_from earlier first ss \<Longrightarrow> i < length ss \<Longrightarrow>
     mapping_resolvable (earlier \<union> ws_step_id ` set (take i ss)) (first \<and> i = 0) (ss ! i)"
proof (induction earlier first ss arbitrary: i rule: resolvable_from.induct)
  case (2 earlier first s ss)
  then show ?case by (cases i) auto
qed simp


section \<open>Properties\<close>

text \<open>A definition with two steps given out of order, the second quoting the first.\<close>

definition demo_definition :: jdict where
  "demo_definition = [(''steps'', JArr
     [JObj [(''step_id'', JStr ''b''), (''name'', JStr ''B''), (''order'', JInt 2),
            (''agent_definition_id'', JStr ''00000000-0000-4000-8000-0000000000a1''),
            (''input_mapping'', JObj [(''source'', JStr ''step_output''), (''step_id'', JStr ''a'')])],
      JObj [(''step_id'', JStr ''a''), (''name'', JStr ''A''), (''order'', JInt 1),
            (''agent_definition_id'', JStr ''00000000-0000-4000-8000-0000000000a1'')]])]"

definition demo_steps :: "workflow_step_spec list" where
  "demo_steps = (case parse_workflow_steps ''w1'' demo_definition of Inr ss \<Rightarrow> ss | Inl _ \<Rightarrow> [])"

lemma demo_parse: "parse_workflow_steps ''w1'' demo_definition = Inr demo_steps" "length demo_steps = 2"
proof -
  have "(case parse_workflow_steps ''w1'' demo_definition of Inr ss \<Rightarrow> length ss | Inl _ \<Rightarrow> 0) = 2"
    by code_simp
  then show "parse_workflow_steps ''w1'' demo_definition = Inr demo_steps" "length demo_steps = 2"
    by (auto simp: demo_steps_def split: sum.splits)
qed

text \<open>
  C39: A step list the parser accepts is non-empty, has distinct step ids, is strictly ordered, and
  each step's input mapping refers only to steps before it.
\<close>

theorem parsed_steps_are_well_formed:
  assumes "parse_workflow_steps wid d = Inr ss"
  shows "well_formed_steps ss"
  using assms by (rule parse_workflow_steps_well_formed)

lemma parsed_steps_are_well_formed_witness: "length demo_steps = 2 \<and> well_formed_steps demo_steps"
  using parsed_steps_are_well_formed [OF demo_parse(1)] demo_parse(2) by simp

text \<open>
  C38: Executing the steps of an accepted definition in order, the input of every step is built: the
  errors of \<open>build_step_input\<close> are unreachable once each earlier step has recorded its output.
\<close>

theorem step_inputs_always_resolve:
  assumes "parse_workflow_steps wid d = Inr ss" and "i < length ss"
    and "\<And>j. j < i \<Longrightarrow> map_of outputs (ws_step_id (ss ! j)) \<noteq> None"
  shows "\<exists>t. build_step_input (ss ! i) user_input
           (if i = 0 then None else Some (ws_step_id (ss ! (i - 1)))) outputs = Inr t"
proof (rule build_step_input_returns)
  show "mapping_resolvable ({} \<union> ws_step_id ` set (take i ss)) (True \<and> i = 0) (ss ! i)"
    using parse_workflow_steps_well_formed [OF assms(1)] assms(2)
    by (intro resolvable_from_nth) (simp_all add: well_formed_steps_def)
  show "{} \<union> ws_step_id ` set (take i ss) \<subseteq> dom (map_of outputs)"
    using assms(2,3) by (auto simp: set_conv_nth dom_def)
  show "\<exists>p. (if i = 0 then None else Some (ws_step_id (ss ! (i - 1)))) = Some p
      \<and> p \<in> {} \<union> ws_step_id ` set (take i ss)" if "\<not> (True \<and> i = 0)"
  proof -
    have "i - 1 < i" using that by simp
    then have "ss ! (i - 1) \<in> set (take i ss)"
      using assms(2) by (auto simp: set_conv_nth intro!: exI [of _ "i - 1"])
    then show ?thesis using that by simp
  qed
qed

lemma step_inputs_always_resolve_witness:
  "\<exists>t. build_step_input (demo_steps ! 1) ''topic'' (Some (ws_step_id (demo_steps ! 0)))
     [(ws_step_id (demo_steps ! 0), ''draft'')] = Inr t"
  using step_inputs_always_resolve [OF demo_parse(1), of 1 "[(ws_step_id (demo_steps ! 0), ''draft'')]" "''topic''"]
    demo_parse(2) by simp

end
