(* ===== verification/Gateway.thy ===== *)
theory Gateway
  imports Providers
begin

text \<open>
  \<open>app/llm/gateway.py\<close>: routing, the retry loop for transient provider failures, validation of
  structured output and cost estimation around one provider call, and the aggregated health check.
\<close>

section \<open>Structured output\<close>

definition validate_structured_output ::
  "(jdict \<Rightarrow> json \<Rightarrow> string option) \<Rightarrow> json \<Rightarrow> jdict \<Rightarrow> exn + unit" where
  "validate_structured_output schema_error content schema =
     (if \<not> is_str content
      then Inl (PyExc ''TypeError'' (''the JSON object must be str, bytes or bytearray, not ''
                @ py_type_name content))
      else (case json_loads (str_of content) of
        None \<Rightarrow> Inl (LLM (LLMStructuredOutputError ''Provider response was not valid JSON''
                (Some (str_of content))))
      | Some parsed \<Rightarrow>
          (case schema_error schema parsed of
             Some msg \<Rightarrow> Inl (LLM (LLMStructuredOutputError
                 (''Response did not match the requested schema: '' @ msg) (Some (str_of content))))
           | None \<Rightarrow> Inr ())))"


section \<open>The retry loop\<close>

definition retryable :: "exn \<Rightarrow> bool" where
  "retryable e = (case e of LLM l \<Rightarrow> llm_retryable l | _ \<Rightarrow> False)"

definition BASE_RETRY_DELAY :: duration where
  "BASE_RETRY_DELAY = 500000"

definition retry_delay :: "nat \<Rightarrow> duration \<Rightarrow> duration" where
  "retry_delay attempt jitter = BASE_RETRY_DELAY * 2 ^ attempt + jitter"

text \<open>Waiting changes nothing in the state: the clock oracle decides how much time has passed.\<close>

definition sleep :: "duration \<Rightarrow> unit app" where
  "sleep d = ret ()"

definition back_off :: "env \<Rightarrow> nat \<Rightarrow> unit app" where
  "back_off ev attempt = bindM (readM (e_jitter ev)) (\<lambda>j.
     let d = retry_delay attempt j in if 0 < d then sleep d else ret ())"

function retry_async :: "env \<Rightarrow> 'a app \<Rightarrow> nat \<Rightarrow> 'a app" where
  "retry_async ev operation attempt w =
     (case operation w of
        (Inr x, w') \<Rightarrow> (Inr x, w')
      | (Inl e, w') \<Rightarrow>
          if \<not> retryable e \<or> s_llm_max_retries (e_settings ev) \<le> int attempt then (Inl e, w')
          else retry_async ev operation (Suc attempt) (snd (back_off ev attempt w')))"
  by pat_completeness auto
termination
  by (relation "measure (\<lambda>(ev, operation, attempt, w). nat (s_llm_max_retries (e_settings ev) - int attempt))")
     auto

declare retry_async.simps [simp del]

text \<open>\<open>n\<close> successive calls failed in a way worth retrying, each followed by its wait.\<close>

fun failed_tries :: "env \<Rightarrow> 'a app \<Rightarrow> nat \<Rightarrow> nat \<Rightarrow> world \<Rightarrow> world \<Rightarrow> bool" where
  "failed_tries ev operation attempt 0 w w' \<longleftrightarrow> w' = w"
| "failed_tries ev operation attempt (Suc n) w w' \<longleftrightarrow>
     (\<exists>e w1. operation w = (Inl e, w1) \<and> retryable e
        \<and> failed_tries ev operation (Suc attempt) n (snd (back_off ev attempt w1)) w')"

lemma retry_async_outcome:
  assumes "int attempt \<le> max 0 (s_llm_max_retries (e_settings ev))"
  shows "\<exists>n w1. attempt + n \<le> nat (s_llm_max_retries (e_settings ev))
     \<and> failed_tries ev operation attempt n w w1 \<and> retry_async ev operation attempt w = operation w1
     \<and> (\<forall>e w2. operation w1 = (Inl e, w2) \<longrightarrow> retryable e
          \<longrightarrow> attempt + n = nat (s_llm_max_retries (e_settings ev)))"
  using assms
proof (induction ev operation attempt w rule: retry_async.induct)
  case (1 ev operation attempt w)
  let ?max = "s_llm_max_retries (e_settings ev)"
  show ?case
  proof (cases "operation w")
    case (Pair r w')
    show ?thesis
    proof (cases "\<exists>e. r = Inl e \<and> retryable e \<and> int attempt < ?max")
      case True
      then obtain e where e: "r = Inl e" "retryable e" "int attempt < ?max" by blast
      have "\<exists>n w1. Suc attempt + n \<le> nat ?max
          \<and> failed_tries ev operation (Suc attempt) n (snd (back_off ev attempt w')) w1
          \<and> retry_async ev operation (Suc attempt) (snd (back_off ev attempt w')) = operation w1
          \<and> (\<forall>e w2. operation w1 = (Inl e, w2) \<longrightarrow> retryable e \<longrightarrow> Suc attempt + n = nat ?max)"
        using 1(1) [of r w' e] e Pair by auto
      then obtain n w1 where n: "Suc attempt + n \<le> nat ?max"
          "failed_tries ev operation (Suc attempt) n (snd (back_off ev attempt w')) w1"
          "retry_async ev operation (Suc attempt) (snd (back_off ev attempt w')) = operation w1"
          "\<forall>e w2. operation w1 = (Inl e, w2) \<longrightarrow> retryable e \<longrightarrow> Suc attempt + n = nat ?max"
        by blast
      have "retry_async ev operation attempt w = operation w1"
        using e Pair n(3) by (subst retry_async.simps) simp
      then show ?thesis
        using n e Pair by (intro exI [of _ "Suc n"] exI [of _ w1]) auto
    next
      case False
      then have "retry_async ev operation attempt w = operation w"
        using Pair by (subst retry_async.simps) (auto split: sum.splits)
      then show ?thesis
        using False Pair 1(2) by (intro exI [of _ 0] exI [of _ w]) auto
    qed
  qed
qed

lemma no_tables_back_off: "no_tables (back_off ev n)"
  by (auto simp: back_off_def sleep_def Let_def intro!: no_tables_bindM)


lemma no_tables_retry:
  assumes "no_tables operation"
  shows "same_tables w (snd (retry_async ev operation attempt w))"
  using assms
proof (induction ev operation attempt w rule: retry_async.induct)
  case (1 ev operation attempt w)
  obtain r w' where op: "operation w = (r, w')" by (cases "operation w")
  then have w': "same_tables w w'" using 1(2) no_tablesD by blast
  show ?case
  proof (cases "\<exists>e. r = Inl e \<and> retryable e \<and> int attempt < s_llm_max_retries (e_settings ev)")
    case True
    then obtain e where e: "r = Inl e" "retryable e" "int attempt < s_llm_max_retries (e_settings ev)"
      by blast
    let ?w = "snd (back_off ev attempt w')"
    have "same_tables w' ?w" using no_tables_back_off no_tables_def by blast
    moreover have "same_tables ?w (snd (retry_async ev operation (Suc attempt) ?w))"
      using 1 op e by auto
    ultimately show ?thesis
      using w' op e by (subst retry_async.simps) (auto intro: same_tables_trans)
  next
    case False
    then have "retry_async ev operation attempt w = operation w"
      using op by (subst retry_async.simps) (auto split: sum.splits)
    then show ?thesis using op w' by simp
  qed
qed


section \<open>The gateway\<close>

definition get_provider :: "env \<Rightarrow> string \<Rightarrow> exn + provider" where
  "get_provider ev name =
     (case e_providers ev name of
        None \<Rightarrow> Inl (LLM (LLMProviderNotConfigured name ''not configured in this gateway instance''))
      | Some p \<Rightarrow> Inr p)"

definition gateway_generate :: "env \<Rightarrow> llm_request \<Rightarrow> llm_response app" where
  "gateway_generate ev request =
     bindM (liftE (resolve_provider_name (rq_provider request) (e_settings ev))) (\<lambda>provider_name.
     bindM (liftE (resolve_model provider_name (rq_model request) (e_settings ev))) (\<lambda>model.
     bindM (liftE (get_provider ev provider_name)) (\<lambda>provider.
     let resolved = request\<lparr>rq_provider := Some provider_name, rq_model := model\<rparr> in
     bindM (retry_async ev (pv_generate provider resolved) 0) (\<lambda>response.
     bindM (liftE (case rq_response_format resolved of
              None \<Rightarrow> Inr ()
            | Some f \<Rightarrow> validate_structured_output (e_schema_error ev) (rs_content response)
                          (rf_json_schema f))) (\<lambda>_.
     bindM (liftE (estimate_cost_usd (e_settings ev) provider_name model
              (us_input_tokens (rs_usage response)) (us_output_tokens (rs_usage response)))) (\<lambda>cost.
     ret (response\<lparr>rs_cost := cost\<rparr>)))))))"

definition gateway_embed :: "env \<Rightarrow> embedding_request \<Rightarrow> embedding_response app" where
  "gateway_embed ev request =
     bindM (liftE (resolve_provider_name (eq_provider request) (e_settings ev))) (\<lambda>provider_name.
     bindM (liftE (resolve_model provider_name (eq_model request) (e_settings ev))) (\<lambda>model.
     bindM (liftE (get_provider ev provider_name)) (\<lambda>provider.
     let resolved = request\<lparr>eq_provider := Some provider_name, eq_model := model\<rparr> in
     bindM (retry_async ev (pv_embed provider resolved) 0) (\<lambda>response.
     bindM (liftE (estimate_cost_usd (e_settings ev) provider_name model
              (us_input_tokens (es_usage response)) (us_output_tokens (es_usage response)))) (\<lambda>cost.
     ret (response\<lparr>es_cost := cost\<rparr>))))))"

fun health_of :: "env \<Rightarrow> string list \<Rightarrow> provider_health list app" where
  "health_of ev [] = ret []"
| "health_of ev (name # names) =
     bindM (case e_providers ev name of
              None \<Rightarrow> ret \<lparr>ph_provider = name, ph_status = ''not_configured'', ph_detail = None,
                          ph_latency = None\<rparr>
            | Some p \<Rightarrow> catchM (pv_health_check p) (\<lambda>e. ret \<lparr>ph_provider = name,
                          ph_status = ''unavailable'', ph_detail = Some (exn_str e), ph_latency = None\<rparr>))
       (\<lambda>h. bindM (health_of ev names) (\<lambda>hs. ret (h # hs)))"

definition gateway_health_check :: "env \<Rightarrow> string option \<Rightarrow> provider_health list app" where
  "gateway_health_check ev provider_name =
     health_of ev (case provider_name of Some n \<Rightarrow> [n]
                   | None \<Rightarrow> llm_allowed_providers_list (e_settings ev))"

lemma no_tables_retry_async: "no_tables operation \<Longrightarrow> no_tables (retry_async ev operation n)"
  by (simp add: no_tables_def [of "retry_async ev operation n"] no_tables_retry)

lemma get_provider_lawful:
  "lawful_registry (e_providers ev) \<Longrightarrow> get_provider ev n = Inr p \<Longrightarrow>
     llm_provider (pv_generate p) (pv_embed p) (pv_health_check p)"
  by (auto simp: get_provider_def lawful_registry_def split: option.splits)

lemma no_tables_liftE_bindM:
  "(\<And>x. r = Inr x \<Longrightarrow> no_tables (f x)) \<Longrightarrow> no_tables (bindM (liftE r) f)"
  by (cases r) (simp_all add: no_tables_def monad)

text \<open>The gateway never touches the database when its providers do not.\<close>

lemma no_tables_gateway_generate:
  assumes "lawful_registry (e_providers ev)"
  shows "no_tables (gateway_generate ev rq)"
  using get_provider_lawful [OF assms] unfolding gateway_generate_def Let_def
  by (fastforce intro!: no_tables_liftE_bindM no_tables_bindM no_tables_retry_async
      intro: llm_provider.generate_no_tables)

lemma no_tables_gateway_embed:
  assumes "lawful_registry (e_providers ev)"
  shows "no_tables (gateway_embed ev rq)"
  using get_provider_lawful [OF assms] unfolding gateway_embed_def Let_def
  by (fastforce intro!: no_tables_liftE_bindM no_tables_bindM no_tables_retry_async
      intro: llm_provider.embed_no_tables)

lemma health_of_returns: "\<exists>hs w'. health_of ev names w = (Inr hs, w') \<and> length hs = length names"
proof (induction names arbitrary: w)
  case (Cons n names)
  show ?case
  proof (cases "e_providers ev n")
    case None
    then show ?thesis using Cons [of w] by (auto simp: monad)
  next
    case (Some p)
    obtain r w1 where "pv_health_check p w = (r, w1)" by (cases "pv_health_check p w")
    then show ?thesis using Some Cons [of w1] by (cases r) (auto simp: monad)
  qed
qed (simp add: monad)


text \<open>What a gateway call may raise.\<close>

lemma retry_async_raises:
  "raises_only P operation \<Longrightarrow> retry_async ev operation n w = (Inl e, w') \<Longrightarrow> P e"
proof (induction ev operation n w rule: retry_async.induct)
  case (1 ev operation attempt w)
  obtain r w1 where op: "operation w = (r, w1)" by (cases "operation w")
  show ?case
  proof (cases "\<exists>x. r = Inl x \<and> retryable x \<and> int attempt < s_llm_max_retries (e_settings ev)")
    case True
    then obtain x where x: "r = Inl x" "\<not> (\<not> retryable x \<or> s_llm_max_retries (e_settings ev) \<le> int attempt)"
      by auto
    have "retry_async ev operation (Suc attempt) (snd (back_off ev attempt w1)) = (Inl e, w')"
      using 1(3) op x by (subst (asm) retry_async.simps) simp
    then show ?thesis by (rule 1(1) [OF op [symmetric] x 1(2)])
  next
    case False
    then have "retry_async ev operation attempt w = operation w"
      using op by (subst retry_async.simps) (auto split: sum.splits)
    then have "r = Inl e" using 1(3) op by simp
    then show ?thesis using op raises_onlyD [OF 1(2), of w e w1] by simp
  qed
qed

lemma raises_only_retry: "raises_only P operation \<Longrightarrow> raises_only P (retry_async ev operation n)"
  using retry_async_raises unfolding raises_only_def [of P "retry_async ev operation n"] by blast

lemma errs_str_maps [simp]: "errs py_error (str_maps t)"
proof -
  have "errs py_error (py_items v)" for v by (cases v) (simp_all add: py_items_def)
  then show ?thesis by (auto simp: str_maps_def intro!: errs_rules)
qed

lemma errs_routing [simp, intro]:
  "errs foreign_error (resolve_provider_name q st)" "errs foreign_error (resolve_model p m st)"
  "errs foreign_error (get_provider ev n)" "errs foreign_error (estimate_cost_usd st p m i j)"
  "errs foreign_error (validate_structured_output f c s)"
  by (auto simp: resolve_provider_name_def resolve_model_def get_provider_def estimate_cost_usd_def Let_def
      llm_model_aliases_map_def llm_pricing_map_def validate_structured_output_def
      intro!: errs_bindE errs_foreign split: option.splits)

lemma raises_only_liftE_bindM:
  "errs P r \<Longrightarrow> (\<And>x. r = Inr x \<Longrightarrow> raises_only P (f x)) \<Longrightarrow> raises_only P (bindM (liftE r) f)"
  by (cases r) (simp_all add: run)

lemma gateway_generate_raises:
  assumes "lawful_registry (e_providers ev)"
  shows "raises_only foreign_error (gateway_generate ev rq)"
  using get_provider_lawful [OF assms] unfolding gateway_generate_def Let_def
  by (intro raises_only_liftE_bindM raises_only_bindM raises_only_retry raises_only_ret errs_routing)
    (auto intro: llm_provider.generate_raises_foreign split: option.splits)


lemma gateway_embed_raises:
  assumes "lawful_registry (e_providers ev)"
  shows "raises_only foreign_error (gateway_embed ev rq)"
  using get_provider_lawful [OF assms] unfolding gateway_embed_def Let_def
  by (intro raises_only_liftE_bindM raises_only_bindM raises_only_retry raises_only_ret errs_routing)
    (auto intro: llm_provider.embed_raises_foreign split: option.splits)


section \<open>A concrete environment\<close>

text \<open>The default settings with the application's registry: only the fake provider has no key to miss.\<close>

definition no_network :: network where
  "no_network = \<lparr>nw_anthropic = (\<lambda>_ _. HttpTimeout), nw_anthropic_get = (\<lambda>_. HttpTimeout),
     nw_openai = (\<lambda>_ _. HttpTimeout), nw_openai_embed = (\<lambda>_ _. HttpTimeout),
     nw_openai_get = (\<lambda>_. HttpTimeout)\<rparr>"

definition demo_env :: env where
  "demo_env = \<lparr>e_settings = default_settings\<lparr>s_llm_default_provider := Some ''fake''\<rparr>,
     e_providers = provider_registry (\<lambda>n. int n * 1000000) (\<lambda>n. int n * 1000000) no_network default_settings,
     e_schema_error = (\<lambda>_ _. None), e_now = (\<lambda>n. int n * 1000000), e_mono = (\<lambda>n. int n * 1000000),
     e_uuid = (\<lambda>n. ''00000000-0000-4000-8000-'' @ pad_left 12 (digits n)), e_jitter = (\<lambda>_. 0),
     e_mcp_http = (\<lambda>_ _ _. HttpTimeout)\<rparr>"

definition empty_world :: world where
  "empty_world = \<lparr>jobs = [], agent_runs = [], workflow_runs = [], step_runs = [], llm_requests = [],
     agents = [], workflows = [], users = [], assets = [], chunks = [], products = [], heartbeats = [],
     tick = 0\<rparr>"

lemma demo_env_lawful: "lawful_registry (e_providers demo_env)"
  by (simp add: demo_env_def provider_registry_lawful)

definition demo_request :: llm_request where
  "demo_request = \<lparr>rq_request_id = ''r'', rq_model = ''m'',
     rq_messages = [\<lparr>m_role = ''user'', m_content = ''1''\<rparr>], rq_provider = None,
     rq_system_prompt = None, rq_temperature = None, rq_max_tokens = None,
     rq_response_format = Some \<lparr>rf_json_schema = [], rf_name = ''response''\<rparr>, rq_tools = None,
     rq_metadata = []\<rparr>"

text \<open>The same environment with a fake provider scripted to answer in JSON.\<close>

definition json_env :: env where
  "json_env = demo_env\<lparr>e_providers := (\<lambda>n. if n = ''fake''
     then Some (fake_provider (\<lambda>_. 0) (default_fake\<lparr>fk_response_content := Some ''[1]''\<rparr>)) else None)\<rparr>"


section \<open>Properties\<close>

text \<open>
  C19: The gateway calls a provider at most \<open>llm_max_retries + 1\<close> times: its answer is that of the
  last call, every earlier call failed with an error marked retryable, and a retryable error is
  only reported once the retries are used up.
\<close>

theorem retries_are_bounded:
  "\<exists>n w1. n \<le> nat (s_llm_max_retries (e_settings ev)) \<and> failed_tries ev operation 0 n w w1
     \<and> retry_async ev operation 0 w = operation w1
     \<and> \<not> (\<exists>e w2. operation w1 = (Inl e, w2) \<and> retryable e
            \<and> n \<noteq> nat (s_llm_max_retries (e_settings ev)))"
  using retry_async_outcome [of 0 ev operation w] by auto

text \<open>
  When a request asked for structured output, a response the gateway returns is JSON text that
  the schema validator accepts, whichever provider produced it.
\<close>

theorem structured_output_is_validated:
  assumes "gateway_generate ev request w = (Inr response, w')"
    and "rq_response_format request = Some f"
  shows "\<exists>t v. rs_content response = JStr t \<and> json_loads t = Some v
     \<and> e_schema_error ev (rf_json_schema f) v = None"
  using assms
  by (auto simp: gateway_generate_def monad Let_def validate_structured_output_def
      dest!: is_str_cases split: sum.splits prod.splits option.splits if_splits)

lemma structured_output_is_validated_witness:
  "\<exists>t v. json_loads t = Some v \<and> e_schema_error json_env [] v = None"
proof -
  have "case gateway_generate json_env demo_request empty_world of (Inl _, _) \<Rightarrow> False | (Inr _, _) \<Rightarrow> True"
    by code_simp
  then obtain r w where "gateway_generate json_env demo_request empty_world = (Inr r, w)"
    by (auto split: prod.splits sum.splits)
  from structured_output_is_validated [OF this, of "\<lparr>rf_json_schema = [], rf_name = ''response''\<rparr>"]
  show ?thesis by (auto simp: demo_request_def)
qed

text \<open>
  The health report always comes back, with one entry per provider asked about, even when a
  provider's own health check raises.
\<close>

theorem health_check_never_raises:
  "\<exists>hs w'. gateway_health_check ev name w = (Inr hs, w')
     \<and> length hs = length (case name of Some n \<Rightarrow> [n] | None \<Rightarrow> llm_allowed_providers_list (e_settings ev))"
  unfolding gateway_health_check_def by (rule health_of_returns)

end
