(* ===== verification/LlmService.thy ===== *)
theory LlmService
  imports Gateway
begin

text \<open>
  \<open>app/services/llm_service.py\<close>: one audited gateway call. A row of \<open>llm_requests\<close> is committed
  as PENDING before the provider is contacted and settled afterwards; a request that fails routing
  gets a FAILED row at once. The response models of \<open>app/schemas/llm.py\<close> are built last, so their
  validation happens after the row was committed as SUCCEEDED.
\<close>

section \<open>Response models\<close>

record tool_call_out =
  to_id :: string
  to_name :: string
  to_arguments :: jdict

record generate_response =
  gs_request_id :: string
  gs_provider :: string
  gs_model :: string
  gs_content :: string
  gs_finish_reason :: string
  gs_input_tokens :: int
  gs_output_tokens :: int
  gs_total_tokens :: int
  gs_cost :: "rat option"
  gs_latency :: duration
  gs_created_at :: time
  gs_provider_request_id :: "string option"
  gs_tool_calls :: "tool_call_out list option"
  gs_metadata :: jdict

record embed_response =
  bs_request_id :: string
  bs_provider :: string
  bs_model :: string
  bs_embeddings :: "rat list list"
  bs_input_tokens :: int
  bs_cost :: "rat option"
  bs_latency :: duration
  bs_created_at :: time
  bs_provider_request_id :: "string option"
  bs_metadata :: jdict

definition to_response_format :: "response_format_in option \<Rightarrow> exn + response_format option" where
  "to_response_format data =
     (case data of None \<Rightarrow> Inr None
      | Some d \<Rightarrow>
          if ri_mode d \<noteq> ''json_schema''
          then Inl (LLM (LLMStructuredOutputError
                 (''Unsupported structured output mode: '' @ repr_str (ri_mode d)) None))
          else Inr (Some \<lparr>rf_json_schema = ri_json_schema d, rf_name = ri_name d\<rparr>))"

definition to_tools :: "tool_definition list option \<Rightarrow> tool_definition list option" where
  "to_tools data = (if tools_truthy data then data else None)"

definition tool_call_to_schema :: "tool_call \<Rightarrow> exn + tool_call_out" where
  "tool_call_to_schema c =
     (case tc_arguments c of
        JObj d \<Rightarrow> Inr \<lparr>to_id = tc_id c, to_name = tc_name c, to_arguments = d\<rparr>
      | _ \<Rightarrow> Inl validation_error)"

definition tool_calls_to_schema :: "tool_call list option \<Rightarrow> exn + tool_call_out list option" where
  "tool_calls_to_schema calls =
     (if tools_truthy calls then bindE (mapE tool_call_to_schema (the calls)) (Inr \<circ> Some) else Inr None)"

text \<open>\<open>str | None\<close> as Pydantic checks it.\<close>

definition optional_str :: "json \<Rightarrow> exn + string option" where
  "optional_str v = (case v of JNull \<Rightarrow> Inr None | JStr s \<Rightarrow> Inr (Some s) | _ \<Rightarrow> Inl validation_error)"

definition to_generate_response :: "llm_response \<Rightarrow> exn + generate_response" where
  "to_generate_response r =
     bindE (tool_calls_to_schema (rs_tool_calls r)) (\<lambda>calls.
     bindE (case rs_content r of JStr t \<Rightarrow> Inr t | _ \<Rightarrow> Inl validation_error) (\<lambda>content.
     bindE (optional_str (rs_provider_request_id r)) (\<lambda>rid.
     Inr \<lparr>gs_request_id = rs_request_id r, gs_provider = rs_provider r, gs_model = rs_model r,
          gs_content = content, gs_finish_reason = rs_finish_reason r,
          gs_input_tokens = us_input_tokens (rs_usage r),
          gs_output_tokens = us_output_tokens (rs_usage r),
          gs_total_tokens = us_total_tokens (rs_usage r), gs_cost = rs_cost r,
          gs_latency = rs_latency r, gs_created_at = rs_created_at r, gs_provider_request_id = rid,
          gs_tool_calls = calls, gs_metadata = rs_metadata r\<rparr>)))"

definition to_embed_response :: "embedding_response \<Rightarrow> exn + embed_response" where
  "to_embed_response r =
     bindE (optional_str (es_provider_request_id r)) (\<lambda>rid.
     Inr \<lparr>bs_request_id = es_request_id r, bs_provider = es_provider r, bs_model = es_model r,
          bs_embeddings = es_embeddings r, bs_input_tokens = us_input_tokens (es_usage r),
          bs_cost = es_cost r, bs_latency = es_latency r, bs_created_at = es_created_at r,
          bs_provider_request_id = rid, bs_metadata = es_metadata r\<rparr>)"


section \<open>Audit rows\<close>

definition pending_record :: "uuid \<Rightarrow> uuid \<Rightarrow> string \<Rightarrow> string \<Rightarrow> jdict \<Rightarrow> llm_request_record" where
  "pending_record rid user provider model metadata =
     \<lparr>lr_id = rid, lr_user_id = Some user, lr_provider = provider, lr_model = model,
      lr_status = LRS_PENDING, lr_request_metadata = metadata, lr_response_metadata = [],
      lr_input_tokens = None, lr_output_tokens = None, lr_total_tokens = None, lr_cost = None,
      lr_latency_ms = None, lr_error_code = None, lr_completed_at = None\<rparr>"

definition unresolved_record ::
  "uuid \<Rightarrow> uuid \<Rightarrow> string option \<Rightarrow> string \<Rightarrow> jdict \<Rightarrow> exn \<Rightarrow> time \<Rightarrow> llm_request_record" where
  "unresolved_record rid user provider model metadata e now =
     (pending_record rid user (if falsy_opt provider then ''unresolved'' else the provider) model metadata)
       \<lparr>lr_status := LRS_FAILED, lr_error_code := Some (exn_name e), lr_completed_at := Some now\<rparr>"

definition succeeded_record ::
  "llm_request_record \<Rightarrow> llm_usage \<Rightarrow> rat option \<Rightarrow> duration \<Rightarrow> jdict \<Rightarrow> time \<Rightarrow> llm_request_record" where
  "succeeded_record r usage cost latency metadata now =
     r\<lparr>lr_status := LRS_SUCCEEDED, lr_input_tokens := Some (us_input_tokens usage),
       lr_output_tokens := Some (us_output_tokens usage), lr_total_tokens := Some (us_total_tokens usage),
       lr_cost := cost, lr_latency_ms := Some (to_ms latency), lr_response_metadata := metadata,
       lr_completed_at := Some now\<rparr>"

definition failed_record :: "llm_request_record \<Rightarrow> exn \<Rightarrow> duration \<Rightarrow> time \<Rightarrow> llm_request_record" where
  "failed_record r e elapsed now =
     r\<lparr>lr_status := LRS_FAILED, lr_error_code := Some (exn_name e), lr_latency_ms := Some (to_ms elapsed),
       lr_completed_at := Some now\<rparr>"

text \<open>\<open>except LLMError\<close>: any other exception passes through.\<close>

definition except_llm :: "'a app \<Rightarrow> (exn \<Rightarrow> 'a app) \<Rightarrow> 'a app" where
  "except_llm p h = catchM p (\<lambda>e. if is_llm_error e then h e else raise e)"

definition record_unresolved ::
  "env \<Rightarrow> uuid \<Rightarrow> uuid \<Rightarrow> string option \<Rightarrow> string \<Rightarrow> jdict \<Rightarrow> exn \<Rightarrow> 'a app" where
  "record_unresolved ev rid user provider model metadata e =
     bindM (readM (e_now ev)) (\<lambda>now.
     seqM (put_llm_request (unresolved_record rid user provider model metadata e now)) (raise e))"

definition record_failure :: "env \<Rightarrow> llm_request_record \<Rightarrow> time \<Rightarrow> exn \<Rightarrow> 'a app" where
  "record_failure ev r started e =
     bindM (readM (e_mono ev)) (\<lambda>stopped. bindM (readM (e_now ev)) (\<lambda>now.
     seqM (put_llm_request (failed_record r e (stopped - started) now)) (raise e)))"


lemma run_except_llm [run]:
  "except_llm (liftE (Inr x)) h = ret x"
  "except_llm (liftE (Inl e)) h = (if is_llm_error e then h e else raise e)"
  by (rule ext, simp add: except_llm_def monad)+


section \<open>The audited calls\<close>

definition route_generate :: "env \<Rightarrow> generate_request \<Rightarrow> exn + string \<times> string \<times> response_format option" where
  "route_generate ev payload =
     bindE (resolve_provider_name (gr_provider payload) (e_settings ev)) (\<lambda>provider.
     bindE (resolve_model provider (gr_model payload) (e_settings ev)) (\<lambda>model.
     bindE (to_response_format (gr_response_format payload)) (\<lambda>f. Inr (provider, model, f))))"

definition to_llm_request ::
  "settings \<Rightarrow> uuid \<Rightarrow> string \<Rightarrow> string \<Rightarrow> response_format option \<Rightarrow> generate_request \<Rightarrow> llm_request" where
  "to_llm_request st rid provider model f payload =
     \<lparr>rq_request_id = rid, rq_model = model, rq_messages = gr_messages payload,
      rq_provider = Some provider, rq_system_prompt = gr_system_prompt payload,
      rq_temperature = gr_temperature payload,
      rq_max_tokens = Some (case gr_max_tokens payload of None \<Rightarrow> s_llm_max_output_tokens st
                            | Some n \<Rightarrow> min n (s_llm_max_output_tokens st)),
      rq_response_format = f, rq_tools = to_tools (gr_tools payload), rq_metadata = gr_metadata payload\<rparr>"

definition generate_and_persist :: "env \<Rightarrow> uuid \<Rightarrow> generate_request \<Rightarrow> generate_response app" where
  "generate_and_persist ev user payload =
     bindM (readM (e_uuid ev)) (\<lambda>rid.
     bindM (except_llm (liftE (route_generate ev payload))
              (record_unresolved ev rid user (gr_provider payload) (gr_model payload) (gr_metadata payload)))
       (\<lambda>(provider, model, f).
     let r = pending_record rid user provider model (gr_metadata payload) in
     seqM (put_llm_request r)
     (bindM (readM (e_mono ev)) (\<lambda>started.
     bindM (except_llm (gateway_generate ev (to_llm_request (e_settings ev) rid provider model f payload))
              (record_failure ev r started)) (\<lambda>response.
     bindM (readM (e_now ev)) (\<lambda>now.
     seqM (put_llm_request (succeeded_record r (rs_usage response) (rs_cost response)
             (rs_latency response) (rs_metadata response) now))
       (liftE (to_generate_response response))))))))"

definition normalized_input :: "embed_input \<Rightarrow> string list" where
  "normalized_input v = (case v of OneText t \<Rightarrow> [t] | ManyTexts ts \<Rightarrow> ts)"

definition route_embed :: "env \<Rightarrow> embed_request \<Rightarrow> exn + string \<times> string" where
  "route_embed ev payload =
     bindE (resolve_provider_name (er_provider payload) (e_settings ev)) (\<lambda>provider.
     bindE (resolve_model provider (er_model payload) (e_settings ev)) (\<lambda>model. Inr (provider, model)))"

definition embed_and_persist :: "env \<Rightarrow> uuid \<Rightarrow> embed_request \<Rightarrow> embed_response app" where
  "embed_and_persist ev user payload =
     bindM (readM (e_uuid ev)) (\<lambda>rid.
     bindM (except_llm (liftE (route_embed ev payload))
              (record_unresolved ev rid user (er_provider payload) (er_model payload) (er_metadata payload)))
       (\<lambda>(provider, model).
     let r = pending_record rid user provider model (er_metadata payload) in
     seqM (put_llm_request r)
     (bindM (readM (e_mono ev)) (\<lambda>started.
     bindM (except_llm (gateway_embed ev \<lparr>eq_request_id = rid, eq_model = model,
                eq_input = normalized_input (er_input payload), eq_provider = Some provider,
                eq_metadata = er_metadata payload\<rparr>)
              (record_failure ev r started)) (\<lambda>response.
     bindM (readM (e_now ev)) (\<lambda>now.
     seqM (put_llm_request (succeeded_record r (es_usage response) (es_cost response)
             (es_latency response) (es_metadata response) now))
       (liftE (to_embed_response response))))))))"

text \<open>Reading a row back: an admin sees every row, anyone else only their own.\<close>

definition get_request :: "uuid \<Rightarrow> user \<Rightarrow> llm_request_record app" where
  "get_request rid current =
     bindM (getM (\<lambda>w. row_get lr_id rid (llm_requests w))) (\<lambda>r. case r of
         None \<Rightarrow> raise (Domain (LLMRequestNotFoundError rid))
       | Some r \<Rightarrow>
           if u_role current \<noteq> ADMIN \<and> lr_user_id r \<noteq> Some (u_id current)
           then raise (Domain (LLMRequestNotFoundError rid))
           else ret r)"

record provider_info =
  pi_name :: string
  pi_configured :: bool
  pi_default_model :: "string option"

definition list_providers :: "env \<Rightarrow> provider_info list" where
  "list_providers ev = map (\<lambda>n. \<lparr>pi_name = n, pi_configured = (e_providers ev n \<noteq> None),
       pi_default_model = default_model_for n (e_settings ev)\<rparr>)
     (llm_allowed_providers_list (e_settings ev))"

definition list_model_aliases :: "env \<Rightarrow> exn + (string \<times> string \<times> string) list" where
  "list_model_aliases ev = bindE (llm_model_aliases_map (e_settings ev))
     (\<lambda>m. Inr (concat (map (\<lambda>(p, as). map (\<lambda>(a, r). (p, a, r)) as) m)))"

definition get_health :: "env \<Rightarrow> provider_health list app" where
  "get_health ev = gateway_health_check ev None"


section \<open>What a call may raise\<close>

lemma foreign_validation_error [simp]: "foreign_error validation_error"
  by (simp add: validation_error_def)

lemma errs_responses [simp, intro]:
  "errs foreign_error (to_generate_response r)" "errs foreign_error (to_embed_response b)"
  by (auto simp: to_generate_response_def to_embed_response_def tool_calls_to_schema_def optional_str_def
      tool_call_to_schema_def intro!: errs_rules split: json.splits)

lemma errs_routes [simp, intro]:
  "errs foreign_error (route_generate ev g)" "errs foreign_error (route_embed ev e)"
  by (auto simp: route_generate_def route_embed_def to_response_format_def intro!: errs_bindE split: option.splits)

lemma raises_only_except_llm:
  "raises_only P p \<Longrightarrow> (\<And>e. P e \<Longrightarrow> raises_only P (h e)) \<Longrightarrow> raises_only P (except_llm p h)"
  unfolding except_llm_def by (rule raises_only_catchM [of P]) auto

lemma raises_only_recorders:
  "P e \<Longrightarrow> raises_only P (record_unresolved ev k u p m d e)" "P e \<Longrightarrow> raises_only P (record_failure ev r t e)"
  by (auto simp: record_unresolved_def record_failure_def intro!: raises_only_rules)

lemma generate_and_persist_raises:
  assumes "lawful_registry (e_providers ev)"
  shows "raises_only foreign_error (generate_and_persist ev u payload)"
  unfolding generate_and_persist_def Let_def
  by (auto intro!: raises_only_rules raises_only_except_llm raises_only_recorders
      gateway_generate_raises [OF assms])

lemma embed_and_persist_raises:
  assumes "lawful_registry (e_providers ev)"
  shows "raises_only foreign_error (embed_and_persist ev u payload)"
  unfolding embed_and_persist_def Let_def
  by (auto intro!: raises_only_rules raises_only_except_llm raises_only_recorders
      gateway_embed_raises [OF assms])


section \<open>What a call leaves in the audit table\<close>

text \<open>The tables other than \<open>llm_requests\<close> and the rows of other ids.\<close>

definition only_audit_row :: "uuid \<Rightarrow> world \<Rightarrow> world \<Rightarrow> bool" where
  "only_audit_row rid w w' \<longleftrightarrow> w' = w\<lparr>llm_requests := llm_requests w', tick := tick w'\<rparr>
     \<and> (\<forall>k. k \<noteq> rid \<longrightarrow> row_get lr_id k (llm_requests w') = row_get lr_id k (llm_requests w))"

lemma same_tables_requests: "same_tables w w' \<Longrightarrow> llm_requests w' = llm_requests w"
  unfolding same_tables_def by (metis world.select_convs(5) world.surjective world.update_convs(13))

lemma only_audit_row_refl: "same_tables w w' \<Longrightarrow> only_audit_row k w w'"
  unfolding only_audit_row_def using same_tables_requests [of w w'] by (simp add: same_tables_def)

lemma only_audit_row_trans: "only_audit_row k u v \<Longrightarrow> only_audit_row k v w \<Longrightarrow> only_audit_row k u w"
  unfolding only_audit_row_def by (cases u; cases v; cases w) simp

lemma only_audit_row_put:
  "lr_id r = k \<Longrightarrow> only_audit_row k w (w\<lparr>llm_requests := row_put lr_id r (llm_requests w), tick := n\<rparr>)"
  "lr_id r = k \<Longrightarrow> only_audit_row k w (w\<lparr>llm_requests := row_put lr_id r (llm_requests w)\<rparr>)"
  by (simp_all add: only_audit_row_def row_get_put)

lemma record_ids [simp]:
  "lr_id (pending_record k u p m d) = k" "lr_id (unresolved_record k u q m d e t) = k"
  "lr_id (succeeded_record r us c l d t) = lr_id r" "lr_id (failed_record r e l t) = lr_id r"
  by (simp_all add: pending_record_def unresolved_record_def succeeded_record_def failed_record_def)

text \<open>
  How the row of one call ends: settled by the response or by the \<open>LLMError\<close>, and otherwise, when
  some other exception went through, still PENDING or never written.
\<close>

definition audit_outcome :: "uuid \<Rightarrow> world \<Rightarrow> exn + 'a \<Rightarrow> bool" where
  "audit_outcome k w r \<longleftrightarrow> (case r of
       Inr _ \<Rightarrow> \<exists>row. row_get lr_id k (llm_requests w) = Some row \<and> lr_status row = LRS_SUCCEEDED
         \<and> lr_error_code row = None \<and> (\<exists>i q. lr_input_tokens row = Some i \<and> lr_output_tokens row = Some q
            \<and> lr_total_tokens row = Some (i + q))
     | Inl e \<Rightarrow> is_llm_error e \<longrightarrow> (\<exists>row. row_get lr_id k (llm_requests w) = Some row
         \<and> lr_status row = LRS_FAILED \<and> lr_error_code row = Some (exn_name e)))"

lemma settle_call:
  assumes "no_tables call" and "lr_id r = k"
    and "\<And>x t. lr_id (f x t) = k \<and> lr_status (f x t) = LRS_SUCCEEDED \<and> lr_error_code (f x t) = None
      \<and> (\<exists>i q. lr_input_tokens (f x t) = Some i \<and> lr_output_tokens (f x t) = Some q
            \<and> lr_total_tokens (f x t) = Some (i + q))"
    and "\<And>x e. g x = Inl e \<Longrightarrow> e = validation_error"
    and run: "bindM (except_llm call (record_failure ev r started)) (\<lambda>x. bindM (readM (e_now ev)) (\<lambda>t.
      seqM (put_llm_request (f x t)) (liftE (g x)))) w = (res, w')"
  shows "only_audit_row k w w' \<and> audit_outcome k w' res"
proof -
  obtain cr w1 where call: "call w = (cr, w1)" by (cases "call w")
  have st: "only_audit_row k w w1" using no_tablesD [OF assms(1) call] by (rule only_audit_row_refl)
  show ?thesis
  proof (cases cr)
    case (Inr x)
    then have w': "w' = w1\<lparr>llm_requests := row_put lr_id (f x (e_now ev (tick w1))) (llm_requests w1),
        tick := Suc (tick w1)\<rparr>" and res: "res = g x"
      using run call by (auto simp: except_llm_def monad)
    have "only_audit_row k w w'" unfolding w' using assms(3)
      by (intro only_audit_row_trans [OF st only_audit_row_put(1)]) simp
    then show ?thesis using assms(3) [of x] assms(4) [of x]
      by (cases "g x") (auto simp: audit_outcome_def w' res row_get_put validation_error_def is_llm_error_def)
  next
    case (Inl e)
    show ?thesis
    proof (cases "is_llm_error e")
      case True
      let ?r = "failed_record r e (e_mono ev (tick w1) - started) (e_now ev (Suc (tick w1)))"
      have w': "w' = w1\<lparr>llm_requests := row_put lr_id ?r (llm_requests w1), tick := Suc (Suc (tick w1))\<rparr>"
        and res: "res = Inl e"
        using run call Inl True by (auto simp: except_llm_def monad record_failure_def)
      have "only_audit_row k w w'" unfolding w' using assms(2)
        by (intro only_audit_row_trans [OF st only_audit_row_put(1)]) simp
      then show ?thesis using assms(2)
        by (simp add: audit_outcome_def w' res row_get_put) (simp add: failed_record_def)
    next
      case False
      then have "w' = w1" "res = Inl e" using run call Inl by (auto simp: except_llm_def monad)
      then show ?thesis using st False by (simp add: audit_outcome_def)
    qed
  qed
qed

lemma route_failure_audited:
  assumes "bindM (except_llm (liftE (Inl e :: exn + 'a)) (record_unresolved ev k u p m d)) c w = (res, w')"
  shows "only_audit_row k w w' \<and> audit_outcome k w' res"
proof (cases "is_llm_error e")
  case True
  then have w': "res = Inl e" "w' = w\<lparr>llm_requests := row_put lr_id
      (unresolved_record k u p m d e (e_now ev (tick w))) (llm_requests w), tick := Suc (tick w)\<rparr>"
    using assms by (auto simp: record_unresolved_def run except_llm_def catchM_def liftE_def monad)
  show ?thesis
    using True unfolding w' by (simp add: only_audit_row_put audit_outcome_def row_get_put)
      (simp add: unresolved_record_def)
next
  case False
  then have "w' = w \<and> res = Inl e" using assms by (auto simp: except_llm_def monad)
  then show ?thesis using False by (simp add: audit_outcome_def only_audit_row_refl)
qed

lemma to_generate_response_raises: "to_generate_response r = Inl e \<Longrightarrow> e = validation_error"
proof -
  have calls: "mapE tool_call_to_schema cs = Inl e \<Longrightarrow> e = validation_error" for cs e
    by (induction cs arbitrary: e)
      (auto simp: tool_call_to_schema_def split: sum.splits json.splits)
  assume "to_generate_response r = Inl e"
  then show ?thesis
    by (auto simp: to_generate_response_def bindE_def tool_calls_to_schema_def optional_str_def
        dest: calls split: sum.splits json.splits if_splits)
qed

lemma to_embed_response_raises: "to_embed_response r = Inl e \<Longrightarrow> e = validation_error"
  by (auto simp: to_embed_response_def optional_str_def bindE_def split: sum.splits json.splits)

lemma succeeded_record_settled:
  "lr_error_code r = None \<Longrightarrow> lr_id (succeeded_record r us c l d t) = lr_id r
     \<and> lr_status (succeeded_record r us c l d t) = LRS_SUCCEEDED
     \<and> lr_error_code (succeeded_record r us c l d t) = None
     \<and> (\<exists>i q. lr_input_tokens (succeeded_record r us c l d t) = Some i
          \<and> lr_output_tokens (succeeded_record r us c l d t) = Some q
          \<and> lr_total_tokens (succeeded_record r us c l d t) = Some (i + q))"
  by (simp add: succeeded_record_def us_total_tokens_def)

text \<open>Past the routing, both services are a PENDING row and then one settled call.\<close>

lemma after_pending:
  assumes "no_tables call"
    and "\<And>x e. to_g x = Inl e \<Longrightarrow> e = validation_error"
    and "seqM (put_llm_request (pending_record k u p m d))
       (bindM (readM (e_mono ev)) (\<lambda>started.
        bindM (except_llm call (record_failure ev (pending_record k u p m d) started)) (\<lambda>x.
        bindM (readM (e_now ev)) (\<lambda>t.
        seqM (put_llm_request (succeeded_record (pending_record k u p m d) (us x) (co x) (la x) (me x) t))
          (liftE (to_g x)))))) w = (res, w')"
  shows "only_audit_row k w w' \<and> audit_outcome k w' res"
proof -
  let ?r = "pending_record k u p m d"
  let ?w = "w\<lparr>llm_requests := row_put lr_id ?r (llm_requests w), tick := Suc (tick w)\<rparr>"
  have "bindM (except_llm call (record_failure ev ?r (e_mono ev (tick w)))) (\<lambda>x.
      bindM (readM (e_now ev)) (\<lambda>t. seqM (put_llm_request (succeeded_record ?r (us x) (co x) (la x) (me x) t))
        (liftE (to_g x)))) ?w = (res, w')"
    using assms(3) by (simp add: run)
  then have "only_audit_row k ?w w' \<and> audit_outcome k w' res"
  proof (rule settle_call [OF assms(1) _ _ assms(2), rotated -1])
    show "lr_id (pending_record k u p m d) = k" by simp
    show "lr_id (succeeded_record ?r (us x) (co x) (la x) (me x) t) = k
      \<and> lr_status (succeeded_record ?r (us x) (co x) (la x) (me x) t) = LRS_SUCCEEDED
      \<and> lr_error_code (succeeded_record ?r (us x) (co x) (la x) (me x) t) = None
      \<and> (\<exists>i q. lr_input_tokens (succeeded_record ?r (us x) (co x) (la x) (me x) t) = Some i
          \<and> lr_output_tokens (succeeded_record ?r (us x) (co x) (la x) (me x) t) = Some q
          \<and> lr_total_tokens (succeeded_record ?r (us x) (co x) (la x) (me x) t) = Some (i + q))" for x t
      using succeeded_record_settled [of ?r] by (simp add: pending_record_def)
  qed
  then show ?thesis
    using only_audit_row_trans [OF only_audit_row_put(1) [of ?r k w "Suc (tick w)"]] by simp
qed

lemma generate_and_persist_audited:
  assumes "lawful_registry (e_providers ev)" and "generate_and_persist ev u payload w = (res, w')"
  shows "only_audit_row (e_uuid ev (tick w)) w w' \<and> audit_outcome (e_uuid ev (tick w)) w' res"
proof -
  let ?k = "e_uuid ev (tick w)" and ?w = "w\<lparr>tick := Suc (tick w)\<rparr>"
  have "only_audit_row ?k ?w w' \<and> audit_outcome ?k w' res"
  proof (cases "route_generate ev payload")
    case (Inl e)
    show ?thesis
      by (rule route_failure_audited, use assms(2) Inl in
          \<open>simp add: generate_and_persist_def run_readM\<close>)
  next
    case (Inr pmf)
    obtain p m f where pmf: "pmf = (p, m, f)" by (cases pmf)
    show ?thesis
      using assms(2) Inr pmf
      by (simp only: generate_and_persist_def Let_def run_readM run_except_llm bindM_ret case_prod_conv)
        (rule after_pending [where to_g = to_generate_response, OF no_tables_gateway_generate [OF assms(1)]],
          erule to_generate_response_raises, assumption)
  qed
  then show ?thesis using only_audit_row_trans [OF only_audit_row_refl [of w ?w]] by simp
qed

lemma embed_and_persist_audited:
  assumes "lawful_registry (e_providers ev)" and "embed_and_persist ev u payload w = (res, w')"
  shows "only_audit_row (e_uuid ev (tick w)) w w' \<and> audit_outcome (e_uuid ev (tick w)) w' res"
proof -
  let ?k = "e_uuid ev (tick w)" and ?w = "w\<lparr>tick := Suc (tick w)\<rparr>"
  have "only_audit_row ?k ?w w' \<and> audit_outcome ?k w' res"
  proof (cases "route_embed ev payload")
    case (Inl e)
    show ?thesis
      by (rule route_failure_audited, use assms(2) Inl in
          \<open>simp add: embed_and_persist_def run_readM\<close>)
  next
    case (Inr pm)
    obtain p m where pm: "pm = (p, m)" by (cases pm)
    show ?thesis
      using assms(2) Inr pm
      by (simp only: embed_and_persist_def Let_def run_readM run_except_llm bindM_ret case_prod_conv)
        (rule after_pending [where to_g = to_embed_response, OF no_tables_gateway_embed [OF assms(1)]],
          erule to_embed_response_raises, assumption)
  qed
  then show ?thesis using only_audit_row_trans [OF only_audit_row_refl [of w ?w]] by simp
qed

section \<open>Properties\<close>

definition demo_generate :: generate_request where
  "demo_generate = \<lparr>gr_provider = None, gr_model = ''m'', gr_system_prompt = None,
     gr_messages = [\<lparr>m_role = ''user'', m_content = ''hello there''\<rparr>], gr_temperature = None,
     gr_max_tokens = None, gr_response_format = None, gr_tools = None, gr_metadata = []\<rparr>"

definition demo_embed :: embed_request where
  "demo_embed = \<lparr>er_provider = None, er_model = ''m'', er_input = ManyTexts [], er_metadata = []\<rparr>"

definition returned :: "exn + 'a \<Rightarrow> bool" where
  "returned r = (case r of Inl _ \<Rightarrow> False | Inr _ \<Rightarrow> True)"



text \<open>
  An audited embedding call keeps the same promise as a generation: one row, settled as
  SUCCEEDED or FAILED with what was returned or raised.
\<close>

theorem embedding_is_audited:
  assumes "lawful_registry (e_providers ev)" and "embed_and_persist ev u payload w = (res, w')"
  shows "only_audit_row (e_uuid ev (tick w)) w w' \<and> audit_outcome (e_uuid ev (tick w)) w' res"
  using assms by (rule embed_and_persist_audited)

lemma embedding_is_audited_witness:
  "returned (fst (embed_and_persist demo_env ''alice'' demo_embed empty_world))
   \<and> audit_outcome (e_uuid demo_env 0) (snd (embed_and_persist demo_env ''alice'' demo_embed empty_world))
       (fst (embed_and_persist demo_env ''alice'' demo_embed empty_world))"
proof
  show "returned (fst (embed_and_persist demo_env ''alice'' demo_embed empty_world))"
    by code_simp
  show "audit_outcome (e_uuid demo_env 0)
      (snd (embed_and_persist demo_env ''alice'' demo_embed empty_world))
      (fst (embed_and_persist demo_env ''alice'' demo_embed empty_world))"
    using embedding_is_audited [where u = "''alice''" and payload = demo_embed and w = empty_world,
        OF demo_env_lawful prod.collapse [symmetric]]
    by (simp add: empty_world_def)
qed

text \<open>
  A caller who is not an admin only ever reads back their own audit rows, and reading changes
  nothing.
\<close>

theorem audit_rows_are_private:
  assumes "u_role current \<noteq> ADMIN" and "get_request rid current w = (Inr r, w')"
  shows "lr_user_id r = Some (u_id current) \<and> lr_id r = rid \<and> w' = w"
  using assms row_get_SomeD [of lr_id rid "llm_requests w"]
  by (auto simp: get_request_def monad split: option.splits if_splits)

lemma audit_rows_are_private_witness:
  "lr_user_id (pending_record ''k'' ''alice'' ''fake'' ''m'' []) = Some ''alice''"
proof -
  let ?r = "pending_record ''k'' ''alice'' ''fake'' ''m'' []"
  let ?u = "\<lparr>u_id = ''alice'', u_email = [], u_hashed_password = [], u_full_name = [], u_role = VIEWER,
     u_status = US_ACTIVE, u_is_verified = True, u_last_login_at = None\<rparr>"
  have "get_request ''k'' ?u (empty_world\<lparr>llm_requests := [?r]\<rparr>) = (Inr ?r, empty_world\<lparr>llm_requests := [?r]\<rparr>)"
    by (simp add: get_request_def monad) (simp add: pending_record_def)
  from audit_rows_are_private [OF _ this] show ?thesis by simp
qed

end
