(* ===== verification/Mcp.thy ===== *)
theory Mcp
  imports Gateway
begin

text \<open>
  \<open>app/mcp/client.py\<close> and \<open>app/mcp/factory.py\<close>: the stateless JSON-RPC client of a configured MCP
  server. Every call makes its own handshake (initialize, then the initialized notification) before
  the request proper; replies are JSON documents from outside, taken apart with Python's dynamic
  operations.
\<close>

record mcp_tool =
  mt_name :: string
  mt_description :: string
  mt_input_schema :: jdict

record mcp_tool_result =
  mr_content :: string
  mr_is_error :: bool


section \<open>The factory\<close>

text \<open>A dict comprehension: of two entries with the same name the last one's value stays.\<close>

definition server_registry :: "settings \<Rightarrow> exn + (string \<times> mcp_server_entry) list" where
  "server_registry st = bindE (mcp_servers_list st)
     (\<lambda>es. Inr (foldl (\<lambda>d e. dict_set d (se_name e) e) [] es))"

definition list_configured_servers :: "settings \<Rightarrow> exn + mcp_server_entry list" where
  "list_configured_servers st = bindE (server_registry st) (\<lambda>d. Inr (map snd d))"

definition build_mcp_client :: "string \<Rightarrow> settings \<Rightarrow> exn + mcp_server_entry" where
  "build_mcp_client name st = bindE (server_registry st) (\<lambda>d.
     case map_of d name of None \<Rightarrow> Inl (MCP (MCPServerNotConfigured name)) | Some c \<Rightarrow> Inr c)"


section \<open>Requests\<close>

text \<open>\<open>'k' in body\<close>: a member of a list, a key of a dict, a part of a text.\<close>

definition contains_text :: "string \<Rightarrow> string \<Rightarrow> bool" where
  "contains_text p s = list_ex (\<lambda>i. take (length p) (drop i s) = p) [0..<Suc (length s)]"

definition py_in :: "string \<Rightarrow> json \<Rightarrow> exn + bool" where
  "py_in k v =
     (case v of
        JObj d \<Rightarrow> Inr (has_key d k)
      | JArr xs \<Rightarrow> Inr (JStr k \<in> set xs)
      | JStr s \<Rightarrow> Inr (contains_text k s)
      | _ \<Rightarrow> Inl (PyExc ''TypeError'' (''argument of type '' @ repr_str (py_type_name v) @ '' is not iterable'')))"

definition mcp_post :: "env \<Rightarrow> mcp_server_entry \<Rightarrow> json \<Rightarrow> int set \<Rightarrow> string app" where
  "mcp_post ev c payload expected =
     bindM (readM (e_mcp_http ev c payload)) (\<lambda>r. case r of
         HttpTimeout \<Rightarrow> raise (MCP (MCPTimeoutError (se_name c)))
       | HttpRequestError msg \<Rightarrow> raise (MCP (MCPConnectionError (se_name c) msg))
       | HttpResponse status _ text \<Rightarrow>
           if status \<notin> expected
           then raise (MCP (MCPProtocolError (se_name c) (''HTTP '' @ show_int status)))
           else ret text)"

text \<open>The body of a JSON-RPC answer; \<open>what\<close> names the call in the error message.\<close>

definition mcp_body :: "mcp_server_entry \<Rightarrow> string \<Rightarrow> string \<Rightarrow> exn + json" where
  "mcp_body c what text =
     (case json_loads text of
        None \<Rightarrow> Inl (MCP (MCPProtocolError (se_name c) (what @ '': response body was not valid JSON'')))
      | Some body \<Rightarrow> Inr body)"

definition rpc :: "string \<Rightarrow> int \<Rightarrow> jdict \<Rightarrow> json" where
  "rpc method i params = JObj [(''jsonrpc'', JStr ''2.0''), (''id'', JInt i), (''method'', JStr method),
     (''params'', JObj params)]"

definition initialize_payload :: json where
  "initialize_payload = rpc ''initialize'' 1
     [(''protocolVersion'', JStr ''2025-06-18''), (''capabilities'', JObj []),
      (''clientInfo'', JObj [(''name'', JStr ''packverse-platform''), (''version'', JStr ''0.1.0'')])]"

definition initialize :: "env \<Rightarrow> mcp_server_entry \<Rightarrow> unit app" where
  "initialize ev c =
     bindM (mcp_post ev c initialize_payload {200}) (\<lambda>text.
     bindM (liftE (bindE (mcp_body c ''initialize'' text) (\<lambda>body.
       bindE (py_in ''error'' body) (\<lambda>failed.
       if failed then bindE (py_index body ''error'') (\<lambda>err.
         Inl (MCP (MCPProtocolError (se_name c) (''initialize failed: '' @ py_str err))))
       else bindE (py_in ''result'' body) (\<lambda>ok.
         if \<not> ok then Inl (MCP (MCPProtocolError (se_name c) ''initialize: no result in response''))
         else Inr ()))))) (\<lambda>_.
     bindM (mcp_post ev c (JObj [(''jsonrpc'', JStr ''2.0''),
              (''method'', JStr ''notifications/initialized'')]) {200, 202}) (\<lambda>_. ret ())))"

text \<open>\<open>except (KeyError, TypeError)\<close> around the parsing of an answer.\<close>

definition malformed :: "mcp_server_entry \<Rightarrow> string \<Rightarrow> exn + 'a \<Rightarrow> exn + 'a" where
  "malformed c what r =
     (case r of
        Inl (PyExc n msg) \<Rightarrow>
          if n \<in> {''KeyError'', ''TypeError''}
          then Inl (MCP (MCPProtocolError (se_name c) (''malformed '' @ what @ '' response: '' @ msg)))
          else Inl (PyExc n msg)
      | _ \<Rightarrow> r)"

definition mcp_tool_of :: "json \<Rightarrow> exn + mcp_tool" where
  "mcp_tool_of t =
     bindE (py_index t ''name'') (\<lambda>n. bindE (py_get t ''description'' (JStr [])) (\<lambda>d.
     bindE (py_get t ''inputSchema'' JNull) (\<lambda>s. bindE (py_dict (py_or s (JObj []))) (\<lambda>schema.
     Inr \<lparr>mt_name = py_str n, mt_description = py_str d, mt_input_schema = schema\<rparr>))))"

definition parse_tools :: "mcp_server_entry \<Rightarrow> string \<Rightarrow> exn + mcp_tool list" where
  "parse_tools c text =
     bindE (mcp_body c ''tools/list'' text) (\<lambda>body.
     bindE (py_in ''error'' body) (\<lambda>failed.
     if failed then bindE (py_index body ''error'') (\<lambda>err.
       Inl (MCP (MCPProtocolError (se_name c) (''tools/list failed: '' @ py_str err))))
     else malformed c ''tools/list''
       (bindE (py_index body ''result'') (\<lambda>res. bindE (py_index res ''tools'') (\<lambda>raw.
        bindE (py_iter raw) (mapE mcp_tool_of))))))"

definition list_tools :: "env \<Rightarrow> mcp_server_entry \<Rightarrow> mcp_tool list app" where
  "list_tools ev c =
     seqM (initialize ev c)
       (bindM (mcp_post ev c (rpc ''tools/list'' 2 []) {200}) (\<lambda>text. liftE (parse_tools c text)))"

definition text_block :: "json \<Rightarrow> bool" where
  "text_block b = (case b of JObj d \<Rightarrow> dict_get d ''type'' = JStr ''text'' | _ \<Rightarrow> False)"

definition parse_tool_result :: "mcp_server_entry \<Rightarrow> string \<Rightarrow> string \<Rightarrow> exn + mcp_tool_result" where
  "parse_tool_result c tool text =
     bindE (mcp_body c ''tools/call'' text) (\<lambda>body.
     bindE (py_in ''error'' body) (\<lambda>failed.
     if failed then bindE (py_index body ''error'') (\<lambda>err.
       Inl (MCP (MCPToolCallError (se_name c) tool (py_str err))))
     else malformed c ''tools/call''
       (bindE (py_index body ''result'') (\<lambda>res. bindE (py_index res ''content'') (\<lambda>blocks.
        case blocks of
          JArr bs \<Rightarrow>
            bindE (mapE (\<lambda>b. bindE (py_index b ''text'') (\<lambda>t. Inr (py_str t))) (filter text_block bs)) (\<lambda>texts.
            bindE (py_get res ''isError'' (JBool False)) (\<lambda>e.
            Inr \<lparr>mr_content = concat texts, mr_is_error = truthy e\<rparr>))
        | _ \<Rightarrow> Inl (PyExc ''TypeError'' ''content must be a list''))))))"

definition call_tool :: "env \<Rightarrow> mcp_server_entry \<Rightarrow> string \<Rightarrow> jdict \<Rightarrow> mcp_tool_result app" where
  "call_tool ev c tool arguments =
     seqM (initialize ev c)
       (bindM (mcp_post ev c (rpc ''tools/call'' 2 [(''name'', JStr tool), (''arguments'', JObj arguments)]) {200})
         (\<lambda>text. liftE (parse_tool_result c tool text)))"


section \<open>The client leaves the database alone\<close>

lemma no_tables_seqM: "no_tables p \<Longrightarrow> no_tables q \<Longrightarrow> no_tables (seqM p q)"
  by (simp add: seqM_def no_tables_bindM)

lemma no_tables_mcp_post [simp, intro]: "no_tables (mcp_post ev c payload expected)"
  by (auto simp: mcp_post_def intro!: no_tables_bindM split: http_result.splits)

lemma no_tables_initialize [simp, intro]: "no_tables (initialize ev c)"
  by (auto simp: initialize_def intro!: no_tables_bindM)

lemma no_tables_list_tools [simp, intro]: "no_tables (list_tools ev c)"
  by (auto simp: list_tools_def intro!: no_tables_bindM no_tables_seqM)

lemma no_tables_call_tool [simp, intro]: "no_tables (call_tool ev c tool args)"
  by (auto simp: call_tool_def intro!: no_tables_bindM no_tables_seqM)

text \<open>The client raises its own errors and those of Python.\<close>

definition mcp_error_kind :: "exn \<Rightarrow> bool" where
  "mcp_error_kind e = (case e of MCP _ \<Rightarrow> True | PyExc _ _ \<Rightarrow> True | _ \<Rightarrow> False)"

lemma mcp_error_kind_simps [simp]: "mcp_error_kind (MCP m)" "mcp_error_kind (PyExc n t)"
  by (simp_all add: mcp_error_kind_def)

lemma errs_py_mcp: "errs py_error r \<Longrightarrow> errs mcp_error_kind r"
  by (auto simp: errs_def py_error_def mcp_error_kind_def split: exn.splits)

lemma errs_mcp_dynamic [simp, intro]:
  "errs mcp_error_kind (py_index v k)" "errs mcp_error_kind (py_get v k d)" "errs mcp_error_kind (py_iter v)"
  "errs mcp_error_kind (py_dict v)" "errs mcp_error_kind (py_in k v)"
  by (auto intro!: errs_py_mcp simp: py_in_def split: json.splits)

lemma errs_malformed: "errs mcp_error_kind r \<Longrightarrow> errs mcp_error_kind (malformed c what r)"
  by (cases r) (auto simp: malformed_def split: exn.splits)

lemma errs_mcp_body [simp, intro]: "errs mcp_error_kind (mcp_body c what text)"
  by (simp add: mcp_body_def split: option.splits)

lemma mcp_post_raises [simp, intro]: "raises_only mcp_error_kind (mcp_post ev c payload expected)"
  by (auto simp: mcp_post_def intro!: raises_only_bindM split: http_result.splits)

lemma initialize_raises [simp, intro]: "raises_only mcp_error_kind (initialize ev c)"
  by (auto simp: initialize_def intro!: raises_only_bindM errs_rules)

lemma list_tools_raises: "raises_only mcp_error_kind (list_tools ev c)"
  by (auto simp: list_tools_def parse_tools_def mcp_tool_of_def intro!: raises_only_rules errs_rules errs_malformed)

lemma call_tool_raises: "raises_only mcp_error_kind (call_tool ev c tool args)"
  by (auto simp: call_tool_def parse_tool_result_def intro!: raises_only_rules errs_rules errs_malformed
      split: json.splits)

lemma build_mcp_client_raises: "errs mcp_error_kind (build_mcp_client n st)"
proof -
  have "errs mcp_error_kind (mcp_server_of v)" for v
    by (cases v) (simp_all add: mcp_server_of_def)
  moreover have "errs mcp_error_kind (loads_or_raise t)" for t by (intro errs_py_mcp errs_dynamic)
  ultimately show ?thesis
    by (auto simp: build_mcp_client_def server_registry_def mcp_servers_list_def intro!: errs_rules
        split: option.splits)
qed

end
