(* ===== verification/Runtime.thy ===== *)
theory Runtime
  imports LlmService Lifecycle Mcp
begin

text \<open>
  \<open>app/runtime/prompt_builder.py\<close> and \<open>app/runtime/service.py\<close>: building the gateway request of an
  agent, and creating, reading, listing and cancelling agent runs.
\<close>

section \<open>app/runtime/prompt_builder.py\<close>

definition require_config :: "agent_definition \<Rightarrow> exn + jdict" where
  "require_config ag =
     (let config = ag_configuration ag;
          missing = filter (\<lambda>k. \<not> truthy (dict_get config k)) [''system_prompt'', ''model'']
      in if missing \<noteq> []
         then Inl (Runtime (AgentConfigurationError (ag_id ag)
                (''configuration_json missing required key(s): '' @ join '', '' missing)))
         else Inr config)"

definition render_user_message :: "string \<Rightarrow> jdict option \<Rightarrow> string" where
  "render_user_message user_input context =
     (case context of
        None \<Rightarrow> user_input
      | Some d \<Rightarrow>
          if d = [] then user_input
          else user_input @ newline2 @ ''---'' @ [CHR 0x0A] @ ''Context:'' @ [CHR 0x0A]
                 @ json_dumps 0 (JObj d))"

definition float_if_number :: "json \<Rightarrow> rat option" where
  "float_if_number v = num_key v"

definition int_if_int :: "json \<Rightarrow> int option" where
  "int_if_int v = (if is_int v then Some (int_of v) else None)"

definition build_generate_request ::
  "agent_definition \<Rightarrow> string \<Rightarrow> jdict option \<Rightarrow> tool_definition list option \<Rightarrow> exn + generate_request" where
  "build_generate_request ag user_input context tools =
     bindE (require_config ag) (\<lambda>config.
     construct_generate_request
       \<lparr>gr_provider = opt_str (dict_get config ''provider''),
        gr_model = py_str (dict_get config ''model''),
        gr_system_prompt = Some (py_str (dict_get config ''system_prompt'')),
        gr_messages = [\<lparr>m_role = ''user'', m_content = render_user_message user_input context\<rparr>],
        gr_temperature = float_if_number (dict_get config ''temperature''),
        gr_max_tokens = int_if_int (dict_get config ''max_tokens''),
        gr_response_format = None,
        gr_tools = tools,
        gr_metadata = [(''agent_id'', JStr (ag_id ag)), (''agent_name'', JStr (ag_name ag))]\<rparr>)"


section \<open>app/runtime/service.py\<close>

definition MAX_PAGE_SIZE :: int where
  "MAX_PAGE_SIZE = 100"

definition page_limit :: "int \<Rightarrow> int" where
  "page_limit limit = min (max limit 1) MAX_PAGE_SIZE"

definition page_offset :: "int \<Rightarrow> int" where
  "page_offset offset = max offset 0"

definition page_of :: "int \<Rightarrow> int \<Rightarrow> 'a list \<Rightarrow> 'a list" where
  "page_of limit offset rows = take (nat (page_limit limit)) (drop (nat (page_offset offset)) rows)"

definition get_active_agent :: "uuid \<Rightarrow> agent_definition app" where
  "get_active_agent aid =
     bindM (getM (\<lambda>w. row_get ag_id aid (agents w))) (\<lambda>r. case r of
         None \<Rightarrow> raise (Runtime (AgentNotFoundError aid))
       | Some ag \<Rightarrow> if ag_status ag \<noteq> AS_ACTIVE then raise (Runtime (AgentNotActiveError aid)) else ret ag)"

definition new_agent_run :: "uuid \<Rightarrow> uuid \<Rightarrow> uuid \<Rightarrow> time \<Rightarrow> agent_run" where
  "new_agent_run rid aid user now =
     \<lparr>ar_id = rid, ar_agent_id = aid, ar_created_by = Some user, ar_status = AR_QUEUED,
      ar_llm_request_id = None, ar_provider = None, ar_model = None, ar_input_tokens = None,
      ar_output_tokens = None, ar_total_tokens = None, ar_cost = None, ar_output_text = None,
      ar_tool_calls = None, ar_error_code = None, ar_error_message = None, ar_duration_ms = None,
      ar_started_at = None, ar_completed_at = None, ar_created_at = now\<rparr>"

definition create_run :: "env \<Rightarrow> uuid \<Rightarrow> uuid \<Rightarrow> agent_run app" where
  "create_run ev aid user =
     bindM (get_active_agent aid) (\<lambda>_.
     bindM (readM (e_uuid ev)) (\<lambda>rid. bindM (readM (e_now ev)) (\<lambda>now.
     let run = new_agent_run rid aid user now in seqM (put_agent_run run) (ret run))))"

text \<open>Who may see a run: an admin, and the user who created it.\<close>

definition visible_to :: "user \<Rightarrow> uuid option \<Rightarrow> bool" where
  "visible_to current owner \<longleftrightarrow> u_role current = ADMIN \<or> owner = Some (u_id current)"

definition get_run :: "uuid \<Rightarrow> user \<Rightarrow> agent_run app" where
  "get_run rid current =
     bindM (getM (\<lambda>w. row_get ar_id rid (agent_runs w))) (\<lambda>r. case r of
         None \<Rightarrow> raise (Runtime (AgentRunNotFoundError rid))
       | Some run \<Rightarrow>
           if \<not> visible_to current (ar_created_by run)
           then raise (Runtime (AgentRunNotFoundError rid)) else ret run)"

definition list_runs :: "user \<Rightarrow> int \<Rightarrow> int \<Rightarrow> (agent_run list \<times> nat) app" where
  "list_runs current limit offset =
     getM (\<lambda>w. let rows = filter (\<lambda>r. visible_to current (ar_created_by r)) (agent_runs w)
               in (page_of limit offset (order_by (\<lambda>r. - ar_created_at r) rows), length rows))"

definition cancelled_run :: "time \<Rightarrow> agent_run \<Rightarrow> agent_run" where
  "cancelled_run now run =
     run\<lparr>ar_status := AR_CANCELLED, ar_completed_at := Some now,
         ar_duration_ms := (case ar_started_at run of None \<Rightarrow> ar_duration_ms run
                            | Some t \<Rightarrow> Some (to_ms (now - t)))\<rparr>"

definition cancel_run :: "env \<Rightarrow> uuid \<Rightarrow> user \<Rightarrow> agent_run app" where
  "cancel_run ev rid current =
     bindM (get_run rid current) (\<lambda>run.
     bindM (liftE (validate_transition (ar_status run) AR_CANCELLED)) (\<lambda>_.
     bindM (readM (e_now ev)) (\<lambda>now.
     let run' = cancelled_run now run in seqM (put_agent_run run') (ret run'))))"


section \<open>Lemmas\<close>

lemma length_page_of: "length (page_of limit offset rows) \<le> nat MAX_PAGE_SIZE"
  by (simp add: page_of_def page_limit_def MAX_PAGE_SIZE_def)

lemma set_page_of: "set (page_of limit offset rows) \<subseteq> set rows"
  by (auto simp: page_of_def dest!: in_set_takeD in_set_dropD)

lemma sorted_page_of: "sorted (map f rows) \<Longrightarrow> sorted (map f (page_of limit offset rows))"
  by (simp add: page_of_def take_map [symmetric] drop_map [symmetric])

lemma get_run_visible:
  "get_run rid current w = (Inr run, w') \<Longrightarrow>
     w' = w \<and> row_get ar_id rid (agent_runs w) = Some run \<and> visible_to current (ar_created_by run)"
  by (auto simp: get_run_def monad split: option.splits if_splits)

lemma get_active_agent_cases:
  "get_active_agent aid w = (r, w') \<Longrightarrow> w' = w \<and>
     (case r of Inr ag \<Rightarrow> row_get ag_id aid (agents w) = Some ag \<and> ag_status ag = AS_ACTIVE
      | Inl e \<Rightarrow> e = Runtime (AgentNotFoundError aid) \<or> e = Runtime (AgentNotActiveError aid))"
  by (auto simp: get_active_agent_def monad split: option.splits if_splits)

lemma build_generate_request_valid:
  "build_generate_request ag inp ctx tools = Inr r \<Longrightarrow> valid_generate_request r \<and> gr_tools r = tools"
  by (auto simp: build_generate_request_def construct_generate_request_def bindE_def
      split: sum.splits if_splits)

end
