(* ===== verification/RuntimeExecutor.thy ===== *)
theory RuntimeExecutor
  imports Runtime
begin

text \<open>
  \<open>app/runtime/executor.py\<close>: running a queued agent run. The tool loop accumulates trace and usage
  in an object that survives an exception, so the loop runs on the pair of the database and that
  object (\<open>loop\<close>); \<open>in_loop\<close> runs a database operation inside it.
\<close>

section \<open>Usage\<close>

record loop_usage =
  lu_trace :: "tool_trace list"
  lu_calls_made :: int
  lu_input_tokens :: int
  lu_output_tokens :: int
  lu_cost :: "rat option"

definition no_usage :: loop_usage where
  "no_usage = \<lparr>lu_trace = [], lu_calls_made = 0, lu_input_tokens = 0, lu_output_tokens = 0, lu_cost = Some 0\<rparr>"

definition record_call :: "generate_response \<Rightarrow> loop_usage \<Rightarrow> loop_usage" where
  "record_call r u =
     u\<lparr>lu_calls_made := lu_calls_made u + 1,
       lu_input_tokens := lu_input_tokens u + gs_input_tokens r,
       lu_output_tokens := lu_output_tokens u + gs_output_tokens r,
       lu_cost := (case gs_cost r of None \<Rightarrow> None
                   | Some c \<Rightarrow> (case lu_cost u of None \<Rightarrow> None | Some t \<Rightarrow> Some (t + c)))\<rparr>"

definition persist_tool_loop_usage :: "loop_usage \<Rightarrow> agent_run \<Rightarrow> agent_run" where
  "persist_tool_loop_usage u run =
     (if lu_calls_made u = 0 then run
      else run\<lparr>ar_input_tokens := Some (lu_input_tokens u), ar_output_tokens := Some (lu_output_tokens u),
               ar_total_tokens := Some (lu_input_tokens u + lu_output_tokens u), ar_cost := lu_cost u,
               ar_tool_calls := (if lu_trace u = [] then None else Some (lu_trace u))\<rparr>)"

type_synonym 'a loop = "(world \<times> loop_usage, exn, 'a) m"

definition in_loop :: "'a app \<Rightarrow> 'a loop" where
  "in_loop p s = (case p (fst s) of (r, w) \<Rightarrow> (r, (w, snd s)))"

definition change_usage :: "(loop_usage \<Rightarrow> loop_usage) \<Rightarrow> unit loop" where
  "change_usage f = modifyM (\<lambda>s. (fst s, f (snd s)))"


section \<open>The tool loop\<close>

definition tool_message :: "tool_call_out \<Rightarrow> mcp_tool_result \<Rightarrow> message" where
  "tool_message call res =
     \<lparr>m_role = ''user'',
      m_content = ''Tool '' @ repr_str (to_name call) @ '' was called with ''
        @ py_repr (JObj (to_arguments call)) @ '' and returned: '' @ mr_content res\<rparr>"

definition trace_entry :: "int \<Rightarrow> string \<Rightarrow> tool_call_out \<Rightarrow> mcp_tool_result \<Rightarrow> tool_trace" where
  "trace_entry iteration rid call res =
     \<lparr>tt_iteration = iteration, tt_llm_request_id = rid, tt_tool_name = to_name call,
      tt_arguments = to_arguments call, tt_result = mr_content res, tt_is_error = mr_is_error res\<rparr>"

fun call_tools :: "env \<Rightarrow> mcp_server_entry \<Rightarrow> int \<Rightarrow> string \<Rightarrow> tool_call_out list \<Rightarrow> message list loop" where
  "call_tools ev c iteration rid [] = ret []"
| "call_tools ev c iteration rid (call # calls) =
     bindM (in_loop (call_tool ev c (to_name call) (to_arguments call))) (\<lambda>res.
     seqM (change_usage (\<lambda>u. u\<lparr>lu_trace := lu_trace u @ [trace_entry iteration rid call res]\<rparr>))
     (bindM (call_tools ev c iteration rid calls) (\<lambda>ms. ret (tool_message call res # ms))))"

text \<open>\<open>n\<close> is the number of iterations left; \<open>iteration\<close> counts from 1.\<close>

fun loop_from ::
  "env \<Rightarrow> agent_definition \<Rightarrow> mcp_server_entry option \<Rightarrow> uuid \<Rightarrow> nat \<Rightarrow> int \<Rightarrow> generate_request \<Rightarrow>
     generate_response loop" where
  "loop_from ev ag client owner 0 iteration payload =
     raise (Runtime (ToolLoopLimitExceededError (ag_id ag) (s_runtime_max_tool_iterations (e_settings ev))))"
| "loop_from ev ag client owner (Suc n) iteration payload =
     bindM (in_loop (generate_and_persist ev owner payload)) (\<lambda>response.
     seqM (change_usage (record_call response))
     (if \<not> tools_truthy (gs_tool_calls response) then ret response
      else (case client of
              None \<Rightarrow> raise (Runtime (RuntimeDomainError (''Agent '' @ ag_id ag
                @ '' received tool_calls from the provider but has no mcp_server configured to execute them'')))
            | Some c \<Rightarrow>
                bindM (call_tools ev c iteration (gs_request_id response) (the (gs_tool_calls response)))
                  (\<lambda>ms. loop_from ev ag client owner n (iteration + 1)
                          (payload\<lparr>gr_messages := gr_messages payload @ ms\<rparr>)))))"

definition tool_definition_in :: "mcp_tool \<Rightarrow> exn + tool_definition" where
  "tool_definition_in t =
     (let d = \<lparr>td_name = mt_name t, td_description = mt_description t, td_input_schema = mt_input_schema t\<rparr>
      in if valid_tool_definition d then Inr d else Inl validation_error)"

definition offered_tools :: "env \<Rightarrow> agent_definition \<Rightarrow>
    (tool_definition list option \<times> mcp_server_entry option) app" where
  "offered_tools ev ag =
     (case dict_get (ag_configuration ag) ''mcp_server'' of
        JStr name \<Rightarrow>
          if name = [] then ret (None, None)
          else bindM (liftE (build_mcp_client name (e_settings ev))) (\<lambda>c.
               bindM (list_tools ev c) (\<lambda>ts.
               bindM (liftE (mapE tool_definition_in ts)) (\<lambda>ds. ret (Some ds, Some c))))
      | _ \<Rightarrow> ret (None, None))"

definition run_tool_loop ::
  "env \<Rightarrow> agent_definition \<Rightarrow> string \<Rightarrow> jdict option \<Rightarrow> uuid \<Rightarrow> generate_response loop" where
  "run_tool_loop ev ag user_input context owner =
     bindM (in_loop (offered_tools ev ag)) (\<lambda>(tools, client).
     bindM (liftE (build_generate_request ag user_input context tools)) (\<lambda>payload.
     loop_from ev ag client owner (nat (s_runtime_max_tool_iterations (e_settings ev))) 1 payload))"


section \<open>Executing a run\<close>

text \<open>\<open>except (LLMError, RuntimeDomainError, MCPError)\<close>, and the error re-raised.\<close>

definition run_error :: "exn \<Rightarrow> bool" where
  "run_error e = (case e of LLM _ \<Rightarrow> True | Runtime _ \<Rightarrow> True | MCP _ \<Rightarrow> True | _ \<Rightarrow> False)"

definition reraised :: "exn \<Rightarrow> exn" where
  "reraised e = (case e of MCP m \<Rightarrow> Runtime (RuntimeDomainError (exn_str e)) | _ \<Rightarrow> e)"

definition running_run :: "time \<Rightarrow> agent_run \<Rightarrow> agent_run" where
  "running_run now run = run\<lparr>ar_status := AR_RUNNING, ar_started_at := Some now\<rparr>"

definition failed_run :: "exn \<Rightarrow> loop_usage \<Rightarrow> duration \<Rightarrow> time \<Rightarrow> agent_run \<Rightarrow> agent_run" where
  "failed_run e u elapsed now run =
     (persist_tool_loop_usage u (run\<lparr>ar_status := AR_FAILED, ar_error_code := Some (exn_name e),
        ar_error_message := Some (exn_str e)\<rparr>))
       \<lparr>ar_duration_ms := Some (to_ms elapsed), ar_completed_at := Some now\<rparr>"

definition completed_run ::
  "generate_response \<Rightarrow> uuid \<Rightarrow> loop_usage \<Rightarrow> duration \<Rightarrow> time \<Rightarrow> agent_run \<Rightarrow> agent_run" where
  "completed_run r rid u elapsed now run =
     (persist_tool_loop_usage u (run\<lparr>ar_status := AR_COMPLETED, ar_llm_request_id := Some rid,
        ar_provider := Some (gs_provider r), ar_model := Some (gs_model r),
        ar_output_text := Some (gs_content r)\<rparr>))
       \<lparr>ar_duration_ms := Some (to_ms elapsed), ar_completed_at := Some now\<rparr>"

definition attempt_run ::
  "env \<Rightarrow> agent_run \<Rightarrow> string \<Rightarrow> jdict option \<Rightarrow> generate_response loop" where
  "attempt_run ev run user_input context =
     (case ar_created_by run of
        None \<Rightarrow> raise (Runtime (RuntimeDomainError (''Agent run '' @ ar_id run
                  @ '' has no owning user to attribute usage to'')))
      | Some owner \<Rightarrow> bindM (in_loop (get_active_agent (ar_agent_id run))) (\<lambda>ag.
          run_tool_loop ev ag user_input context owner))"

definition finish_run :: "env \<Rightarrow> agent_run \<Rightarrow> time \<Rightarrow> exn + generate_response \<Rightarrow> loop_usage \<Rightarrow> agent_run app" where
  "finish_run ev run started res u =
     (case res of
        Inl e \<Rightarrow>
          if run_error e then
            bindM (liftE (validate_transition (ar_status run) AR_FAILED)) (\<lambda>_.
            bindM (readM (e_mono ev)) (\<lambda>t. bindM (readM (e_now ev)) (\<lambda>now.
            seqM (put_agent_run (failed_run e u (t - started) now run)) (raise (reraised e)))))
          else raise e
      | Inr response \<Rightarrow>
          bindM (liftE (validate_transition (ar_status run) AR_COMPLETED)) (\<lambda>_.
          bindM (liftE (case parse_uuid (gs_request_id response) of Some k \<Rightarrow> Inr k
                   | None \<Rightarrow> Inl (PyExc ''ValueError'' ''badly formed hexadecimal UUID string''))) (\<lambda>rid.
          bindM (readM (e_mono ev)) (\<lambda>t. bindM (readM (e_now ev)) (\<lambda>now.
          let run' = completed_run response rid u (t - started) now run in
          seqM (put_agent_run run') (ret run'))))))"

definition execute_run :: "env \<Rightarrow> agent_run \<Rightarrow> string \<Rightarrow> jdict option \<Rightarrow> agent_run app" where
  "execute_run ev run0 user_input context =
     bindM (liftE (validate_transition (ar_status run0) AR_RUNNING)) (\<lambda>_.
     bindM (readM (e_now ev)) (\<lambda>now.
     let run = running_run now run0 in
     seqM (put_agent_run run)
     (bindM (readM (e_mono ev)) (\<lambda>started.
      (\<lambda>w. case attempt_run ev run user_input context (w, no_usage) of
              (res, (w', u)) \<Rightarrow> finish_run ev run started res u w')))))"

section \<open>What the loop touches\<close>

text \<open>Between two states only audit rows were written and oracles read.\<close>

definition only_requests :: "world \<Rightarrow> world \<Rightarrow> bool" where
  "only_requests w w' \<longleftrightarrow> w' = w\<lparr>llm_requests := llm_requests w', tick := tick w'\<rparr>"

lemma only_requests_refl [simp, intro]: "only_requests w w"
  by (simp add: only_requests_def)

lemma only_requests_trans: "only_requests u v \<Longrightarrow> only_requests v w \<Longrightarrow> only_requests u w"
  unfolding only_requests_def by (cases u; cases v; cases w) simp

lemma only_requests_same: "same_tables w w' \<Longrightarrow> only_requests w w'"
  unfolding only_requests_def same_tables_def by (cases w; cases w') simp

lemma only_requests_audit: "only_audit_row k w w' \<Longrightarrow> only_requests w w'"
  by (simp add: only_audit_row_def only_requests_def)

lemma only_requests_tables:
  "only_requests w w' \<Longrightarrow> jobs w' = jobs w \<and> agent_runs w' = agent_runs w \<and> workflow_runs w' = workflow_runs w
     \<and> step_runs w' = step_runs w \<and> agents w' = agents w \<and> workflows w' = workflows w \<and> users w' = users w
     \<and> assets w' = assets w \<and> chunks w' = chunks w"
  unfolding only_requests_def by (cases w; cases w') simp

text \<open>
  The loop writes only audit rows, never loses usage already recorded, and the number of model
  calls it records is bounded by the iterations it had left.
\<close>

definition bounded_progress :: "nat \<Rightarrow> world \<times> loop_usage \<Rightarrow> world \<times> loop_usage \<Rightarrow> bool" where
  "bounded_progress n s s' \<longleftrightarrow> only_requests (fst s) (fst s')
     \<and> lu_calls_made (snd s) \<le> lu_calls_made (snd s')
     \<and> lu_calls_made (snd s') \<le> lu_calls_made (snd s) + int n
     \<and> (\<exists>more. lu_trace (snd s') = lu_trace (snd s) @ more)"

lemma bounded_progress_refl [simp, intro]: "bounded_progress n s s"
  by (simp add: bounded_progress_def)

lemma bounded_progress_trans:
  "bounded_progress m s t \<Longrightarrow> bounded_progress n t u \<Longrightarrow> bounded_progress (m + n) s u"
  unfolding bounded_progress_def by (auto intro: only_requests_trans)

lemma bounded_progress_mono: "bounded_progress m s t \<Longrightarrow> m \<le> n \<Longrightarrow> bounded_progress n s t"
  by (auto simp: bounded_progress_def)

lemma in_loop_result: "in_loop p s = (r, s') \<Longrightarrow> p (fst s) = (r, fst s') \<and> snd s' = snd s"
  by (auto simp: in_loop_def split: prod.splits)

lemma in_loop_no_tables: "no_tables p \<Longrightarrow> in_loop p s = (r, s') \<Longrightarrow> bounded_progress 0 s s'"
  using no_tablesD [of p] by (auto simp: bounded_progress_def dest!: in_loop_result intro: only_requests_same)

lemma change_usage_run [run]: "seqM (change_usage f) p s = p (fst s, f (snd s))"
  by (simp add: change_usage_def monad)

lemma call_tools_progress: "call_tools ev c it rid calls s = (r, s') \<Longrightarrow> bounded_progress 0 s s'"
proof (induction ev c it rid calls arbitrary: s r s' rule: call_tools.induct)
  case (2 ev c it rid call calls)
  obtain cr s1 where 1: "in_loop (call_tool ev c (to_name call) (to_arguments call)) s = (cr, s1)"
    by (cases "in_loop (call_tool ev c (to_name call) (to_arguments call)) s")
  have p1: "bounded_progress 0 s s1" by (rule in_loop_no_tables [OF no_tables_call_tool 1])
  show ?case
  proof (cases cr)
    case (Inl e)
    then show ?thesis using 1 2(2) p1 by (simp add: monad)
  next
    case (Inr res)
    let ?s = "(fst s1, (snd s1)\<lparr>lu_trace := lu_trace (snd s1) @ [trace_entry it rid call res]\<rparr>)"
    obtain r2 s2 where 3: "call_tools ev c it rid calls ?s = (r2, s2)"
      by (cases "call_tools ev c it rid calls ?s")
    have "s' = s2" using 2(2) 1 Inr 3 by (auto simp: run bindM_def [of "call_tools _ _ _ _ _"] split: sum.splits)
    moreover have "bounded_progress 0 s1 ?s" by (simp add: bounded_progress_def)
    ultimately show ?thesis
      using bounded_progress_trans [OF bounded_progress_trans [OF p1]] 2(1) [OF 3] by fastforce
  qed
qed (simp add: monad)

lemma loop_from_progress:
  assumes lawful: "lawful_registry (e_providers ev)"
  shows "loop_from ev ag client owner n it payload s = (r, s') \<Longrightarrow> bounded_progress n s s'"
proof (induction n arbitrary: it payload s r s')
  case (Suc n)
  obtain gr s1 where g: "in_loop (generate_and_persist ev owner payload) s = (gr, s1)"
    by (cases "in_loop (generate_and_persist ev owner payload) s")
  have s1: "snd s1 = snd s" "only_requests (fst s) (fst s1)"
    using in_loop_result [OF g] generate_and_persist_audited [OF lawful]
    by (blast intro: only_requests_audit)+
  show ?case
  proof (cases gr)
    case (Inl e)
    then show ?thesis using Suc(2) g s1 by (auto simp: bounded_progress_def monad)
  next
    case (Inr response)
    let ?s = "(fst s1, record_call response (snd s1))"
    have p: "bounded_progress 1 s ?s"
      using s1 by (simp add: bounded_progress_def record_call_def)
    show ?thesis
    proof (cases "tools_truthy (gs_tool_calls response) \<and> client \<noteq> None")
      case False
      then have "s' = ?s" using Suc(2) g Inr by (auto simp: run split: if_splits)
      then show ?thesis using p bounded_progress_mono [of 1] by auto
    next
      case True
      then obtain c where c: "client = Some c" "tools_truthy (gs_tool_calls response)" by blast
      obtain tr s2 where t: "call_tools ev c it (gs_request_id response) (the (gs_tool_calls response)) ?s
          = (tr, s2)" by (cases "call_tools ev c it (gs_request_id response) (the (gs_tool_calls response)) ?s")
      have p2: "bounded_progress 1 s s2"
        using bounded_progress_trans [OF p call_tools_progress [OF t]] by simp
      show ?thesis
      proof (cases tr)
        case (Inl e)
        then have "s' = s2" using Suc(2) g Inr c t by (simp add: run)
        then show ?thesis using p2 bounded_progress_mono [of 1] by auto
      next
        case (Inr ms)
        then have "loop_from ev ag client owner n (it + 1) (payload\<lparr>gr_messages := gr_messages payload @ ms\<rparr>) s2
            = (r, s')" using Suc(2) g \<open>gr = Inr response\<close> c t by (simp add: run)
        from bounded_progress_trans [OF p2 Suc(1) [OF this]] show ?thesis by simp
      qed
    qed
  qed
qed (simp add: monad)

lemma no_tables_offered_tools: "no_tables (offered_tools ev ag)"
  by (auto simp: offered_tools_def split: json.splits intro!: no_tables_bindM)

lemma run_tool_loop_progress:
  assumes "lawful_registry (e_providers ev)" and "run_tool_loop ev ag inp ctx owner s = (r, s')"
  shows "bounded_progress (nat (s_runtime_max_tool_iterations (e_settings ev))) s s'"
proof -
  obtain o1 s1 where 1: "in_loop (offered_tools ev ag) s = (o1, s1)"
    by (cases "in_loop (offered_tools ev ag) s")
  have p1: "bounded_progress 0 s s1" by (rule in_loop_no_tables [OF no_tables_offered_tools 1])
  show ?thesis
  proof (cases "\<exists>ts c payload. o1 = Inr (ts, c) \<and> build_generate_request ag inp ctx ts = Inr payload")
    case True
    then obtain ts c payload where "o1 = Inr (ts, c)" "build_generate_request ag inp ctx ts = Inr payload"
      by blast
    then have "loop_from ev ag c owner (nat (s_runtime_max_tool_iterations (e_settings ev))) 1 payload s1 = (r, s')"
      using assms(2) 1 by (simp add: run_tool_loop_def run)
    from bounded_progress_trans [OF p1 loop_from_progress [OF assms(1) this]] show ?thesis by simp
  next
    case False
    then have "s' = s1" using assms(2) 1
      by (cases o1; cases "\<exists>ts c. o1 = Inr (ts, c)")
         (auto simp: run_tool_loop_def run monad split: sum.splits prod.splits)
    then show ?thesis using p1 bounded_progress_mono by blast
  qed
qed

lemma attempt_run_progress:
  assumes "lawful_registry (e_providers ev)" and "attempt_run ev run inp ctx s = (r, s')"
  shows "bounded_progress (nat (s_runtime_max_tool_iterations (e_settings ev))) s s'"
proof (cases "ar_created_by run")
  case None
  then show ?thesis using assms(2) by (simp add: attempt_run_def monad)
next
  case (Some owner)
  obtain ar s1 where a: "in_loop (get_active_agent (ar_agent_id run)) s = (ar, s1)"
    by (cases "in_loop (get_active_agent (ar_agent_id run)) s")
  then have "s1 = s" using in_loop_result [OF a] get_active_agent_cases by (metis prod.expand)
  then show ?thesis
    using assms(2) a Some run_tool_loop_progress [OF assms(1)]
    by (cases ar) (auto simp: attempt_run_def run)
qed

section \<open>What a run may raise\<close>

definition loop_error :: "exn \<Rightarrow> bool" where
  "loop_error e = (case e of LLM _ \<Rightarrow> True | Runtime _ \<Rightarrow> True | MCP _ \<Rightarrow> True | PyExc _ _ \<Rightarrow> True | _ \<Rightarrow> False)"

text \<open>What leaves \<open>execute_run\<close>: an \<open>MCPError\<close> has become a \<open>RuntimeDomainError\<close>.\<close>

definition execution_error :: "exn \<Rightarrow> bool" where
  "execution_error e = (case e of LLM _ \<Rightarrow> True | Runtime _ \<Rightarrow> True | PyExc _ _ \<Rightarrow> True | _ \<Rightarrow> False)"

lemma loop_error_simps [simp]: "loop_error (Runtime r)" "loop_error (PyExc n m)"
  by (simp_all add: loop_error_def)

lemma loop_error_of: "foreign_error e \<Longrightarrow> loop_error e" "mcp_error_kind e \<Longrightarrow> loop_error e"
  by (cases e; simp add: loop_error_def foreign_error_def mcp_error_kind_def)+

lemma raises_only_in_loop: "raises_only P p \<Longrightarrow> raises_only P (in_loop p)"
  unfolding raises_only_def in_loop_def by (auto split: prod.splits)

lemma raises_only_change_usage [simp, intro]: "raises_only P (change_usage f)"
  by (simp add: change_usage_def)

lemma call_tools_raises: "raises_only loop_error (call_tools ev c it rid calls)"
proof (induction calls)
  case (Cons call calls)
  have "raises_only loop_error (in_loop (call_tool ev c (to_name call) (to_arguments call)))"
    using call_tool_raises loop_error_of(2) by (intro raises_only_in_loop) (blast intro: raises_only_mono)
  then show ?case using Cons by (auto intro!: raises_only_rules)
qed simp

lemma loop_from_raises:
  assumes "lawful_registry (e_providers ev)"
  shows "raises_only loop_error (loop_from ev ag client owner n it payload)"
proof (induction n arbitrary: it payload)
  case (Suc n)
  have "raises_only loop_error (in_loop (generate_and_persist ev owner payload))"
    using generate_and_persist_raises [OF assms] loop_error_of(1)
    by (intro raises_only_in_loop) (blast intro: raises_only_mono)
  then show ?case
    using Suc by (auto intro!: raises_only_rules call_tools_raises split: option.splits)
qed simp

lemma errs_build_generate_request [simp, intro]: "errs loop_error (build_generate_request ag i c t)"
  by (auto simp: build_generate_request_def require_config_def construct_generate_request_def Let_def
      validation_error_def intro!: errs_bindE)

lemma offered_tools_raises: "raises_only loop_error (offered_tools ev ag)"
proof -
  have "errs mcp_error_kind (tool_definition_in t)" for t
    by (simp add: tool_definition_in_def Let_def validation_error_def)
  then have "raises_only mcp_error_kind (offered_tools ev ag)"
    by (auto simp: offered_tools_def intro!: raises_only_bindM errs_mapE build_mcp_client_raises
        list_tools_raises split: json.splits)
  then show ?thesis using loop_error_of(2) by (blast intro: raises_only_mono)
qed

lemma attempt_run_raises:
  assumes "lawful_registry (e_providers ev)"
  shows "raises_only loop_error (attempt_run ev run inp ctx)"
proof -
  have "raises_only loop_error (get_active_agent aid)" for aid
    by (auto simp: get_active_agent_def intro!: raises_only_bindM split: option.splits)
  then show ?thesis
    by (auto simp: attempt_run_def run_tool_loop_def intro!: raises_only_bindM raises_only_in_loop
        offered_tools_raises loop_from_raises [OF assms] split: option.splits)
qed

lemma finish_run_raises:
  assumes "\<And>e. res = Inl e \<Longrightarrow> loop_error e"
  shows "raises_only execution_error (finish_run ev run started res u)"
proof -
  have "execution_error (reraised e)" if "loop_error e" for e
    using that by (cases e) (simp_all add: loop_error_def reraised_def execution_error_def)
  moreover have "execution_error e" if "loop_error e" "\<not> run_error e" for e
    using that by (cases e) (simp_all add: loop_error_def run_error_def execution_error_def)
  moreover have "errs execution_error (validate_transition a b)" for a b
    by (simp add: validate_transition_def execution_error_def)
  moreover have "execution_error (PyExc n m)" for n m by (simp add: execution_error_def)
  ultimately show ?thesis
    using assms by (auto simp: finish_run_def Let_def intro!: raises_only_rules split: sum.splits option.splits)
qed

lemma execute_run_raises:
  assumes "lawful_registry (e_providers ev)"
  shows "raises_only execution_error (execute_run ev run inp ctx)"
proof -
  have "raises_only execution_error (\<lambda>w. case attempt_run ev r inp ctx (w, no_usage) of
      (res, (w', u)) \<Rightarrow> finish_run ev r started res u w')" for r started
    unfolding raises_only_def
    using raises_onlyD [OF attempt_run_raises [OF assms]] raises_onlyD [OF finish_run_raises]
    by (auto split: prod.splits) metis
  moreover have "errs execution_error (validate_transition a b)" for a b
    by (simp add: validate_transition_def execution_error_def)
  ultimately show ?thesis by (auto simp: execute_run_def Let_def intro!: raises_only_rules)
qed


section \<open>How a run ends\<close>

definition domain_failure :: "exn \<Rightarrow> bool" where
  "domain_failure e = (case e of LLM _ \<Rightarrow> True | Runtime _ \<Rightarrow> True | _ \<Rightarrow> False)"

definition run_outcome :: "uuid \<Rightarrow> world \<Rightarrow> exn + agent_run \<Rightarrow> bool" where
  "run_outcome k w res \<longleftrightarrow> (\<exists>row. row_get ar_id k (agent_runs w) = Some row \<and> (case res of
       Inr r \<Rightarrow> row = r \<and> ar_status row = AR_COMPLETED \<and> ar_completed_at row \<noteq> None
     | Inl e \<Rightarrow>
         if domain_failure e
         then ar_status row = AR_FAILED \<and> ar_error_message row = Some (exn_str e)
           \<and> ar_error_code row \<noteq> None \<and> ar_completed_at row \<noteq> None
         else ar_status row = AR_RUNNING))"

text \<open>The run's row and the audit table are all that a run writes.\<close>

definition only_run_row :: "uuid \<Rightarrow> world \<Rightarrow> world \<Rightarrow> bool" where
  "only_run_row k w w' \<longleftrightarrow>
     w' = w\<lparr>agent_runs := agent_runs w', llm_requests := llm_requests w', tick := tick w'\<rparr>
     \<and> (\<forall>i. i \<noteq> k \<longrightarrow> row_get ar_id i (agent_runs w') = row_get ar_id i (agent_runs w))"

lemma only_run_row_trans: "only_run_row k u v \<Longrightarrow> only_run_row k v w \<Longrightarrow> only_run_row k u w"
  unfolding only_run_row_def by (cases u; cases v; cases w) simp

lemma only_run_row_requests: "only_requests w w' \<Longrightarrow> only_run_row k w w'"
  unfolding only_run_row_def only_requests_def by (cases w; cases w') simp

lemma only_run_row_put:
  "ar_id r = k \<Longrightarrow> only_run_row k w (w\<lparr>agent_runs := row_put ar_id r (agent_runs w), tick := n\<rparr>)"
  by (simp add: only_run_row_def row_get_put)

lemma persist_tool_loop_usage_fields [simp]:
  "ar_id (persist_tool_loop_usage u r) = ar_id r"
  "ar_status (persist_tool_loop_usage u r) = ar_status r"
  "ar_error_code (persist_tool_loop_usage u r) = ar_error_code r"
  "ar_error_message (persist_tool_loop_usage u r) = ar_error_message r"
  by (simp_all add: persist_tool_loop_usage_def)

lemma ended_run_fields [simp]:
  "ar_id (failed_run e u d t r) = ar_id r" "ar_status (failed_run e u d t r) = AR_FAILED"
  "ar_error_code (failed_run e u d t r) = Some (exn_name e)"
  "ar_error_message (failed_run e u d t r) = Some (exn_str e)"
  "ar_completed_at (failed_run e u d t r) = Some t"
  "ar_id (completed_run g k u d t r) = ar_id r" "ar_status (completed_run g k u d t r) = AR_COMPLETED"
  "ar_completed_at (completed_run g k u d t r) = Some t"
  by (simp_all add: failed_run_def completed_run_def)

lemma running_run_fields [simp]:
  "ar_id (running_run t r) = ar_id r" "ar_status (running_run t r) = AR_RUNNING"
  by (simp_all add: running_run_def)

lemma exn_str_reraised [simp]: "exn_str (reraised e) = exn_str e"
  by (cases e) (simp_all add: reraised_def)

lemma domain_failure_reraised: "run_error e \<Longrightarrow> domain_failure (reraised e)"
  by (cases e) (simp_all add: run_error_def reraised_def domain_failure_def)

lemma finish_run_outcome:
  assumes "finish_run ev run started res u w = (r, w')" and "ar_status run = AR_RUNNING"
    and "row_get ar_id (ar_id run) (agent_runs w) = Some run"
  shows "run_outcome (ar_id run) w' r \<and> only_run_row (ar_id run) w w'"
proof (cases res)
  case (Inl e)
  show ?thesis
  proof (cases "run_error e")
    case True
    then have "w' = w\<lparr>agent_runs := row_put ar_id (failed_run e u (e_mono ev (tick w) - started)
        (e_now ev (Suc (tick w))) run) (agent_runs w), tick := Suc (Suc (tick w))\<rparr>"
      and "r = Inl (reraised e)"
      using assms(1,2) Inl by (auto simp: finish_run_def validate_transition_def run)
    then show ?thesis
      using domain_failure_reraised [OF True] by (simp add: run_outcome_def row_get_put only_run_row_put)
  next
    case False
    then have "w' = w" "r = Inl e" using assms(1) Inl by (auto simp: finish_run_def run)
    moreover have "\<not> domain_failure e"
      using False by (cases e) (simp_all add: run_error_def domain_failure_def)
    ultimately show ?thesis using assms by (simp add: run_outcome_def only_run_row_def)
  qed
next
  case (Inr g)
  show ?thesis
  proof (cases "parse_uuid (gs_request_id g)")
    case None
    then have "w' = w" "r = Inl (PyExc ''ValueError'' ''badly formed hexadecimal UUID string'')"
      using assms(1,2) Inr by (auto simp: finish_run_def validate_transition_def run)
    then show ?thesis using assms by (simp add: run_outcome_def only_run_row_def domain_failure_def)
  next
    case (Some k)
    then show ?thesis
      using assms(1,2) Inr
      by (auto simp: finish_run_def validate_transition_def run Let_def run_outcome_def row_get_put
          only_run_row_def)
  qed
qed

lemma execute_run_outcome:
  assumes "lawful_registry (e_providers ev)" and "execute_run ev run inp ctx w = (res, w')"
    and "ar_status run = AR_QUEUED"
  shows "run_outcome (ar_id run) w' res \<and> only_run_row (ar_id run) w w'"
proof -
  let ?r = "running_run (e_now ev (tick w)) run"
  let ?w = "w\<lparr>agent_runs := row_put ar_id ?r (agent_runs w), tick := Suc (Suc (tick w))\<rparr>"
  obtain ar w1 u where a: "attempt_run ev ?r inp ctx (?w, no_usage) = (ar, (w1, u))"
    by (metis prod.exhaust)
  have f: "finish_run ev ?r (e_mono ev (Suc (tick w))) ar u w1 = (res, w')"
    using assms(2,3) a by (simp add: execute_run_def validate_transition_def run Let_def)
  have o: "only_requests ?w w1"
    using attempt_run_progress [OF assms(1) a] by (simp add: bounded_progress_def)
  have "row_get ar_id (ar_id ?r) (agent_runs w1) = Some ?r"
    using only_requests_tables [OF o] by (simp add: row_get_put)
  then have "run_outcome (ar_id run) w' res \<and> only_run_row (ar_id run) w1 w'"
    using finish_run_outcome [OF f] by simp
  moreover have "only_run_row (ar_id run) w ?w" by (rule only_run_row_put) simp
  ultimately show ?thesis using only_run_row_trans only_run_row_requests [OF o] by blast
qed


section \<open>Properties\<close>

definition demo_agent :: agent_definition where
  "demo_agent = \<lparr>ag_id = ''a1'', ag_name = ''Writer'', ag_status = AS_ACTIVE,
     ag_configuration = [(''system_prompt'', JStr ''be brief''), (''model'', JStr ''m'')]\<rparr>"

definition demo_world :: world where
  "demo_world = empty_world\<lparr>agents := [demo_agent]\<rparr>"

definition demo_run :: agent_run where
  "demo_run = new_agent_run ''r1'' ''a1'' ''alice'' 0"

text \<open>
  C4: Executing a queued agent run settles its row: COMPLETED with the returned run when the call
  succeeds, FAILED with the raised error's message when it raises one of the program's own errors;
  any other exception leaves the row RUNNING. No other run and no other table but the audit log
  is written.
\<close>

theorem agent_run_outcome:
  assumes "lawful_registry (e_providers ev)" and "execute_run ev run inp ctx w = (res, w')"
    and "ar_status run = AR_QUEUED"
  shows "run_outcome (ar_id run) w' res \<and> only_run_row (ar_id run) w w'"
  using assms by (rule execute_run_outcome)

lemma agent_run_outcome_witness:
  "returned (fst (execute_run demo_env demo_run ''hi'' None demo_world))
   \<and> run_outcome ''r1'' (snd (execute_run demo_env demo_run ''hi'' None demo_world))
       (fst (execute_run demo_env demo_run ''hi'' None demo_world))"
proof
  show "returned (fst (execute_run demo_env demo_run ''hi'' None demo_world))"
    by code_simp
  show "run_outcome ''r1'' (snd (execute_run demo_env demo_run ''hi'' None demo_world))
       (fst (execute_run demo_env demo_run ''hi'' None demo_world))"
    using agent_run_outcome [where run = demo_run and inp = "''hi''" and ctx = None and w = demo_world,
        OF demo_env_lawful prod.collapse [symmetric]]
    by (simp add: demo_run_def new_agent_run_def)
qed



end
