(* ===== verification/WorkflowExecutor.thy ===== *)
theory WorkflowExecutor
  imports WorkflowDefs RuntimeExecutor
begin

text \<open>
  \<open>app/workflows/service.py\<close> and \<open>app/workflows/executor.py\<close>: creating, reading and cancelling
  workflow runs, and executing one step after another through the agent runtime.
\<close>

section \<open>app/workflows/service.py\<close>

definition get_active_workflow :: "uuid \<Rightarrow> workflow_definition app" where
  "get_active_workflow wid =
     bindM (getM (\<lambda>w. row_get wd_id wid (workflows w))) (\<lambda>r. case r of
         None \<Rightarrow> raise (Workflow (WorkflowNotFoundError wid))
       | Some wfd \<Rightarrow> if wd_status wfd \<noteq> WS_ACTIVE then raise (Workflow (WorkflowNotActiveError wid)) else ret wfd)"

fun check_agents :: "workflow_step_spec list \<Rightarrow> unit app" where
  "check_agents [] = ret ()"
| "check_agents (s # ss) = bindM (get_active_agent (ws_agent_id s)) (\<lambda>_. check_agents ss)"

definition new_workflow_run :: "uuid \<Rightarrow> uuid \<Rightarrow> uuid \<Rightarrow> time \<Rightarrow> workflow_run" where
  "new_workflow_run rid wid user now =
     \<lparr>wr_id = rid, wr_workflow_id = wid, wr_created_by = Some user, wr_status = WR_QUEUED,
      wr_output_text = None, wr_error_code = None, wr_error_message = None, wr_duration_ms = None,
      wr_started_at = None, wr_completed_at = None, wr_created_at = now\<rparr>"

definition new_step_run :: "uuid \<Rightarrow> uuid \<Rightarrow> workflow_step_spec \<Rightarrow> workflow_step_run" where
  "new_step_run sid rid s =
     \<lparr>sr_id = sid, sr_run_id = rid, sr_step_id = ws_step_id s, sr_order = ws_order s,
      sr_agent_id = ws_agent_id s, sr_agent_run_id = None, sr_input_snapshot = None,
      sr_output_text = None, sr_status = SR_PENDING, sr_error_code = None, sr_error_message = None,
      sr_duration_ms = None, sr_started_at = None, sr_completed_at = None\<rparr>"

fun add_step_runs :: "env \<Rightarrow> uuid \<Rightarrow> workflow_step_spec list \<Rightarrow> unit app" where
  "add_step_runs ev rid [] = ret ()"
| "add_step_runs ev rid (s # ss) =
     bindM (readM (e_uuid ev)) (\<lambda>sid. seqM (put_step_run (new_step_run sid rid s)) (add_step_runs ev rid ss))"

definition create_workflow_run :: "env \<Rightarrow> uuid \<Rightarrow> uuid \<Rightarrow> workflow_run app" where
  "create_workflow_run ev wid user =
     bindM (get_active_workflow wid) (\<lambda>wfd.
     bindM (liftE (parse_workflow_steps wid (wd_definition wfd))) (\<lambda>steps.
     seqM (check_agents steps)
     (bindM (readM (e_uuid ev)) (\<lambda>rid. bindM (readM (e_now ev)) (\<lambda>now.
      let run = new_workflow_run rid wid user now in
      seqM (put_workflow_run run) (seqM (add_step_runs ev rid steps) (ret run)))))))"

definition get_workflow_run :: "uuid \<Rightarrow> user \<Rightarrow> workflow_run app" where
  "get_workflow_run rid current =
     bindM (getM (\<lambda>w. row_get wr_id rid (workflow_runs w))) (\<lambda>r. case r of
         None \<Rightarrow> raise (Workflow (WorkflowRunNotFoundError rid))
       | Some run \<Rightarrow>
           if \<not> visible_to current (wr_created_by run)
           then raise (Workflow (WorkflowRunNotFoundError rid)) else ret run)"

definition list_workflow_runs :: "user \<Rightarrow> int \<Rightarrow> int \<Rightarrow> (workflow_run list \<times> nat) app" where
  "list_workflow_runs current limit offset =
     getM (\<lambda>w. let rows = filter (\<lambda>r. visible_to current (wr_created_by r)) (workflow_runs w)
               in (page_of limit offset (order_by (\<lambda>r. - wr_created_at r) rows), length rows))"

text \<open>The step runs of a run in execution order.\<close>

definition steps_of :: "uuid \<Rightarrow> world \<Rightarrow> workflow_step_run list" where
  "steps_of rid w = order_by sr_order (filter (\<lambda>s. sr_run_id s = rid) (step_runs w))"

definition get_steps :: "uuid \<Rightarrow> user \<Rightarrow> workflow_step_run list app" where
  "get_steps rid current = bindM (get_workflow_run rid current) (\<lambda>_. getM (steps_of rid))"

text \<open>The bulk update of the step runs of a run that are still PENDING.\<close>

definition settle_pending :: "uuid \<Rightarrow> workflow_step_run_status \<Rightarrow> time \<Rightarrow> unit app" where
  "settle_pending rid status now =
     modifyM (\<lambda>w. w\<lparr>step_runs := update_where (\<lambda>s. sr_run_id s = rid \<and> sr_status s = SR_PENDING)
       (\<lambda>s. s\<lparr>sr_status := status, sr_completed_at := Some now\<rparr>) (step_runs w)\<rparr>)"

definition cancel_workflow_run :: "env \<Rightarrow> uuid \<Rightarrow> user \<Rightarrow> workflow_run app" where
  "cancel_workflow_run ev rid current =
     bindM (get_workflow_run rid current) (\<lambda>run.
     if wr_status run = WR_CANCELLED then ret run
     else bindM (liftE (validate_workflow_run_transition (wr_status run) WR_CANCELLED)) (\<lambda>_.
          bindM (readM (e_now ev)) (\<lambda>now.
          let run' = run\<lparr>wr_status := WR_CANCELLED, wr_completed_at := Some now,
                        wr_duration_ms := (case wr_started_at run of None \<Rightarrow> wr_duration_ms run
                                           | Some t \<Rightarrow> Some (to_ms (now - t)))\<rparr> in
          seqM (put_workflow_run run') (seqM (settle_pending rid SR_CANCELLED now) (ret run')))))"


section \<open>app/workflows/executor.py\<close>

definition fail_workflow_run :: "env \<Rightarrow> workflow_run \<Rightarrow> exn \<Rightarrow> int \<Rightarrow> unit app" where
  "fail_workflow_run ev run e duration_ms =
     bindM (liftE (validate_workflow_run_transition (wr_status run) WR_FAILED)) (\<lambda>_.
     bindM (readM (e_now ev)) (\<lambda>now.
     seqM (put_workflow_run (run\<lparr>wr_status := WR_FAILED, wr_error_code := Some (exn_name e),
             wr_error_message := Some (exn_str e), wr_duration_ms := Some duration_ms,
             wr_completed_at := Some now\<rparr>))
       (settle_pending (wr_id run) SR_SKIPPED now)))"

definition cancel_running_workflow :: "env \<Rightarrow> workflow_run \<Rightarrow> int \<Rightarrow> unit app" where
  "cancel_running_workflow ev run duration_ms =
     bindM (liftE (validate_workflow_run_transition (wr_status run) WR_CANCELLED)) (\<lambda>_.
     bindM (readM (e_now ev)) (\<lambda>now.
     seqM (put_workflow_run (run\<lparr>wr_status := WR_CANCELLED, wr_duration_ms := Some duration_ms,
             wr_completed_at := Some now\<rparr>))
       (settle_pending (wr_id run) SR_CANCELLED now)))"

text \<open>\<open>except (WorkflowInputResolutionError, RuntimeDomainError, LLMError)\<close>.\<close>

definition step_error :: "exn \<Rightarrow> bool" where
  "step_error e = (case e of
       Workflow we \<Rightarrow> (case we of WorkflowInputResolutionError _ _ \<Rightarrow> True | _ \<Rightarrow> False)
     | Runtime _ \<Rightarrow> True | LLM _ \<Rightarrow> True | _ \<Rightarrow> False)"

text \<open>\<open>except (WorkflowDomainError, RuntimeDomainError)\<close>.\<close>

definition setup_error :: "exn \<Rightarrow> bool" where
  "setup_error e = (case e of Workflow _ \<Rightarrow> True | Runtime _ \<Rightarrow> True | _ \<Rightarrow> False)"

definition fail_step ::
  "env \<Rightarrow> workflow_run \<Rightarrow> time \<Rightarrow> workflow_step_run \<Rightarrow> time \<Rightarrow> uuid option \<Rightarrow> exn \<Rightarrow> 'a app" where
  "fail_step ev run started s step_started agent_run_id e =
     (if step_error e then
        bindM (liftE (validate_step_run_transition (sr_status s) SR_FAILED)) (\<lambda>_.
        bindM (readM (e_mono ev)) (\<lambda>t. bindM (readM (e_now ev)) (\<lambda>now.
        seqM (put_step_run (s\<lparr>sr_status := SR_FAILED, sr_agent_run_id := agent_run_id,
                sr_error_code := Some (exn_name e), sr_error_message := Some (exn_str e),
                sr_duration_ms := Some (to_ms (t - step_started)), sr_completed_at := Some now\<rparr>))
        (bindM (readM (e_mono ev)) (\<lambda>t'.
         seqM (fail_workflow_run ev run e (to_ms (t' - started))) (raise e))))))
      else raise e)"

text \<open>
  The \<open>try\<close> block of one step: its input, a new agent run, its execution. The result carries the
  agent run created so far, which the handler records. Setting \<open>input_snapshot\<close> is flushed by the
  commit that creates the agent run, or by the handler.
\<close>

definition try_step ::
  "env \<Rightarrow> workflow_step_run \<Rightarrow> workflow_step_spec \<Rightarrow> uuid \<Rightarrow> exn + string \<Rightarrow> jdict option \<Rightarrow> world \<Rightarrow>
     (exn + agent_run) \<times> uuid option \<times> workflow_step_run \<times> world" where
  "try_step ev s spec owner input context w =
     (case input of
        Inl e \<Rightarrow> (Inl e, None, s, w)
      | Inr text \<Rightarrow>
          (let s' = s\<lparr>sr_input_snapshot := Some text\<rparr> in
           case create_run ev (ws_agent_id spec) owner w of
             (Inl e, w1) \<Rightarrow> (Inl e, None, s', w1)
           | (Inr run, w1) \<Rightarrow>
               (case execute_run ev run text context (w1\<lparr>step_runs := row_put sr_id s' (step_runs w1)\<rparr>) of
                  (Inl e, w2) \<Rightarrow> (Inl e, Some (ar_id run), s', w2)
                | (Inr run', w2) \<Rightarrow> (Inr run', Some (ar_id run'), s', w2))))"

definition completed_step :: "workflow_step_run \<Rightarrow> agent_run \<Rightarrow> duration \<Rightarrow> time \<Rightarrow> workflow_step_run" where
  "completed_step s run elapsed now =
     s\<lparr>sr_status := SR_COMPLETED, sr_agent_run_id := Some (ar_id run), sr_output_text := ar_output_text run,
       sr_duration_ms := Some (to_ms elapsed), sr_completed_at := Some now\<rparr>"

definition attempt_step ::
  "env \<Rightarrow> workflow_run \<Rightarrow> time \<Rightarrow> workflow_step_run \<Rightarrow> workflow_step_spec \<Rightarrow> uuid \<Rightarrow> exn + string \<Rightarrow>
     jdict option \<Rightarrow> agent_run app" where
  "attempt_step ev run started s0 spec owner input context =
     bindM (liftE (validate_step_run_transition (sr_status s0) SR_RUNNING)) (\<lambda>_.
     bindM (readM (e_now ev)) (\<lambda>now.
     let s = s0\<lparr>sr_status := SR_RUNNING, sr_started_at := Some now\<rparr> in
     seqM (put_step_run s)
     (bindM (readM (e_mono ev)) (\<lambda>step_started.
      (\<lambda>w. case try_step ev s spec owner input context w of
              (Inl e, k, s', w') \<Rightarrow> fail_step ev run started s' step_started k e w'
            | (Inr agent_run, k, s', w') \<Rightarrow>
                bindM (readM (e_mono ev)) (\<lambda>t. bindM (readM (e_now ev)) (\<lambda>now'.
                seqM (put_step_run (completed_step s' agent_run (t - step_started) now'))
                  (ret agent_run))) w')))))"

text \<open>The loop over the step runs; the accumulators are the outputs, the previous step and the last output.\<close>

fun run_steps ::
  "env \<Rightarrow> workflow_run \<Rightarrow> time \<Rightarrow> uuid \<Rightarrow> (string \<Rightarrow> workflow_step_spec option) \<Rightarrow> string \<Rightarrow> jdict option \<Rightarrow>
     bool app option \<Rightarrow> (string \<times> string) list \<Rightarrow> string option \<Rightarrow> string option \<Rightarrow>
     workflow_step_run list \<Rightarrow> string option app" where
  "run_steps ev run started owner specs user_input context check outputs previous final [] = ret final"
| "run_steps ev run started owner specs user_input context check outputs previous final (s # rest) =
     bindM (case check of None \<Rightarrow> ret False | Some c \<Rightarrow> c) (\<lambda>stop.
     if stop then
       bindM (readM (e_mono ev)) (\<lambda>t.
       seqM (cancel_running_workflow ev run (to_ms (t - started)))
         (raise (Workflow (WorkflowRunCancelledDuringExecutionError (wr_id run)))))
     else
       (case specs (sr_step_id s) of
          None \<Rightarrow> raise (PyExc ''KeyError'' (repr_str (sr_step_id s)))
        | Some spec \<Rightarrow>
            bindM (attempt_step ev run started s spec owner
                     (build_step_input spec user_input previous outputs) context) (\<lambda>agent_run.
            run_steps ev run started owner specs user_input context check
              (dict_set outputs (sr_step_id s)
                 (case ar_output_text agent_run of None \<Rightarrow> [] | Some t \<Rightarrow> t))
              (Some (sr_step_id s)) (ar_output_text agent_run) rest)))"

definition workflow_setup :: "workflow_run \<Rightarrow> (workflow_step_spec list \<times> uuid) app" where
  "workflow_setup run =
     bindM (getM (\<lambda>w. row_get wd_id (wr_workflow_id run) (workflows w))) (\<lambda>r. case r of
         None \<Rightarrow> raise (Workflow (WorkflowNotFoundError (wr_workflow_id run)))
       | Some wfd \<Rightarrow>
           bindM (liftE (parse_workflow_steps (wr_workflow_id run) (wd_definition wfd))) (\<lambda>steps.
           case wr_created_by run of
             None \<Rightarrow> raise (Runtime (RuntimeDomainError (''Workflow run '' @ wr_id run
                       @ '' has no owning user to attribute usage to'')))
           | Some owner \<Rightarrow> ret (steps, owner)))"

definition execute_workflow_run ::
  "env \<Rightarrow> workflow_run \<Rightarrow> string \<Rightarrow> jdict option \<Rightarrow> bool app option \<Rightarrow> workflow_run app" where
  "execute_workflow_run ev run0 user_input context check =
     bindM (liftE (validate_workflow_run_transition (wr_status run0) WR_RUNNING)) (\<lambda>_.
     bindM (readM (e_now ev)) (\<lambda>now.
     let run = run0\<lparr>wr_status := WR_RUNNING, wr_started_at := Some now\<rparr> in
     seqM (put_workflow_run run)
     (bindM (readM (e_mono ev)) (\<lambda>started.
      bindM (catchM (workflow_setup run) (\<lambda>e.
               if setup_error e then
                 bindM (readM (e_mono ev)) (\<lambda>t.
                 seqM (fail_workflow_run ev run e (to_ms (t - started))) (raise e))
               else raise e)) (\<lambda>(steps, owner).
      bindM (getM (steps_of (wr_id run))) (\<lambda>rows.
      bindM (run_steps ev run started owner (map_of (rev (map (\<lambda>s. (ws_step_id s, s)) steps)))
               user_input context check [] None None rows) (\<lambda>final.
      bindM (liftE (validate_workflow_run_transition (wr_status run) WR_COMPLETED)) (\<lambda>_.
      bindM (readM (e_mono ev)) (\<lambda>t. bindM (readM (e_now ev)) (\<lambda>now'.
      let run' = run\<lparr>wr_status := WR_COMPLETED, wr_output_text := final,
                    wr_duration_ms := Some (to_ms (t - started)), wr_completed_at := Some now'\<rparr> in
      seqM (put_workflow_run run') (ret run')))))))))))"

section \<open>What one step does to the tables\<close>

lemma row_put_put: "key a = key b \<Longrightarrow> row_put key a (row_put key b t) = row_put key a t"
  by (induction t) auto

lemma create_run_tables:
  "create_run ev aid u w = (r, w') \<Longrightarrow> step_runs w' = step_runs w \<and> workflow_runs w' = workflow_runs w
     \<and> jobs w' = jobs w \<and> (\<forall>run. r = Inr run \<longrightarrow> ar_status run = AR_QUEUED)"
  by (auto simp: create_run_def get_active_agent_def monad Let_def new_agent_run_def split: option.splits if_splits)

lemma create_run_raises: "raises_only execution_error (create_run ev aid u)"
  by (auto simp: create_run_def get_active_agent_def Let_def execution_error_def intro!: raises_only_rules
      split: option.splits)

lemma execute_run_tables:
  assumes "lawful_registry (e_providers ev)" and "execute_run ev run inp ctx w = (r, w')"
    and "ar_status run = AR_QUEUED"
  shows "step_runs w' = step_runs w \<and> workflow_runs w' = workflow_runs w \<and> jobs w' = jobs w"
  using execute_run_outcome [OF assms] unfolding only_run_row_def by (cases w; cases w') simp

lemma try_step_tables:
  assumes "lawful_registry (e_providers ev)" and "try_step ev s spec owner input ctx w = (r, k, s', w')"
    and x: "sr_id x = sr_id s"
  shows "workflow_runs w' = workflow_runs w \<and> jobs w' = jobs w
    \<and> (\<exists>t. s' = s\<lparr>sr_input_snapshot := t\<rparr>) \<and> row_put sr_id x (step_runs w') = row_put sr_id x (step_runs w)"
proof (cases "input")
    case (Inl e)
    then show ?thesis using assms(2) by (auto simp: try_step_def intro: exI [of _ "sr_input_snapshot s"])
  next
    case (Inr inp)
    obtain cr w1 where c: "create_run ev (ws_agent_id spec) owner w = (cr, w1)"
      by (cases "create_run ev (ws_agent_id spec) owner w")
    note t = create_run_tables [OF c]
    show ?thesis
    proof (cases cr)
      case (Inl e)
      then show ?thesis using assms(2) \<open>input = Inr inp\<close> c t by (auto simp: try_step_def Let_def)
    next
      case (Inr run)
      let ?s = "s\<lparr>sr_input_snapshot := Some inp\<rparr>"
      let ?w = "w1\<lparr>step_runs := row_put sr_id ?s (step_runs w1)\<rparr>"
      obtain er w2 where e: "execute_run ev run inp ctx ?w = (er, w2)"
        by (cases "execute_run ev run inp ctx ?w")
      have "step_runs w2 = row_put sr_id ?s (step_runs w)" "workflow_runs w2 = workflow_runs w" "jobs w2 = jobs w"
        using execute_run_tables [OF assms(1) e] t Inr by auto
      then show ?thesis
        using assms(2) \<open>input = Inr inp\<close> c e Inr x
        by (auto simp: try_step_def Let_def row_put_put split: sum.splits)
    qed
  qed

lemma completed_step_fields [simp]:
  "sr_id (completed_step s r d t) = sr_id s" "sr_run_id (completed_step s r d t) = sr_run_id s"
  "sr_status (completed_step s r d t) = SR_COMPLETED"
  by (simp_all add: completed_step_def)

lemma try_step_raises:
  assumes "lawful_registry (e_providers ev)" and "try_step ev s spec owner input ctx w = (Inl e, k, s', w')"
  shows "input = Inl e \<or> execution_error e"
  using assms(2) raises_onlyD [OF create_run_raises] raises_onlyD [OF execute_run_raises [OF assms(1)]]
  by (fastforce simp: try_step_def Let_def split: sum.splits prod.splits)

text \<open>
  One step of the loop, as seen in the tables: it completed its row; or it failed, which settled the
  row, the pending ones and the workflow run; or an exception outside the program's own went through.
\<close>

definition failed_workflow_run :: "workflow_run \<Rightarrow> exn \<Rightarrow> int \<Rightarrow> time \<Rightarrow> workflow_run" where
  "failed_workflow_run run e d now = run\<lparr>wr_status := WR_FAILED, wr_error_code := Some (exn_name e),
     wr_error_message := Some (exn_str e), wr_duration_ms := Some d, wr_completed_at := Some now\<rparr>"

definition settled :: "uuid \<Rightarrow> workflow_step_run_status \<Rightarrow> time \<Rightarrow> workflow_step_run list \<Rightarrow> workflow_step_run list" where
  "settled rid status now t = update_where (\<lambda>s. sr_run_id s = rid \<and> sr_status s = SR_PENDING)
     (\<lambda>s. s\<lparr>sr_status := status, sr_completed_at := Some now\<rparr>) t"

definition step_effect :: "workflow_run \<Rightarrow> workflow_step_run \<Rightarrow> world \<Rightarrow> exn + agent_run \<Rightarrow> world \<Rightarrow> bool" where
  "step_effect run s w res w' \<longleftrightarrow> jobs w' = jobs w \<and> (case res of
       Inr _ \<Rightarrow> workflow_runs w' = workflow_runs w \<and>
         (\<exists>f. sr_id f = sr_id s \<and> sr_run_id f = sr_run_id s \<and> sr_status f = SR_COMPLETED
            \<and> step_runs w' = row_put sr_id f (step_runs w))
     | Inl e \<Rightarrow>
         if step_error e then
           (\<exists>f d now. sr_id f = sr_id s \<and> sr_run_id f = sr_run_id s \<and> sr_status f = SR_FAILED
              \<and> step_runs w' = settled (wr_id run) SR_SKIPPED now (row_put sr_id f (step_runs w))
              \<and> workflow_runs w' = row_put wr_id (failed_workflow_run run e d now) (workflow_runs w))
         else workflow_runs w' = workflow_runs w)"

lemma fail_workflow_run_run:
  "wr_status run = WR_RUNNING \<Longrightarrow> fail_workflow_run ev run e d w =
     (Inr (), w\<lparr>workflow_runs := row_put wr_id (failed_workflow_run run e d (e_now ev (tick w))) (workflow_runs w),
        step_runs := settled (wr_id run) SR_SKIPPED (e_now ev (tick w)) (step_runs w), tick := Suc (tick w)\<rparr>)"
  by (simp add: fail_workflow_run_def validate_workflow_run_transition_def run settle_pending_def
      failed_workflow_run_def settled_def)

lemma attempt_step_effect:
  assumes "lawful_registry (e_providers ev)"
    and "attempt_step ev run started s0 spec owner input ctx w = (res, w')"
    and "sr_status s0 = SR_PENDING" and "wr_status run = WR_RUNNING"
  shows "step_effect run s0 w res w'"
proof -
  let ?s = "s0\<lparr>sr_status := SR_RUNNING, sr_started_at := Some (e_now ev (tick w))\<rparr>"
  let ?w = "w\<lparr>step_runs := row_put sr_id ?s (step_runs w), tick := Suc (Suc (tick w))\<rparr>"
  obtain r k s' w1 where t: "try_step ev ?s spec owner input ctx ?w = (r, k, s', w1)"
    by (metis prod.exhaust)
  have w1: "workflow_runs w1 = workflow_runs w" "jobs w1 = jobs w"
      "sr_id s' = sr_id s0" "sr_run_id s' = sr_run_id s0" "sr_status s' = SR_RUNNING"
    using try_step_tables [OF assms(1) t, of ?s] by auto
  have put: "row_put sr_id x (step_runs w1) = row_put sr_id x (step_runs w)" if "sr_id x = sr_id s0" for x
    using try_step_tables [OF assms(1) t, of x] that by (simp add: row_put_put)
  show ?thesis
  proof (cases r)
    case (Inr agent_run)
    then have "w' = w1\<lparr>step_runs := row_put sr_id (completed_step s' agent_run
         (e_mono ev (tick w1) - e_mono ev (Suc (tick w))) (e_now ev (Suc (tick w1)))) (step_runs w1),
         tick := Suc (Suc (tick w1))\<rparr>" "res = Inr agent_run"
      using assms(2,3) t by (auto simp: attempt_step_def validate_step_run_transition_def run Let_def)
    then show ?thesis
      using w1 put [of "completed_step s' agent_run (e_mono ev (tick w1) - e_mono ev (Suc (tick w)))
          (e_now ev (Suc (tick w1)))"]
      by (simp add: step_effect_def) (metis completed_step_fields)
  next
    case (Inl e)
    have f: "fail_step ev run started s' (e_mono ev (Suc (tick w))) k e w1 = (res, w')"
      using assms(2,3) t Inl by (simp add: attempt_step_def validate_step_run_transition_def run Let_def)
    show ?thesis
    proof (cases "step_error e")
      case True
      define sf where "sf = s'\<lparr>sr_status := SR_FAILED, sr_agent_run_id := k,
                sr_error_code := Some (exn_name e), sr_error_message := Some (exn_str e),
                sr_duration_ms := Some (to_ms (e_mono ev (tick w1) - e_mono ev (Suc (tick w)))),
                sr_completed_at := Some (e_now ev (Suc (tick w1)))\<rparr>"
      have sf: "sr_id sf = sr_id s0" "sr_run_id sf = sr_run_id s0" "sr_status sf = SR_FAILED"
        using w1 by (simp_all add: sf_def)
      let ?d = "to_ms (e_mono ev (Suc (Suc (tick w1))) - started)" and ?t = "e_now ev (Suc (Suc (Suc (tick w1))))"
      have "res = Inl e" "jobs w' = jobs w"
        "step_runs w' = settled (wr_id run) SR_SKIPPED ?t (row_put sr_id sf (step_runs w1))"
        "workflow_runs w' = row_put wr_id (failed_workflow_run run e ?d ?t) (workflow_runs w)"
        using f True w1 assms(4)
        by (auto simp: fail_step_def validate_step_run_transition_def run sf_def fail_workflow_run_run)
      then show ?thesis using True sf put [OF sf(1)] by (auto simp: step_effect_def)
    next
      case False
      then show ?thesis using f w1 by (auto simp: fail_step_def run step_effect_def)
    qed
  qed
qed

lemma attempt_step_raises:
  assumes "lawful_registry (e_providers ev)"
    and "attempt_step ev run started s0 spec owner input ctx w = (Inl e, w')"
    and "sr_status s0 = SR_PENDING" and "wr_status run = WR_RUNNING"
    and "\<And>x. input = Inl x \<Longrightarrow> step_error x \<or> py_error x"
  shows "step_error e \<or> py_error e"
proof -
  let ?s = "s0\<lparr>sr_status := SR_RUNNING, sr_started_at := Some (e_now ev (tick w))\<rparr>"
  let ?w = "w\<lparr>step_runs := row_put sr_id ?s (step_runs w), tick := Suc (Suc (tick w))\<rparr>"
  obtain r k s' w1 where t: "try_step ev ?s spec owner input ctx ?w = (r, k, s', w1)"
    by (metis prod.exhaust)
  have s': "sr_status s' = SR_RUNNING" using try_step_tables [OF assms(1) t, of ?s] by auto
  obtain x where x: "r = Inl x"
    using assms(2,3) t by (cases r) (auto simp: attempt_step_def validate_step_run_transition_def run Let_def)
  have f: "fail_step ev run started s' (e_mono ev (Suc (tick w))) k x w1 = (Inl e :: exn + agent_run, w')"
    using assms(2,3) t x by (simp add: attempt_step_def validate_step_run_transition_def run Let_def)
  have "step_error x \<or> py_error x"
    using try_step_raises [OF assms(1)] t x assms(5)
    by (cases x) (auto simp: execution_error_def step_error_def dest!: try_step_raises [OF assms(1)])
  moreover have "e = x"
    using f s' assms(4)
    by (auto simp: fail_step_def validate_step_run_transition_def run fail_workflow_run_run split: if_splits)
  ultimately show ?thesis by simp
qed

lemma build_step_input_raises:
  "build_step_input spec inp prev outs = Inl e \<Longrightarrow> step_error e \<or> py_error e"
  by (auto simp: build_step_input_def Let_def unresolved_def step_error_def split: if_splits option.splits)


section \<open>The loop\<close>

text \<open>
  Before a step: every row of the run is a step still to do, PENDING and unchanged since it was
  loaded, or one that COMPLETED.
\<close>

definition ready :: "uuid \<Rightarrow> workflow_step_run list \<Rightarrow> world \<Rightarrow> bool" where
  "ready rid rest w \<longleftrightarrow> distinct (map sr_id (step_runs w)) \<and> distinct (map sr_id rest)
     \<and> (\<forall>s\<in>set rest. sr_run_id s = rid \<and> sr_status s = SR_PENDING)
     \<and> (\<forall>row\<in>set (step_runs w). sr_run_id row = rid \<longrightarrow> row \<in> set rest \<or> sr_status row = SR_COMPLETED)"

definition steps_in :: "uuid \<Rightarrow> workflow_step_run_status set \<Rightarrow> world \<Rightarrow> bool" where
  "steps_in rid S w \<longleftrightarrow> (\<forall>row\<in>set (step_runs w). sr_run_id row = rid \<longrightarrow> sr_status row \<in> S)"

lemma ready_Nil: "ready rid [] w \<Longrightarrow> steps_in rid {SR_COMPLETED} w"
  by (simp add: ready_def steps_in_def)

lemma ready_tables: "ready rid rest w \<Longrightarrow> step_runs w' = step_runs w \<Longrightarrow> ready rid rest w'"
  by (simp add: ready_def)

lemma ready_step:
  assumes "ready rid (s # rest) w" and "sr_id f = sr_id s" "sr_status f = SR_COMPLETED"
    and "step_runs w' = row_put sr_id f (step_runs w)"
  shows "ready rid rest w'"
  unfolding ready_def
proof (intro conjI ballI impI)
  have d: "distinct (map sr_id (step_runs w))" using assms(1) by (simp add: ready_def)
  then show "distinct (map sr_id (step_runs w'))" by (simp add: assms(4) distinct_row_put)
  show "distinct (map sr_id rest)" using assms(1) by (simp add: ready_def)
  fix row assume "row \<in> set (step_runs w')" "sr_run_id row = rid"
  then have "row = f \<or> (row \<in> set (step_runs w) \<and> sr_id row \<noteq> sr_id s)"
    using d by (simp add: assms(2,4) mem_row_put)
  then show "row \<in> set rest \<or> sr_status row = SR_COMPLETED"
    using assms(1,3) \<open>sr_run_id row = rid\<close> unfolding ready_def by auto
qed (use assms(1) in \<open>simp_all add: ready_def\<close>)

lemma settled_steps:
  assumes "\<And>row. row \<in> set t \<Longrightarrow> sr_run_id row = rid \<Longrightarrow> sr_status row \<in> insert SR_PENDING S"
    and "step_runs w' = settled rid status now t" and "status \<in> S"
  shows "steps_in rid S w'"
  unfolding steps_in_def
proof (intro ballI impI)
  fix row assume "row \<in> set (step_runs w')" "sr_run_id row = rid"
  then obtain r where r: "r \<in> set t" "row = (if sr_run_id r = rid \<and> sr_status r = SR_PENDING
      then r\<lparr>sr_status := status, sr_completed_at := Some now\<rparr> else r)"
    unfolding assms(2) settled_def set_update_where by blast
  show "sr_status row \<in> S"
  proof (cases "sr_run_id r = rid \<and> sr_status r = SR_PENDING")
    case True
    then show ?thesis using r(2) assms(3) by simp
  next
    case False
    then show ?thesis using r assms(1) [OF r(1)] \<open>sr_run_id row = rid\<close> by auto
  qed
qed

definition cancellation :: "uuid \<Rightarrow> exn" where
  "cancellation rid = Workflow (WorkflowRunCancelledDuringExecutionError rid)"

definition workflow_failure :: "exn \<Rightarrow> bool" where
  "workflow_failure e = (case e of Workflow _ \<Rightarrow> True | Runtime _ \<Rightarrow> True | LLM _ \<Rightarrow> True | _ \<Rightarrow> False)"

text \<open>How a raised exception leaves the run and its steps.\<close>

definition stopped :: "uuid \<Rightarrow> world \<Rightarrow> exn \<Rightarrow> bool" where
  "stopped rid w e \<longleftrightarrow> (\<exists>row. row_get wr_id rid (workflow_runs w) = Some row \<and>
     (if e = cancellation rid then wr_status row = WR_CANCELLED \<and> steps_in rid {SR_COMPLETED, SR_CANCELLED} w
      else if workflow_failure e then
        wr_status row = WR_FAILED \<and> wr_error_code row = Some (exn_name e)
        \<and> wr_error_message row = Some (exn_str e) \<and> steps_in rid {SR_COMPLETED, SR_FAILED, SR_SKIPPED} w
      else wr_status row = WR_RUNNING))"

definition quiet :: "bool app \<Rightarrow> bool" where
  "quiet c \<longleftrightarrow> no_tables c \<and> raises_only (\<lambda>_. False) c"

definition quiet_check :: "bool app option \<Rightarrow> bool" where
  "quiet_check check \<longleftrightarrow> (case check of None \<Rightarrow> True | Some c \<Rightarrow> quiet c)"

lemma same_tables_eqs:
  "same_tables w w' \<Longrightarrow> step_runs w' = step_runs w \<and> workflow_runs w' = workflow_runs w \<and> jobs w' = jobs w"
  unfolding same_tables_def by (cases w; cases w') simp

lemma quiet_check_run:
  assumes "quiet_check check"
  shows "\<exists>b w1. (case check of None \<Rightarrow> ret False | Some c \<Rightarrow> c) w = (Inr b, w1)
    \<and> step_runs w1 = step_runs w \<and> workflow_runs w1 = workflow_runs w \<and> jobs w1 = jobs w"
proof (cases check)
  case (Some c)
  obtain r w1 where c: "c w = (r, w1)" by (cases "c w")
  have q: "no_tables c" "raises_only (\<lambda>_. False) c"
    using assms Some by (simp_all add: quiet_check_def quiet_def)
  have "r \<noteq> Inl e" for e using raises_onlyD [OF q(2)] c by blast
  then obtain b where "r = Inr b" by (cases r) auto
  then show ?thesis
    using same_tables_eqs [OF no_tablesD [OF q(1) c]] c Some by simp
qed (auto simp: monad)

lemma failed_run_fields [simp]:
  "wr_id (failed_workflow_run run e d t) = wr_id run" "wr_status (failed_workflow_run run e d t) = WR_FAILED"
  "wr_error_code (failed_workflow_run run e d t) = Some (exn_name e)"
  "wr_error_message (failed_workflow_run run e d t) = Some (exn_str e)"
  by (simp_all add: failed_workflow_run_def)

lemma step_error_failure: "step_error e \<Longrightarrow> workflow_failure e \<and> e \<noteq> cancellation rid"
  by (auto simp: step_error_def workflow_failure_def cancellation_def split: exn.splits workflow_error.splits)

lemma run_steps_outcome:
  assumes lawful: "lawful_registry (e_providers ev)" and quiet: "quiet_check check"
    and running: "wr_status run = WR_RUNNING"
  shows "run_steps ev run started owner specs inp ctx check outputs previous final rest w = (res, w') \<Longrightarrow>
     ready (wr_id run) rest w \<Longrightarrow> row_get wr_id (wr_id run) (workflow_runs w) = Some run \<Longrightarrow>
     jobs w' = jobs w \<and> (case res of
         Inr _ \<Rightarrow> workflow_runs w' = workflow_runs w \<and> ready (wr_id run) [] w'
       | Inl e \<Rightarrow> stopped (wr_id run) w' e)"
proof (induction rest arbitrary: outputs previous final w)
  case Nil
  then show ?case by (auto simp: run)
next
  case (Cons s rest)
  obtain b w1 where c: "(case check of None \<Rightarrow> ret False | Some c \<Rightarrow> c) w = (Inr b, w1)"
    and w1: "step_runs w1 = step_runs w" "workflow_runs w1 = workflow_runs w" "jobs w1 = jobs w"
    using quiet_check_run [OF quiet] by metis
  have ready1: "ready (wr_id run) (s # rest) w1" using ready_tables [OF Cons.prems(2)] w1 by simp
  show ?case
  proof (cases b)
    case True
    let ?r = "run\<lparr>wr_status := WR_CANCELLED, wr_duration_ms := Some (to_ms (e_mono ev (tick w1) - started)),
       wr_completed_at := Some (e_now ev (Suc (tick w1)))\<rparr>"
    have "res = Inl (cancellation (wr_id run))" "jobs w' = jobs w"
      "workflow_runs w' = row_put wr_id ?r (workflow_runs w1)"
      "step_runs w' = settled (wr_id run) SR_CANCELLED (e_now ev (Suc (tick w1))) (step_runs w1)"
      using Cons.prems(1) c True running w1
      by (auto simp: run cancel_running_workflow_def validate_workflow_run_transition_def settle_pending_def
          settled_def cancellation_def)
    moreover have "steps_in (wr_id run) {SR_COMPLETED, SR_CANCELLED} w'"
      by (rule settled_steps [OF _ calculation(4)]) (use ready1 in \<open>auto simp: ready_def\<close>)
    ultimately show ?thesis by (simp add: stopped_def row_get_put)
  next
    case False
    show ?thesis
    proof (cases "specs (sr_step_id s)")
      case None
      then have "res = Inl (PyExc ''KeyError'' (repr_str (sr_step_id s)))" "w' = w1"
        using Cons.prems(1) c False by (auto simp: run)
      then show ?thesis
        using Cons.prems(3) w1 running by (simp add: stopped_def cancellation_def workflow_failure_def)
    next
      case (Some spec)
      let ?in = "build_step_input spec inp previous outputs"
      obtain ar w2 where a: "attempt_step ev run started s spec owner ?in ctx w1 = (ar, w2)"
        by (cases "attempt_step ev run started s spec owner ?in ctx w1")
      have s: "sr_status s = SR_PENDING" "sr_run_id s = wr_id run" using ready1 by (auto simp: ready_def)
      have eff: "step_effect run s w1 ar w2" by (rule attempt_step_effect [OF lawful a s(1) running])
      show ?thesis
      proof (cases ar)
        case (Inr agent_run)
        then obtain f where f: "sr_id f = sr_id s" "sr_status f = SR_COMPLETED"
            "step_runs w2 = row_put sr_id f (step_runs w1)"
          and w2: "workflow_runs w2 = workflow_runs w" "jobs w2 = jobs w"
          using eff w1 by (auto simp: step_effect_def)
        have "ready (wr_id run) rest w2" by (rule ready_step [OF ready1 f])
        moreover have "run_steps ev run started owner specs inp ctx check
            (dict_set outputs (sr_step_id s) (case ar_output_text agent_run of None \<Rightarrow> [] | Some t \<Rightarrow> t))
            (Some (sr_step_id s)) (ar_output_text agent_run) rest w2 = (res, w')"
          using Cons.prems(1) c False Some a Inr by (simp add: run)
        ultimately show ?thesis using Cons.IH Cons.prems(3) w2 by metis
      next
        case (Inl e)
        then have res: "res = Inl e" "w' = w2" using Cons.prems(1) c False Some a by (auto simp: run)
        have kind: "step_error e \<or> py_error e"
          by (rule attempt_step_raises [OF lawful a [unfolded Inl] s(1) running])
            (rule build_step_input_raises)
        show ?thesis
        proof (cases "step_error e")
          case True
          then obtain f d now where f: "sr_id f = sr_id s" "sr_run_id f = sr_run_id s" "sr_status f = SR_FAILED"
              "step_runs w2 = settled (wr_id run) SR_SKIPPED now (row_put sr_id f (step_runs w1))"
              "workflow_runs w2 = row_put wr_id (failed_workflow_run run e d now) (workflow_runs w1)"
            using eff Inl by (auto simp: step_effect_def)
          have "steps_in (wr_id run) {SR_COMPLETED, SR_FAILED, SR_SKIPPED} w2"
          proof (rule settled_steps [OF _ f(4)])
            fix row assume "row \<in> set (row_put sr_id f (step_runs w1))" "sr_run_id row = wr_id run"
            then show "sr_status row \<in> insert SR_PENDING {SR_COMPLETED, SR_FAILED, SR_SKIPPED}"
              using ready1 f(3) by (auto simp: ready_def mem_row_put)
          qed simp
          then show ?thesis
            using res eff Inl True f(5) w1 step_error_failure [OF True, of "wr_id run"]
            by (simp add: stopped_def row_get_put step_effect_def)
        next
          case False
          then have "\<not> workflow_failure e" "e \<noteq> cancellation (wr_id run)"
            using kind by (cases e; simp add: workflow_failure_def py_error_def cancellation_def)+
          then show ?thesis
            using res eff Inl False w1 Cons.prems(3) running by (simp add: stopped_def step_effect_def)
        qed
      qed
    qed
  qed
qed

section \<open>The whole execution\<close>

definition setup_failure :: "exn \<Rightarrow> bool" where
  "setup_failure e \<longleftrightarrow> (\<exists>wid d. e = invalid wid d) \<or> (\<exists>d. e = PyExc ''TypeError'' d)"

lemma setup_failure_intros [simp, intro]: "setup_failure (invalid wid d)" "setup_failure (PyExc ''TypeError'' d)"
  by (auto simp: setup_failure_def)

lemma errs_if: "errs P a \<Longrightarrow> errs P b \<Longrightarrow> errs P (if c then a else b)"
  by simp

lemma errs_json:
  "(\<And>d. errs P (f d)) \<Longrightarrow> errs P x \<Longrightarrow> errs P (case j of JObj d \<Rightarrow> f d | _ \<Rightarrow> x)"
  "(\<And>d. errs P (g d)) \<Longrightarrow> errs P x \<Longrightarrow> errs P (case j of JStr d \<Rightarrow> g d | _ \<Rightarrow> x)"
  by (cases j; simp)+

lemma parse_input_mapping_raises: "errs setup_failure (parse_input_mapping wid sid raw known first)"
  unfolding parse_input_mapping_def Let_def by (intro errs_json errs_if) auto

lemma parse_step_head_raises: "errs setup_failure (parse_step_head wid ids orders raw)"
  unfolding parse_step_head_def Let_def by (intro errs_json errs_if) (auto split: option.split)

lemma parse_heads_raises: "errs setup_failure (parse_heads wid ids orders raws)"
proof (induction wid ids orders raws rule: parse_heads.induct)
  case (2 wid ids orders raw raws)
  then show ?case using parse_step_head_raises [of wid ids orders raw]
    by (fastforce simp: errs_def split: sum.splits)
qed (simp add: errs_def)

lemma resolve_mappings_raises: "errs setup_failure (resolve_mappings wid known first heads)"
proof (induction wid known first heads rule: resolve_mappings.induct)
  case (2 wid known first spec d rest)
  then show ?case using parse_input_mapping_raises [of wid "ws_step_id spec" "dict_get d ''input_mapping''" known first]
    by (auto simp: errs_def split: sum.splits json.splits)
qed (simp add: errs_def)

lemma parse_steps_raises: "errs setup_failure (parse_workflow_steps wid d)"
  using parse_heads_raises resolve_mappings_raises
  by (auto simp: errs_def parse_workflow_steps_def bindE_def setup_failure_def split: json.splits sum.splits)

lemma setup_failure_kind:
  "setup_failure e \<Longrightarrow> e \<noteq> cancellation i \<and> setup_error e = workflow_failure e"
  by (auto simp: setup_failure_def invalid_def cancellation_def setup_error_def workflow_failure_def)

lemma workflow_setup_run:
  assumes "workflow_setup r w = (x, w')"
  shows "w' = w \<and> (\<forall>e. x = Inl e \<longrightarrow> e \<noteq> cancellation i \<and> setup_error e = workflow_failure e)"
proof (cases "row_get wd_id (wr_workflow_id r) (workflows w)")
  case None
  then show ?thesis using assms
    by (auto simp: workflow_setup_def run setup_error_def workflow_failure_def cancellation_def)
next
  case (Some d)
  note p = parse_steps_raises [of "wr_workflow_id r" "wd_definition d"]
  show ?thesis
  proof (cases "parse_workflow_steps (wr_workflow_id r) (wd_definition d)")
    case (Inl e)
    then show ?thesis using assms Some setup_failure_kind [OF errsD [OF p Inl], of i]
      by (auto simp: workflow_setup_def run)
  next
    case (Inr ss)
    then show ?thesis using assms Some
      by (cases "wr_created_by r")
         (auto simp: workflow_setup_def run setup_error_def workflow_failure_def cancellation_def)
  qed
qed


text \<open>A run that has not started: every one of its steps is still to do.\<close>

definition startable :: "workflow_run \<Rightarrow> world \<Rightarrow> bool" where
  "startable r w \<longleftrightarrow> wr_status r = WR_QUEUED \<and> distinct (map sr_id (step_runs w)) \<and> steps_in (wr_id r) {SR_PENDING} w"

lemma steps_of_ready:
  assumes "startable r w" "step_runs w' = step_runs w"
  shows "ready (wr_id r) (steps_of (wr_id r) w') w'"
proof -
  have "distinct (map sr_id (filter (\<lambda>s. sr_run_id s = wr_id r) (step_runs w)))"
    using assms(1) by (simp add: startable_def distinct_map_filter)
  then have "distinct (map sr_id (steps_of (wr_id r) w'))"
    unfolding steps_of_def order_by_def assms(2)
    by (simp add: distinct_map)
  then show ?thesis
    using assms unfolding ready_def startable_def steps_in_def steps_of_def order_by_def by auto
qed

definition workflow_settled :: "uuid \<Rightarrow> exn + workflow_run \<Rightarrow> world \<Rightarrow> bool" where
  "workflow_settled rid res w \<longleftrightarrow> (case res of
       Inr r \<Rightarrow> wr_id r = rid \<and> wr_status r = WR_COMPLETED
         \<and> row_get wr_id rid (workflow_runs w) = Some r \<and> steps_in rid {SR_COMPLETED} w
     | Inl e \<Rightarrow> stopped rid w e)"

lemma execute_workflow_run_outcome:
  assumes lawful: "lawful_registry (e_providers ev)" and quiet: "quiet_check check"
    and start: "startable run0 w"
    and ex: "execute_workflow_run ev run0 inp ctx check w = (res, w')"
  shows "jobs w' = jobs w \<and> workflow_settled (wr_id run0) res w'"
proof -
  let ?r1 = "run0\<lparr>wr_status := WR_RUNNING, wr_started_at := Some (e_now ev (tick w))\<rparr>"
  let ?w1 = "w\<lparr>workflow_runs := row_put wr_id ?r1 (workflow_runs w), tick := Suc (Suc (tick w))\<rparr>"
  have r1: "wr_id ?r1 = wr_id run0" "wr_status ?r1 = WR_RUNNING" by simp_all
  obtain su w2 where su: "workflow_setup ?r1 ?w1 = (su, w2)" by (cases "workflow_setup ?r1 ?w1")
  have w2: "w2 = ?w1" using workflow_setup_run [OF su] by simp
  have row: "row_get wr_id (wr_id run0) (workflow_runs ?w1) = Some ?r1" by (simp add: row_get_put)
  have q: "wr_status run0 = WR_QUEUED" using start by (simp add: startable_def)
  show ?thesis
  proof (cases su)
    case (Inl e)
    note k = workflow_setup_run [OF su, of "wr_id run0"] Inl
    show ?thesis
    proof (cases "setup_error e")
      case True
      have "res = Inl e" and w': "jobs w' = jobs w" "step_runs w' = settled (wr_id run0) SR_SKIPPED (e_now ev (Suc (tick ?w1))) (step_runs w)"
        "workflow_runs w' = row_put wr_id (failed_workflow_run ?r1 e (to_ms (e_mono ev (tick ?w1) - e_mono ev (Suc (tick w))))
           (e_now ev (Suc (tick ?w1)))) (workflow_runs ?w1)"
        using ex su w2 Inl True q
        by (auto simp: execute_workflow_run_def validate_workflow_run_transition_def run Let_def
            fail_workflow_run_run)
      moreover have "steps_in (wr_id run0) {SR_COMPLETED, SR_FAILED, SR_SKIPPED} w'"
        by (rule settled_steps [OF _ w'(2) ]) (use start in \<open>auto simp: startable_def steps_in_def\<close>)
      ultimately show ?thesis using k True by (simp add: workflow_settled_def stopped_def row_get_put)
    next
      case False
      have "res = Inl e" "w' = ?w1"
        using ex su w2 Inl False q
        by (auto simp: execute_workflow_run_def validate_workflow_run_transition_def run Let_def)
      then show ?thesis using k False row by (simp add: workflow_settled_def stopped_def)
    qed
  next
    case (Inr so)
    obtain steps owner where so: "so = (steps, owner)" by (cases so)
    let ?specs = "map_of (rev (map (\<lambda>s. (ws_step_id s, s)) steps))"
    let ?go = "run_steps ev ?r1 (e_mono ev (Suc (tick w))) owner ?specs inp ctx check [] None None (steps_of (wr_id ?r1) ?w1)"
    obtain out w3 where go: "?go ?w1 = (out, w3)" by (cases "?go ?w1")
    have "ready (wr_id ?r1) (steps_of (wr_id ?r1) ?w1) ?w1"
      using steps_of_ready [OF start, of ?w1] by simp
    note o = run_steps_outcome [OF lawful quiet r1(2) go this] r1 row
    show ?thesis
    proof (cases out)
      case (Inl e)
      then have "res = Inl e" "w' = w3"
        using ex su w2 so \<open>su = Inr so\<close> go q
        by (auto simp: execute_workflow_run_def validate_workflow_run_transition_def run Let_def)
      then show ?thesis using o Inl by (simp add: workflow_settled_def)
    next
      case (Inr f)
      let ?r = "?r1\<lparr>wr_status := WR_COMPLETED, wr_output_text := f,
          wr_duration_ms := Some (to_ms (e_mono ev (tick w3) - e_mono ev (Suc (tick w)))),
          wr_completed_at := Some (e_now ev (Suc (tick w3)))\<rparr>"
      have "res = Inr ?r" "w' = w3\<lparr>workflow_runs := row_put wr_id ?r (workflow_runs w3), tick := Suc (Suc (tick w3))\<rparr>"
        using ex su w2 so \<open>su = Inr so\<close> go q Inr
        by (auto simp: execute_workflow_run_def validate_workflow_run_transition_def run Let_def)
      then show ?thesis
        using o Inr ready_Nil [of "wr_id run0" w3]
        by (simp add: workflow_settled_def row_get_put steps_in_def)
    qed
  qed
qed

section \<open>Creation and cancellation\<close>

lemma get_active_agent_reads: "get_active_agent aid w = (x, w') \<Longrightarrow> w' = w"
  by (auto simp: get_active_agent_def run split: option.splits if_splits)

lemma check_agents_reads: "check_agents ss w = (x, w') \<Longrightarrow> w' = w"
proof (induction ss arbitrary: w)
  case (Cons s ss)
  obtain y w1 where g: "get_active_agent (ws_agent_id s) w = (y, w1)" by (cases "get_active_agent (ws_agent_id s) w")
  then show ?case
    using get_active_agent_reads [OF g] Cons by (cases y) (auto simp: run)
qed (simp add: run)

text \<open>The identifiers drawn between two worlds are distinct and used by no run yet.\<close>

definition fresh_uuids :: "env \<Rightarrow> world \<Rightarrow> world \<Rightarrow> bool" where
  "fresh_uuids ev w w' \<longleftrightarrow> (let ids = map (e_uuid ev) [tick w..<tick w'] in
     distinct ids \<and> (\<forall>i\<in>set ids. i \<notin> sr_id ` set (step_runs w) \<and> i \<notin> sr_run_id ` set (step_runs w)))"

lemma add_step_runs_run:
  "distinct (map (e_uuid ev) [tick w..<tick w + length ss]) \<Longrightarrow>
   (\<forall>n\<in>{tick w..<tick w + length ss}. e_uuid ev n \<notin> sr_id ` set (step_runs w)) \<Longrightarrow>
   add_step_runs ev rid ss w = (Inr (), w\<lparr>step_runs := step_runs w @
       map2 (\<lambda>n s. new_step_run (e_uuid ev n) rid s) [tick w..<tick w + length ss] ss,
     tick := tick w + length ss\<rparr>)"
proof (induction ss arbitrary: w)
  case (Cons s ss)
  let ?r = "new_step_run (e_uuid ev (tick w)) rid s"
  let ?w = "w\<lparr>tick := Suc (tick w), step_runs := step_runs w @ [?r]\<rparr>"
  have up: "[tick w..<tick w + length (s # ss)] = tick w # [Suc (tick w)..<Suc (tick w) + length ss]"
    using upt_rec [of "tick w" "tick w + length (s # ss)"] by simp
  have id: "sr_id ?r = e_uuid ev (tick w)" by (simp add: new_step_run_def)
  have "row_put sr_id ?r (step_runs w) = step_runs w @ [?r]"
    using Cons.prems(2) by (intro row_put_fresh) (auto simp: id)
  then have "add_step_runs ev rid (s # ss) w = add_step_runs ev rid ss ?w"
    by (simp add: run)
  also have "\<dots> = (Inr (), ?w\<lparr>step_runs := step_runs ?w @
       map2 (\<lambda>n s. new_step_run (e_uuid ev n) rid s) [tick ?w..<tick ?w + length ss] ss,
     tick := tick ?w + length ss\<rparr>)"
  proof (rule Cons.IH)
    have u: "e_uuid ev (tick w) \<notin> e_uuid ev ` set [Suc (tick w)..<Suc (tick w) + length ss]"
      "distinct (map (e_uuid ev) [Suc (tick w)..<Suc (tick w) + length ss])"
      using Cons.prems(1) unfolding up by (simp_all only: list.map distinct.simps set_map not_False_eq_True)
    then show "distinct (map (e_uuid ev) [tick ?w..<tick ?w + length ss])" by simp
    show "\<forall>n\<in>{tick ?w..<tick ?w + length ss}. e_uuid ev n \<notin> sr_id ` set (step_runs ?w)"
    proof
      fix n assume n: "n \<in> {tick ?w..<tick ?w + length ss}"
      then have "e_uuid ev n \<in> e_uuid ev ` set [Suc (tick w)..<Suc (tick w) + length ss]"
        by (simp only: set_upt) simp
      then have "e_uuid ev n \<noteq> e_uuid ev (tick w)" using u(1) by metis
      then show "e_uuid ev n \<notin> sr_id ` set (step_runs ?w)" using n Cons.prems(2) by (auto simp: id)
    qed
  qed
  finally show ?case unfolding up by simp
qed (simp add: run)

lemma add_step_runs_tick: "\<exists>w'. add_step_runs ev rid ss w = (Inr (), w') \<and> tick w' = tick w + length ss"
proof (induction ss arbitrary: w)
  case (Cons s ss)
  show ?case
    using Cons [of "w\<lparr>tick := Suc (tick w), step_runs := row_put sr_id (new_step_run (e_uuid ev (tick w)) rid s) (step_runs w)\<rparr>"]
    by (auto simp: run)
qed (simp add: run)

lemma new_step_run_fields [simp]:
  "sr_id (new_step_run i rid s) = i" "sr_run_id (new_step_run i rid s) = rid"
  "sr_status (new_step_run i rid s) = SR_PENDING" "sr_step_id (new_step_run i rid s) = ws_step_id s"
  "sr_order (new_step_run i rid s) = ws_order s"
  by (simp_all add: new_step_run_def)

lemma new_step_runs_fields:
  "length ids = length ss \<Longrightarrow>
     map sr_order (map2 (\<lambda>i s. new_step_run (f i) rid s) ids ss) = map ws_order ss
     \<and> map sr_step_id (map2 (\<lambda>i s. new_step_run (f i) rid s) ids ss) = map ws_step_id ss
     \<and> map sr_id (map2 (\<lambda>i s. new_step_run (f i) rid s) ids ss) = map f ids"
  by (induction ids ss rule: list_induct2) auto

text \<open>What creating a run leaves behind.\<close>

definition created :: "uuid \<Rightarrow> uuid \<Rightarrow> workflow_run \<Rightarrow> world \<Rightarrow> world \<Rightarrow> bool" where
  "created wid user r w w' \<longleftrightarrow> startable r w'
     \<and> wr_workflow_id r = wid \<and> wr_created_by r = Some user
     \<and> row_get wr_id (wr_id r) (workflow_runs w') = Some r
     \<and> (\<exists>d ss. row_get wd_id wid (workflows w) = Some d \<and> wd_status d = WS_ACTIVE
          \<and> parse_workflow_steps wid (wd_definition d) = Inr ss
          \<and> map sr_step_id (steps_of (wr_id r) w') = map ws_step_id ss)"

lemma steps_of_created:
  assumes "well_formed_steps ss" "length ids = length ss" "rid \<notin> sr_run_id ` set old"
    and "step_runs w = old @ map2 (\<lambda>i s. new_step_run (f i) rid s) ids ss"
  shows "map sr_step_id (steps_of rid w) = map ws_step_id ss" "steps_in rid {SR_PENDING} w"
proof -
  let ?new = "map2 (\<lambda>i s. new_step_run (f i) rid s) ids ss"
  have "filter (\<lambda>s. sr_run_id s = rid) old = []" using assms(3) by (auto simp: filter_empty_conv)
  moreover have n: "\<forall>x\<in>set ?new. sr_run_id x = rid \<and> sr_status x = SR_PENDING" by auto
  ultimately have f: "filter (\<lambda>s. sr_run_id s = rid) (step_runs w) = ?new"
    by (simp add: assms(4) filter_id_conv)
  have "map sr_order ?new = map ws_order ss" using new_step_runs_fields [OF assms(2)] by blast
  then have "sorted (map sr_order ?new)"
    using assms(1) by (simp add: well_formed_steps_def strict_sorted_imp_sorted)
  then have "sort_key sr_order ?new = ?new" by (rule sort_key_id_if_sorted)
  then show "map sr_step_id (steps_of rid w) = map ws_step_id ss"
    using new_step_runs_fields [OF assms(2)] by (simp only: steps_of_def order_by_def f)
  show "steps_in rid {SR_PENDING} w"
    unfolding steps_in_def assms(4)
  proof (intro ballI impI)
    fix row assume "row \<in> set (old @ ?new)" "sr_run_id row = rid"
    then have "row \<in> set ?new" using assms(3) by (simp add: image_iff) (metis)
    then show "sr_status row \<in> {SR_PENDING}" using n by blast
  qed
qed

lemma create_workflow_run_outcome:
  assumes ex: "create_workflow_run ev wid user w = (res, w')"
    and fresh: "fresh_uuids ev w w'" and dis: "distinct (map sr_id (step_runs w))"
  shows "case res of Inl e \<Rightarrow> w' = w | Inr r \<Rightarrow> created wid user r w w'"
proof -
  obtain aw w0 where aw: "get_active_workflow wid w = (aw, w0)" by (cases "get_active_workflow wid w")
  then have w0: "w0 = w" by (auto simp: get_active_workflow_def run split: option.splits if_splits)
  show ?thesis
  proof (cases aw)
    case (Inl e)
    then show ?thesis using ex aw w0 by (auto simp: create_workflow_run_def run)
  next
    case (Inr d)
    then have d_ok: "row_get wd_id wid (workflows w) = Some d" "wd_status d = WS_ACTIVE"
      using aw by (auto simp: get_active_workflow_def run split: option.splits if_splits)
    show ?thesis
    proof (cases "parse_workflow_steps wid (wd_definition d)")
      case (Inl e)
      then show ?thesis using ex aw w0 \<open>aw = Inr d\<close> by (auto simp: create_workflow_run_def run)
    next
      case (Inr ss)
      obtain ca w1 where ca: "check_agents ss w = (ca, w1)" by (cases "check_agents ss w")
      have w1: "w1 = w" using check_agents_reads [OF ca] .
      show ?thesis
      proof (cases ca)
        case (Inl e)
        then show ?thesis using ex aw w0 \<open>aw = Inr d\<close> Inr ca w1 by (auto simp: create_workflow_run_def run)
      next
        case (Inr u)
        let ?r = "new_workflow_run (e_uuid ev (tick w)) wid user (e_now ev (Suc (tick w)))"
        let ?w = "w\<lparr>tick := Suc (Suc (tick w)), workflow_runs := row_put wr_id ?r (workflow_runs w)\<rparr>"
        have go: "seqM (add_step_runs ev (e_uuid ev (tick w)) ss) (ret ?r) ?w = (res, w')"
          using ex aw w0 \<open>aw = Inr d\<close> \<open>_ = Inr ss\<close> ca w1 Inr
          by (auto simp: create_workflow_run_def run Let_def)
        let ?n = "length ss" and ?t = "Suc (Suc (tick w))"
        obtain w2 where a: "add_step_runs ev (e_uuid ev (tick w)) ss ?w = (Inr (), w2)" "tick w2 = ?t + ?n"
          using add_step_runs_tick [of ev "e_uuid ev (tick w)" ss ?w] by auto
        then have res: "res = Inr ?r" "w' = w2" using go by (auto simp: run)
        define ns where "ns = [?t..<?t + ?n]"
        have ns: "length ns = ?n" "set ns = {?t..<?t + ?n}"
          unfolding ns_def by (simp only: length_upt add_diff_cancel_left', simp only: set_upt)
        have ids: "[tick w..<tick w'] = tick w # Suc (tick w) # ns"
          unfolding ns_def using a(2) res(2) upt_rec [of "tick w" "?t + ?n"] upt_rec [of "Suc (tick w)" "?t + ?n"]
          by simp
        have d: "distinct (map (e_uuid ev) ns)" "e_uuid ev (tick w) \<notin> sr_run_id ` set (step_runs w)"
          and o: "\<forall>n\<in>{?t..<?t + ?n}. e_uuid ev n \<notin> sr_id ` set (step_runs w)"
          using fresh unfolding fresh_uuids_def Let_def ids ns(2) [symmetric] by simp_all
        let ?new = "map2 (\<lambda>n s. new_step_run (e_uuid ev n) (e_uuid ev (tick w)) s) ns ss"
        note l = ns(1)
        have tw: "tick ?w = ?t" "step_runs ?w = step_runs w" by simp_all
        have "w' = ?w\<lparr>step_runs := step_runs w @ ?new, tick := ?t + ?n\<rparr>"
          using add_step_runs_run [where w = ?w and ss = ss and rid = "e_uuid ev (tick w)", unfolded tw, folded ns_def,
              OF d(1) o] a(1) res(2) by simp
        then have w': "step_runs w' = step_runs w @ ?new" "workflow_runs w' = row_put wr_id ?r (workflow_runs w)"
          by simp_all
        have "well_formed_steps ss" by (rule parse_workflow_steps_well_formed [OF \<open>_ = Inr ss\<close>])
        note steps = steps_of_created [OF this l d(2) w'(1)]
        have "set (map sr_id ?new) = e_uuid ev ` {?t..<?t + ?n}" "distinct (map sr_id ?new)"
          using new_step_runs_fields [OF l, of "e_uuid ev" "e_uuid ev (tick w)"] d(1) ns(2)
          by (metis image_set, metis)
        moreover have "sr_id ` set (step_runs w) \<inter> e_uuid ev ` {?t..<?t + ?n} = {}"
          using o unfolding disjoint_iff image_iff by blast
        ultimately have "distinct (map sr_id (step_runs w'))"
          using dis by (simp only: w'(1) map_append distinct_append set_map)
        then have "startable ?r w'" using steps(2) by (simp add: startable_def new_workflow_run_def)
        then show ?thesis
          using res(1) w'(2) d_ok \<open>_ = Inr ss\<close> steps(1)
          by (auto simp: created_def new_workflow_run_def row_get_put)
      qed
    qed
  qed
qed

definition cancelled_workflow_run :: "workflow_run \<Rightarrow> time \<Rightarrow> workflow_run" where
  "cancelled_workflow_run r now = r\<lparr>wr_status := WR_CANCELLED, wr_completed_at := Some now,
     wr_duration_ms := (case wr_started_at r of None \<Rightarrow> wr_duration_ms r | Some t \<Rightarrow> Some (to_ms (now - t)))\<rparr>"

lemma cancelled_workflow_run_fields [simp]:
  "wr_id (cancelled_workflow_run r t) = wr_id r" "wr_status (cancelled_workflow_run r t) = WR_CANCELLED"
  "wr_created_by (cancelled_workflow_run r t) = wr_created_by r"
  by (simp_all add: cancelled_workflow_run_def)

lemma cancel_workflow_run_active:
  assumes "get_workflow_run rid current w = (Inr old, w)" and "wr_status old \<in> {WR_QUEUED, WR_RUNNING}"
  shows "cancel_workflow_run ev rid current w =
     (Inr (cancelled_workflow_run old (e_now ev (tick w))),
      w\<lparr>workflow_runs := row_put wr_id (cancelled_workflow_run old (e_now ev (tick w))) (workflow_runs w),
        step_runs := settled rid SR_CANCELLED (e_now ev (tick w)) (step_runs w), tick := Suc (tick w)\<rparr>)"
  using assms by (elim insertE emptyE)
    (simp_all add: cancel_workflow_run_def run validate_workflow_run_transition_def Let_def settle_pending_def
      settled_def cancelled_workflow_run_def)

lemma cancel_workflow_run_outcome:
  assumes ex: "cancel_workflow_run ev rid current w = (res, w')"
  shows "case res of
      Inl e \<Rightarrow> w' = w
    | Inr r \<Rightarrow> wr_id r = rid \<and> wr_status r = WR_CANCELLED \<and> visible_to current (wr_created_by r)
        \<and> row_get wr_id rid (workflow_runs w') = Some r
        \<and> (\<exists>old. row_get wr_id rid (workflow_runs w) = Some old \<and>
             (if wr_status old = WR_CANCELLED then w' = w
              else wr_status old \<in> {WR_QUEUED, WR_RUNNING}
                \<and> steps_in rid (- {SR_PENDING}) w'))"
proof (cases "row_get wr_id rid (workflow_runs w)")
  case None
  then show ?thesis using ex by (auto simp: cancel_workflow_run_def get_workflow_run_def run)
next
  case (Some old)
  then have id: "wr_id old = rid" using row_get_SomeD [OF Some] by simp
  show ?thesis
  proof (cases "visible_to current (wr_created_by old)")
    case False
    then show ?thesis using ex Some by (auto simp: cancel_workflow_run_def get_workflow_run_def run)
  next
    case True
    then have get: "get_workflow_run rid current w = (Inr old, w)"
      using Some by (simp add: get_workflow_run_def run)
    show ?thesis
    proof (cases "wr_status old \<in> {WR_QUEUED, WR_RUNNING}")
      case True
      have "wr_status old \<noteq> WR_CANCELLED" using True by auto
      moreover have w': "res = Inr (cancelled_workflow_run old (e_now ev (tick w)))"
        "w' = w\<lparr>workflow_runs := row_put wr_id (cancelled_workflow_run old (e_now ev (tick w))) (workflow_runs w),
          step_runs := settled rid SR_CANCELLED (e_now ev (tick w)) (step_runs w), tick := Suc (tick w)\<rparr>"
        using ex cancel_workflow_run_active [OF get True, of ev] by simp_all
      moreover have "steps_in rid (- {SR_PENDING}) w'"
        by (rule settled_steps [of "step_runs w" _ _ _ SR_CANCELLED "e_now ev (tick w)"]) (simp_all add: w'(2))
      ultimately show ?thesis
        using Some id \<open>visible_to current _\<close> True by (simp add: row_get_put)
    next
      case False
      then show ?thesis
        using ex get Some id \<open>visible_to current _\<close>
        by (cases "wr_status old") (auto simp: cancel_workflow_run_def run validate_workflow_run_transition_def)
    qed
  qed
qed


section \<open>Properties\<close>

definition flow_agent :: string where
  "flow_agent = ''00000000-0000-4000-8000-0000000000a1''"

definition flow_world :: world where
  "flow_world = empty_world\<lparr>agents := [demo_agent\<lparr>ag_id := flow_agent\<rparr>],
     workflows := [\<lparr>wd_id = ''w1'', wd_status = WS_ACTIVE, wd_definition = demo_definition\<rparr>]\<rparr>"

definition flow_created :: "(exn + workflow_run) \<times> world" where
  "flow_created = create_workflow_run demo_env ''w1'' ''alice'' flow_world"

definition flow_run :: workflow_run where
  "flow_run = (case fst flow_created of Inr r \<Rightarrow> r | Inl _ \<Rightarrow> new_workflow_run [] [] [] 0)"

definition flow_result :: "(exn + workflow_run) \<times> world" where
  "flow_result = execute_workflow_run demo_env flow_run ''topic'' None None (snd flow_created)"

definition flow_user :: user where
  "flow_user = \<lparr>u_id = ''alice'', u_email = [], u_hashed_password = [], u_full_name = [], u_role = VIEWER,
     u_status = US_ACTIVE, u_is_verified = True, u_last_login_at = None\<rparr>"

definition flow_cancelled :: "(exn + workflow_run) \<times> world" where
  "flow_cancelled = cancel_workflow_run demo_env (wr_id flow_run) flow_user (snd flow_created)"

text \<open>What the witnesses need of the created run; evaluated once.\<close>

fun flow_checks :: "(exn + workflow_run) \<times> world \<Rightarrow> bool" where
  "flow_checks (Inl e, w) \<longleftrightarrow> False"
| "flow_checks (Inr r, w) \<longleftrightarrow> fresh_uuids demo_env flow_world w \<and> startable r w
     \<and> map_option wr_status (row_get wr_id (wr_id r) (workflow_runs w)) = Some WR_QUEUED
     \<and> returned (fst (execute_workflow_run demo_env r ''topic'' None None w))
     \<and> returned (fst (cancel_workflow_run demo_env (wr_id r) flow_user w))"

lemma flow_checked: "flow_checks flow_created"
  by code_simp

lemma flow_facts:
  "flow_created = (Inr flow_run, snd flow_created)" "fresh_uuids demo_env flow_world (snd flow_created)"
  "startable flow_run (snd flow_created)" "returned (fst flow_result)" "returned (fst flow_cancelled)"
  "map_option wr_status (row_get wr_id (wr_id flow_run) (workflow_runs (snd flow_created))) = Some WR_QUEUED"
proof -
  obtain x w where xw: "flow_created = (x, w)" by (cases flow_created)
  with flow_checked have "flow_checks (x, w)" by simp
  then obtain r where "x = Inr r" by (cases x) simp_all
  with xw have rw: "flow_created = (Inr r, w)" by simp
  have r: "flow_run = r" unfolding flow_run_def rw by simp
  show "flow_created = (Inr flow_run, snd flow_created)" "fresh_uuids demo_env flow_world (snd flow_created)"
    "startable flow_run (snd flow_created)" "returned (fst flow_result)" "returned (fst flow_cancelled)"
    "map_option wr_status (row_get wr_id (wr_id flow_run) (workflow_runs (snd flow_created))) = Some WR_QUEUED"
    using flow_checked unfolding flow_result_def flow_cancelled_def r by (simp_all add: rw)
qed

text \<open>
  C3: Executing a queued workflow run whose steps are all pending settles it: COMPLETED, with every
  step COMPLETED, when the call returns; otherwise the raised exception determines the rows.
  Cancellation leaves the run CANCELLED and each remaining step CANCELLED; a domain, runtime or LLM
  error leaves the run FAILED with that error's name and message, at most the failing step FAILED and
  the steps after it SKIPPED; an exception the executor does not handle leaves the run RUNNING. No job
  row is touched.
\<close>

theorem workflow_run_outcome:
  assumes "lawful_registry (e_providers ev)" and "quiet_check check" and "startable run0 w"
    and "execute_workflow_run ev run0 inp ctx check w = (res, w')"
  shows "jobs w' = jobs w \<and> workflow_settled (wr_id run0) res w'"
  using assms by (rule execute_workflow_run_outcome)

lemma workflow_run_outcome_witness:
  "returned (fst flow_result) \<and> workflow_settled (wr_id flow_run) (fst flow_result) (snd flow_result)"
proof
  show "returned (fst flow_result)" by (rule flow_facts)
  have "quiet_check None" by (simp add: quiet_check_def)
  then show "workflow_settled (wr_id flow_run) (fst flow_result) (snd flow_result)"
    using workflow_run_outcome [OF demo_env_lawful _ flow_facts(3), of None "''topic''" None]
    by (metis flow_result_def prod.collapse)
qed

text \<open>
  C21: Creating a workflow run either raises and persists nothing, or persists a queued run owned by
  the caller with exactly one pending step run per parsed step, in the parsed order.
\<close>

theorem workflow_creation:
  assumes "create_workflow_run ev wid user w = (res, w')"
    and "fresh_uuids ev w w'" and "distinct (map sr_id (step_runs w))"
  shows "case res of Inl e \<Rightarrow> w' = w | Inr r \<Rightarrow> created wid user r w w'"
  using assms by (rule create_workflow_run_outcome)

lemma workflow_creation_witness: "created ''w1'' ''alice'' flow_run flow_world (snd flow_created)"
proof -
  have "distinct (map sr_id (step_runs flow_world))" by code_simp
  moreover have "create_workflow_run demo_env ''w1'' ''alice'' flow_world = (Inr flow_run, snd flow_created)"
    using flow_facts(1) by (simp only: flow_created_def)
  ultimately show ?thesis
    using workflow_creation [of demo_env "''w1''" "''alice''" flow_world "Inr flow_run" "snd flow_created"] flow_facts(2)
    by simp
qed

text \<open>
  C40: Cancelling a workflow run raises without writing anything, or returns the caller's visible run
  as CANCELLED: unchanged when it was cancelled before, and otherwise from QUEUED or RUNNING with no
  step run of it left pending.
\<close>

theorem workflow_cancellation:
  assumes "cancel_workflow_run ev rid current w = (res, w')"
  shows "case res of
      Inl e \<Rightarrow> w' = w
    | Inr r \<Rightarrow> wr_id r = rid \<and> wr_status r = WR_CANCELLED \<and> visible_to current (wr_created_by r)
        \<and> row_get wr_id rid (workflow_runs w') = Some r
        \<and> (\<exists>old. row_get wr_id rid (workflow_runs w) = Some old \<and>
             (if wr_status old = WR_CANCELLED then w' = w
              else wr_status old \<in> {WR_QUEUED, WR_RUNNING} \<and> steps_in rid (- {SR_PENDING}) w'))"
  using assms by (rule cancel_workflow_run_outcome)

lemma workflow_cancellation_witness:
  "returned (fst flow_cancelled) \<and> steps_in (wr_id flow_run) (- {SR_PENDING}) (snd flow_cancelled)"
proof
  show r: "returned (fst flow_cancelled)" by (rule flow_facts)
  obtain res w' where f: "flow_cancelled = (res, w')" by (cases flow_cancelled)
  show "steps_in (wr_id flow_run) (- {SR_PENDING}) (snd flow_cancelled)"
    using workflow_cancellation [OF f [unfolded flow_cancelled_def]] r flow_facts(6)
    by (auto simp: f returned_def split: sum.splits if_splits)
qed

end
