(* ===== verification/Chunking.thy ===== *)
theory Chunking
  imports Sha256 Errors
begin

text \<open>
  Texts as lists of code points, their UTF-8 form (\<open>str.encode('utf-8')\<close>, \<open>bytes.decode('utf-8')\<close> with
  CPython's strict error reports), and \<open>app/rag/chunking.py\<close>: the sliding window over a text.
\<close>

section \<open>UTF-8\<close>

text \<open>A \<open>str\<close> is a list of code points; a \<open>bytes\<close> object a list of characters below 256.\<close>

type_synonym points = "nat list"
type_synonym bytes = string

definition scalar :: "nat \<Rightarrow> bool" where
  "scalar p \<longleftrightarrow> p < 55296 \<or> (57343 < p \<and> p < 1114112)"

definition encode_point :: "nat \<Rightarrow> nat list" where
  "encode_point p =
     (if p < 128 then [p]
      else if p < 2048 then [192 + p div 64, 128 + p mod 64]
      else if p < 65536 then [224 + p div 4096, 128 + p div 64 mod 64, 128 + p mod 64]
      else [240 + p div 262144, 128 + p div 4096 mod 64, 128 + p div 64 mod 64, 128 + p mod 64])"

definition encode_utf8 :: "points \<Rightarrow> nat list" where
  "encode_utf8 t = concat (map encode_point t)"

definition utf8_text :: "points \<Rightarrow> bytes" where
  "utf8_text t = map char_of (encode_utf8 t)"

text \<open>
  One step of the decoder: a code point and the bytes after it, or the number of bytes reported and
  the reason. \<open>continuation\<close> reads the continuation bytes, the first of them between \<open>lo\<close> and \<open>hi\<close>.
\<close>

datatype utf8_step = Point nat "nat list" | Bad nat string

fun continuation :: "nat \<Rightarrow> nat \<Rightarrow> nat \<Rightarrow> nat \<Rightarrow> nat \<Rightarrow> nat list \<Rightarrow> utf8_step" where
  "continuation acc used 0 lo hi bs = Point acc bs"
| "continuation acc used (Suc n) lo hi [] = Bad used ''unexpected end of data''"
| "continuation acc used (Suc n) lo hi (b # bs) =
     (if lo \<le> b \<and> b \<le> hi then continuation (64 * acc + (b - 128)) (Suc used) n 128 191 bs
      else Bad used ''invalid continuation byte'')"

definition utf8_step :: "nat \<Rightarrow> nat list \<Rightarrow> utf8_step" where
  "utf8_step b bs =
     (if b < 128 then Point b bs
      else if b < 194 then Bad 1 ''invalid start byte''
      else if b < 224 then continuation (b - 192) 1 1 128 191 bs
      else if b < 240 then continuation (b - 224) 1 2 (if b = 224 then 160 else 128) (if b = 237 then 159 else 191) bs
      else if b < 245 then continuation (b - 240) 1 3 (if b = 240 then 144 else 128) (if b = 244 then 143 else 191) bs
      else Bad 1 ''invalid start byte'')"

lemma continuation_length: "continuation acc used n lo hi bs = Point p rest \<Longrightarrow> length rest \<le> length bs"
  by (induction acc used n lo hi bs rule: continuation.induct) (auto split: if_splits)

lemma utf8_step_length: "utf8_step b bs = Point p rest \<Longrightarrow> length rest \<le> length bs"
  by (auto simp: utf8_step_def split: if_splits dest: continuation_length)

text \<open>The report of a \<open>UnicodeDecodeError\<close>: the position, the bytes and the reason.\<close>

definition decode_report :: "nat \<Rightarrow> nat \<Rightarrow> nat \<Rightarrow> string \<Rightarrow> string" where
  "decode_report pos b used reason = CHR 0x27 # ''utf-8'' @ [CHR 0x27] @ '' codec can'' @ [CHR 0x27] @ ''t decode '' @
     (if used = 1 then ''byte 0x'' @ [hex_digit (b div 16), hex_digit (b mod 16)] @ '' in position '' @ digits pos
      else ''bytes in position '' @ digits pos @ ''-'' @ digits (pos + used - 1)) @ '': '' @ reason"

function decode_from :: "nat \<Rightarrow> nat list \<Rightarrow> string + points" where
  "decode_from pos [] = Inr []"
| "decode_from pos (b # bs) =
     (case utf8_step b bs of
        Bad used reason \<Rightarrow> Inl (decode_report pos b used reason)
      | Point p rest \<Rightarrow>
          (case decode_from (pos + (Suc (length bs) - length rest)) rest of
             Inl e \<Rightarrow> Inl e | Inr ps \<Rightarrow> Inr (p # ps)))"
  by pat_completeness auto

termination
  by (relation "measure (length \<circ> snd)") (auto dest: utf8_step_length)

definition decode_utf8 :: "bytes \<Rightarrow> string + points" where
  "decode_utf8 bs = decode_from 0 (map of_char bs)"

text \<open>Encoding the scalar values and decoding again gives the text back.\<close>

lemma continuation_simps [simp]:
  "continuation acc used (Suc n) lo hi (b # bs) =
     (if lo \<le> b \<and> b \<le> hi then continuation (64 * acc + (b - 128)) (Suc used) n 128 191 bs
      else Bad used ''invalid continuation byte'')"
  "continuation acc used 1 lo hi (b # bs) =
     (if lo \<le> b \<and> b \<le> hi then Point (64 * acc + (b - 128)) bs else Bad used ''invalid continuation byte'')"
  by simp_all

lemma cont_split:
  fixes p :: nat
  shows "64 * (p div 64) + p mod 64 = p" "p div 4096 = p div 64 div 64" "p div 262144 = p div 64 div 64 div 64"
    "p mod 64 < 64"
  by (simp_all add: div_mult2_eq [symmetric])

lemma mod_64 [simp]: "n mod 64 \<le> (63 :: nat)"
  using mod_less_divisor [of 64 n] by linarith

lemma tail_quotient:
  fixes r :: nat
  shows "r div 64 = 0 \<Longrightarrow> r mod 64 = r" "r div 64 = 4 \<Longrightarrow> r mod 64 = r - 256"
  using minus_mult_div_eq_mod [of r 64] by simp_all

lemma utf8_step_encode:
  assumes "scalar p" and "encode_point p = b # bs"
  shows "utf8_step b (bs @ rest) = Point p rest"
proof -
  consider "p < 128" | "128 \<le> p" "p < 2048" | "2048 \<le> p" "p < 65536" | "65536 \<le> p" "p < 1114112"
    using assms(1) by (auto simp: scalar_def not_less) linarith+
  then show ?thesis
  proof cases
    case 1
    then show ?thesis using assms(2) by (simp add: encode_point_def utf8_step_def)
  next
    case 2
    then have b: "b = 192 + p div 64" "bs = [128 + p mod 64]" using assms(2) by (auto simp: encode_point_def)
    have "2 \<le> p div 64" "p div 64 < 32" using 2 by auto
    then show ?thesis using cont_split(1) [of p] by (simp add: b utf8_step_def numeral_2_eq_2)
  next
    case 3
    define q where "q = p div 64"
    then have b: "b = 224 + q div 64" "bs = [128 + q mod 64, 128 + p mod 64]"
      using 3 assms(2) by (auto simp: encode_point_def cont_split(2))
    have q: "32 \<le> q" "q < 1024" "p = 64 * q + p mod 64" "q = 64 * (q div 64) + q mod 64" using 3 by (auto simp: q_def)
    have "q div 64 = 0 \<Longrightarrow> 32 \<le> q mod 64" using q by simp
    moreover have "q div 64 = 13 \<Longrightarrow> q mod 64 < 32"
    proof -
      assume "q div 64 = 13"
      moreover have "p < 55296 \<or> 57343 < p" using assms(1) by (auto simp: scalar_def)
      ultimately show ?thesis using q mod_less_divisor [of 64 p] mod_less_divisor [of 64 q] by linarith
    qed
    moreover have "q div 64 < 16" "p mod 64 < 64" "q mod 64 < 64" using q by auto
    ultimately show ?thesis
      using q by (simp add: b utf8_step_def numeral_2_eq_2) auto
  next
    case 4
    define q where "q = p div 64"
    define r where "r = q div 64"
    have b: "b = 240 + r div 64" "bs = [128 + r mod 64, 128 + q mod 64, 128 + p mod 64]"
      using 4 assms(2) by (auto simp: encode_point_def cont_split(2,3) q_def r_def)
    have r: "16 \<le> r" "r < 272" "p = 64 * q + p mod 64" "q = 64 * r + q mod 64" "r = 64 * (r div 64) + r mod 64"
      using 4 by (auto simp: q_def r_def)
    have "r div 64 = 0 \<Longrightarrow> 16 \<le> r mod 64" "r div 64 = 4 \<Longrightarrow> r mod 64 < 16"
      using r(1,2) tail_quotient [of r] by linarith+
    moreover have "r div 64 < 5" "p mod 64 < 64" "q mod 64 < 64" "r mod 64 < 64" using r by auto
    ultimately show ?thesis
      using r(3-5) by (cases "r div 64 = 4"; cases "r div 64 = 0")
        (simp_all add: b utf8_step_def numeral_3_eq_3)
  qed
qed

lemma encode_point_Cons: "\<exists>b bs. encode_point p = b # bs"
  by (simp add: encode_point_def)

lemma decode_encode: "list_all scalar t \<Longrightarrow> decode_from pos (encode_utf8 t) = Inr t"
proof (induction t arbitrary: pos)
  case (Cons p t)
  obtain b bs where e: "encode_point p = b # bs" using encode_point_Cons by blast
  have "utf8_step b (bs @ encode_utf8 t) = Point p (encode_utf8 t)"
    using utf8_step_encode [OF _ e] Cons.prems by simp
  moreover have "encode_utf8 (p # t) = b # bs @ encode_utf8 t" by (simp add: encode_utf8_def e)
  ultimately show ?case using Cons by simp
qed (simp add: encode_utf8_def)

lemma encode_bytes: "scalar p \<Longrightarrow> \<forall>b\<in>set (encode_point p). b < 256"
  by (auto simp: encode_point_def scalar_def)

lemma of_char_char_of_list: "\<forall>b\<in>set bs. b < 256 \<Longrightarrow> map of_char (map char_of bs :: string) = (bs :: nat list)"
  by (induction bs) auto

lemma utf8_roundtrip: "list_all scalar t \<Longrightarrow> decode_utf8 (utf8_text t) = Inr t"
  unfolding decode_utf8_def utf8_text_def
  by (subst of_char_char_of_list)
     (auto simp: encode_utf8_def list_all_iff dest: encode_bytes decode_encode [unfolded encode_utf8_def list_all_iff])

text \<open>Conversely a decoded text encodes back to the bytes it came from.\<close>

lemma continuation_parts:
  "continuation acc used 1 lo hi bs = Point p rest \<Longrightarrow>
     \<exists>b. bs = b # rest \<and> lo \<le> b \<and> b \<le> hi \<and> p = 64 * acc + (b - 128)"
  "continuation acc used 2 lo hi bs = Point p rest \<Longrightarrow>
     \<exists>b c. bs = b # c # rest \<and> lo \<le> b \<and> b \<le> hi \<and> 128 \<le> c \<and> c \<le> 191
        \<and> p = 64 * (64 * acc + (b - 128)) + (c - 128)"
  "continuation acc used 3 lo hi bs = Point p rest \<Longrightarrow>
     \<exists>b c d. bs = b # c # d # rest \<and> lo \<le> b \<and> b \<le> hi \<and> 128 \<le> c \<and> c \<le> 191 \<and> 128 \<le> d \<and> d \<le> 191
        \<and> p = 64 * (64 * (64 * acc + (b - 128)) + (c - 128)) + (d - 128)"
proof -
  show "continuation acc used 1 lo hi bs = Point p rest \<Longrightarrow>
     \<exists>b. bs = b # rest \<and> lo \<le> b \<and> b \<le> hi \<and> p = 64 * acc + (b - 128)"
    by (cases bs) (auto split: if_splits)
  show "continuation acc used 2 lo hi bs = Point p rest \<Longrightarrow>
     \<exists>b c. bs = b # c # rest \<and> lo \<le> b \<and> b \<le> hi \<and> 128 \<le> c \<and> c \<le> 191
        \<and> p = 64 * (64 * acc + (b - 128)) + (c - 128)"
    by (cases bs; cases "tl bs") (auto simp: numeral_2_eq_2 split: if_splits)
  show "continuation acc used 3 lo hi bs = Point p rest \<Longrightarrow>
     \<exists>b c d. bs = b # c # d # rest \<and> lo \<le> b \<and> b \<le> hi \<and> 128 \<le> c \<and> c \<le> 191 \<and> 128 \<le> d \<and> d \<le> 191
        \<and> p = 64 * (64 * (64 * acc + (b - 128)) + (c - 128)) + (d - 128)"
    by (cases bs; cases "tl bs"; cases "tl (tl bs)") (auto simp: numeral_3_eq_3 split: if_splits)
qed

lemma continued:
  fixes a c :: nat
  assumes "c < 64"
  shows "(64 * a + c) div 64 = a" "(64 * a + c) mod 64 = c"
  using assms by simp_all

lemma utf8_step_decode:
  assumes "utf8_step b bs = Point p rest" and "b < 256"
  shows "scalar p \<and> encode_point p @ rest = b # bs"
proof -
  consider "b < 128" | "194 \<le> b" "b < 224" | "224 \<le> b" "b < 240" | "240 \<le> b" "b < 245"
    using assms(1) by (auto simp: utf8_step_def split: if_splits)
  then show ?thesis
  proof cases
    case 1
    then show ?thesis using assms(1) by (auto simp: utf8_step_def encode_point_def scalar_def)
  next
    case 2
    then have "continuation (b - 192) 1 1 128 191 bs = Point p rest" using assms(1) by (simp add: utf8_step_def)
    from continuation_parts(1) [OF this] obtain c where
      c: "bs = c # rest" "128 \<le> c" "c \<le> 191" "p = 64 * (b - 192) + (c - 128)" by blast
    have l: "c - 128 < 64" using c(2,3) by simp
    have "p div 64 = b - 192" "p mod 64 = c - 128" unfolding c(4) by (rule continued [OF l])+
    moreover have "128 \<le> p" "p < 2048" using 2 c l by linarith+
    ultimately show ?thesis using c 2 by (simp add: encode_point_def scalar_def)
  next
    case 3
    then have "continuation (b - 224) 1 2 (if b = 224 then 160 else 128) (if b = 237 then 159 else 191) bs = Point p rest"
      using assms(1) by (simp add: utf8_step_def)
    from continuation_parts(2) [OF this] obtain c d where
      c: "bs = c # d # rest" "(if b = 224 then 160 else 128) \<le> c" "c \<le> (if b = 237 then 159 else 191)"
         "128 \<le> d" "d \<le> 191" and p: "p = 64 * (64 * (b - 224) + (c - 128)) + (d - 128)" by blast
    have cb: "128 \<le> c" "c \<le> 191" using c by (auto split: if_splits)
    have l: "c - 128 < 64" "d - 128 < 64" using c cb by simp_all
    have d: "p div 64 = 64 * (b - 224) + (c - 128)" "p mod 64 = d - 128"
      unfolding p by (rule continued [OF l(2)])+
    moreover have "p div 4096 = b - 224" "p div 64 mod 64 = c - 128"
      unfolding cont_split(2) d(1) by (rule continued [OF l(1)])+
    moreover have "2048 \<le> p" "p < 65536" "p < 55296 \<or> 57343 < p"
      using c cb p 3 by (auto split: if_splits)
    ultimately show ?thesis using c cb 3 by (simp add: encode_point_def scalar_def)
  next
    case 4
    then have "continuation (b - 240) 1 3 (if b = 240 then 144 else 128) (if b = 244 then 143 else 191) bs = Point p rest"
      using assms(1) by (simp add: utf8_step_def)
    from continuation_parts(3) [OF this] obtain c d e where
      c: "bs = c # d # e # rest" "(if b = 240 then 144 else 128) \<le> c" "c \<le> (if b = 244 then 143 else 191)"
         "128 \<le> d" "d \<le> 191" "128 \<le> e" "e \<le> 191"
      and p: "p = 64 * (64 * (64 * (b - 240) + (c - 128)) + (d - 128)) + (e - 128)" by blast
    have cb: "128 \<le> c" "c \<le> 191" using c by (auto split: if_splits)
    have l: "c - 128 < 64" "d - 128 < 64" "e - 128 < 64" using c cb by simp_all
    have d: "p div 64 = 64 * (64 * (b - 240) + (c - 128)) + (d - 128)" "p mod 64 = e - 128"
      unfolding p by (rule continued [OF l(3)])+
    moreover have q: "p div 4096 = 64 * (b - 240) + (c - 128)" "p div 64 mod 64 = d - 128"
      unfolding cont_split(2) d(1) by (rule continued [OF l(2)])+
    moreover have "p div 262144 = b - 240" "p div 4096 mod 64 = c - 128"
      unfolding cont_split(3) cont_split(2) [symmetric] q(1) by (rule continued [OF l(1)])+
    moreover have "65536 \<le> p" "p < 1114112" using c cb p 4 by (auto split: if_splits)
    moreover obtain w x y z where "b = 240 + w" "c = 128 + x" "d = 128 + y" "e = 128 + z"
      using 4(1) cb(1) c(4,6) le_Suc_ex by metis
    ultimately show ?thesis using c(1) by (simp add: encode_point_def scalar_def)
  qed
qed

lemma decode_from_encode:
  "decode_from pos bs = Inr t \<Longrightarrow> \<forall>b\<in>set bs. b < 256 \<Longrightarrow> list_all scalar t \<and> encode_utf8 t = bs"
proof (induction pos bs arbitrary: t rule: decode_from.induct)
  case (2 pos b bs)
  obtain p rest where s: "utf8_step b bs = Point p rest" using 2(2) by (auto split: utf8_step.splits)
  then obtain ts where ts: "decode_from (pos + (Suc (length bs) - length rest)) rest = Inr ts" "t = p # ts"
    using 2(2) by (auto split: sum.splits)
  have d: "scalar p" "encode_point p @ rest = b # bs" using utf8_step_decode [OF s] 2(3) by simp_all
  then have "set rest \<subseteq> set (b # bs)" by (metis Un_upper2 set_append)
  then have "list_all scalar ts \<and> encode_utf8 ts = rest" using 2(1) [OF s ts(1)] 2(3) by blast
  then show ?case using d ts(2) by (simp add: encode_utf8_def)
qed (simp add: encode_utf8_def)

section \<open>app/rag/chunking.py\<close>

record chunk =
  ck_index :: nat
  ck_content :: points
  ck_start :: nat
  ck_end :: nat
  ck_hash :: string

definition content_hash :: "points \<Rightarrow> string" where
  "content_hash t = hexdigest (sha256 (encode_utf8 t))"

definition slice :: "nat \<Rightarrow> nat \<Rightarrow> 'a list \<Rightarrow> 'a list" where
  "slice i j xs = take (j - i) (drop i xs)"

definition make_chunk :: "points \<Rightarrow> nat \<Rightarrow> nat \<Rightarrow> nat \<Rightarrow> chunk" where
  "make_chunk t index start stop =
     \<lparr>ck_index = index, ck_content = slice start stop t, ck_start = start, ck_end = stop,
      ck_hash = content_hash (slice start stop t)\<rparr>"

text \<open>The \<open>while\<close> loop; the guards of \<open>chunk_text\<close> make the step positive.\<close>

function chunk_loop :: "points \<Rightarrow> nat \<Rightarrow> nat \<Rightarrow> nat \<Rightarrow> nat \<Rightarrow> chunk list" where
  "chunk_loop t width step start index =
     (if start < length t \<and> 0 < step then
        (let stop = min (start + width) (length t) in
         make_chunk t index start stop #
           (if stop = length t then [] else chunk_loop t width step (start + step) (index + 1)))
      else [])"
  by pat_completeness auto

termination
  by (relation "measure (\<lambda>(t, width, step, start, index). length t - start)") auto

declare chunk_loop.simps [simp del]

definition chunk_text :: "points \<Rightarrow> int \<Rightarrow> int \<Rightarrow> exn + chunk list" where
  "chunk_text t width overlap =
     (if width \<le> 0 then Inl (PyExc ''ValueError'' ''chunk_size must be positive'')
      else if overlap < 0 then Inl (PyExc ''ValueError'' ''chunk_overlap must not be negative'')
      else if width \<le> overlap then Inl (PyExc ''ValueError'' ''chunk_overlap must be smaller than chunk_size'')
      else if t = [] then Inr []
      else Inr (chunk_loop t (nat width) (nat (width - overlap)) 0 0))"


section \<open>What the windows cover\<close>

text \<open>The chunks of a text from a start on: their offsets, their contents and the last one's end.\<close>

definition window :: "points \<Rightarrow> nat \<Rightarrow> nat \<Rightarrow> nat \<Rightarrow> nat \<Rightarrow> nat \<Rightarrow> chunk" where
  "window t width step start index i =
     make_chunk t (index + i) (start + i * step) (min (start + i * step + width) (length t))"

lemma make_chunk_fields [simp]:
  "ck_index (make_chunk t i s e) = i" "ck_start (make_chunk t i s e) = s" "ck_end (make_chunk t i s e) = e"
  "ck_content (make_chunk t i s e) = slice s e t" "ck_hash (make_chunk t i s e) = content_hash (slice s e t)"
  by (simp_all add: make_chunk_def)

lemma window_Suc: "window t width step start index (Suc i) = window t width step (start + step) (Suc index) i"
  by (simp add: window_def algebra_simps)

lemma window_0: "window t width step start index 0 = make_chunk t index start (min (start + width) (length t))"
  by (simp add: window_def)

lemma chunk_loop_windows:
  "start < length t \<Longrightarrow> 0 < step \<Longrightarrow> step \<le> width \<Longrightarrow>
     (\<exists>k. chunk_loop t width step start index = map (window t width step start index) [0..<Suc k]
        \<and> length t \<le> start + k * step + width \<and> (\<forall>i<k. start + i * step + width < length t))"
proof (induction t width step start index rule: chunk_loop.induct)
  case (1 t width step start index)
  show ?case
  proof (cases "length t \<le> start + width")
    case True
    then have "chunk_loop t width step start index = map (window t width step start index) [0..<Suc 0]"
      using 1(2,3) by (subst chunk_loop.simps) (simp add: Let_def window_def min_def)
    then show ?thesis using True by (intro exI [of _ 0]) simp
  next
    case False
    then have s: "min (start + width) (length t) = start + width" "start + width \<noteq> length t" by auto
    have "start + step < length t" using False 1(4) by simp
    then obtain k where k: "chunk_loop t width step (start + step) (index + 1)
        = map (window t width step (start + step) (index + 1)) [0..<Suc k]"
      "length t \<le> start + step + k * step + width" "\<forall>i<k. start + step + i * step + width < length t"
      using 1(1) [OF _ refl] s 1(2-4) by auto
    have "chunk_loop t width step start index = window t width step start index 0
        # map (\<lambda>i. window t width step start index (Suc i)) [0..<Suc k]"
      using 1(2,3) s k(1) by (subst chunk_loop.simps) (simp add: Let_def window_Suc window_0 del: upt_Suc)
    also have "\<dots> = map (window t width step start index) [0..<Suc (Suc k)]"
      by (simp only: map_upt_Suc [of _ "Suc k"])
    finally show ?thesis using k(2,3) False
      by (intro exI [of _ "Suc k"]) (auto simp: less_Suc_eq_0_disj algebra_simps)
  qed
qed

text \<open>Dropping the overlap of every chunk but the last restores the text.\<close>

definition reassemble :: "nat \<Rightarrow> chunk list \<Rightarrow> points" where
  "reassemble step cs = concat (map (\<lambda>c. take step (ck_content c)) (butlast cs)) @ ck_content (last cs)"

lemma reassemble_Cons: "cs \<noteq> [] \<Longrightarrow> reassemble step (c # cs) = take step (ck_content c) @ reassemble step cs"
  by (simp add: reassemble_def)

lemma chunk_loop_reassemble:
  "start < length t \<Longrightarrow> 0 < step \<Longrightarrow> step \<le> width \<Longrightarrow>
     chunk_loop t width step start index \<noteq> [] \<and>
     reassemble step (chunk_loop t width step start index) = drop start t"
proof (induction t width step start index rule: chunk_loop.induct)
  case (1 t width step start index)
  show ?case
  proof (cases "length t \<le> start + width")
    case True
    then have "chunk_loop t width step start index = [make_chunk t index start (length t)]"
      using 1(2,3) by (subst chunk_loop.simps) (simp add: Let_def min_def)
    then show ?thesis by (simp add: reassemble_def slice_def)
  next
    case False
    let ?rest = "chunk_loop t width step (start + step) (index + 1)"
    have s: "min (start + width) (length t) = start + width" "start + width \<noteq> length t" "start + step < length t"
      using False 1(4) by auto
    then have r: "?rest \<noteq> []" "reassemble step ?rest = drop (start + step) t"
      using 1(1) [OF _ refl] 1(2-4) by auto
    have l: "chunk_loop t width step start index = make_chunk t index start (start + width) # ?rest"
      using 1(2,3) s by (subst chunk_loop.simps) (simp add: Let_def)
    have "take step (slice start (start + width) t) @ drop (start + step) t = drop start t"
    proof -
      have "take step (slice start (start + width) t) = take step (drop start t)"
        using 1(4) by (simp add: slice_def min_absorb1)
      moreover have "drop (start + step) t = drop step (drop start t)" by (simp add: add.commute)
      ultimately show ?thesis by (metis append_take_drop_id)
    qed
    then show ?thesis using r by (simp add: l reassemble_Cons)
  qed
qed

lemma chunk_text_Inr:
  assumes "chunk_text t width overlap = Inr cs"
  shows "0 < nat (width - overlap) \<and> nat (width - overlap) \<le> nat width \<and> 0 \<le> overlap \<and> overlap < width
    \<and> cs = (if t = [] then [] else chunk_loop t (nat width) (nat (width - overlap)) 0 0)"
  using assms by (auto simp: chunk_text_def split: if_splits)

text \<open>
  The specification of a chunking: consecutive indices, equally spaced starts, every chunk the slice
  between its offsets with that slice's hash, at most \<open>width\<close> characters and never empty, every chunk
  but the last full, and the last one ending with the text.
\<close>

definition chunk_spec :: "points \<Rightarrow> nat \<Rightarrow> nat \<Rightarrow> nat \<Rightarrow> nat \<Rightarrow> chunk \<Rightarrow> bool" where
  "chunk_spec t width step n i c \<longleftrightarrow> ck_index c = i \<and> ck_start c = i * step
     \<and> ck_end c = (if Suc i = n then length t else i * step + width)
     \<and> ck_content c = slice (ck_start c) (ck_end c) t \<and> ck_hash c = content_hash (ck_content c)
     \<and> 0 < length (ck_content c) \<and> length (ck_content c) \<le> width"

definition chunking_of :: "points \<Rightarrow> nat \<Rightarrow> nat \<Rightarrow> chunk list \<Rightarrow> bool" where
  "chunking_of t width step cs \<longleftrightarrow>
     (\<forall>i<length cs. chunk_spec t width step (length cs) i (cs ! i)) \<and> (cs = [] \<longleftrightarrow> t = [])"

lemma chunk_text_chunking:
  assumes "chunk_text t width overlap = Inr cs"
  shows "chunking_of t (nat width) (nat (width - overlap)) cs"
proof (cases "t = []")
  case True
  then show ?thesis using assms by (auto simp: chunking_of_def chunk_text_def split: if_splits)
next
  case False
  let ?w = "nat width" and ?s = "nat (width - overlap)"
  note c = chunk_text_Inr [OF assms]
  have "cs = chunk_loop t ?w ?s 0 0" using c False by simp
  then obtain k where k: "cs = map (window t ?w ?s 0 0) [0..<Suc k]"
      "length t \<le> k * ?s + ?w" "\<forall>i<k. i * ?s + ?w < length t"
    using chunk_loop_windows [of 0 t ?s ?w 0] c False by auto
  have "k * ?s < length t"
  proof (cases k)
    case (Suc j)
    then have "j * ?s + ?w < length t" using k(3) by simp
    then show ?thesis using c Suc by simp
  qed (use False in simp)
  then have *: "chunk_spec t ?w ?s (Suc k) i (window t ?w ?s 0 0 i)" if "i \<le> k" for i
  proof (cases "i = k")
    case True
    then show ?thesis using that k(2) c \<open>k * ?s < length t\<close>
      by (simp add: chunk_spec_def window_def slice_def min_def)
  next
    case False
    then have "i * ?s + ?w < length t" using k(3) that(1) by simp
    then show ?thesis using that c False by (simp add: chunk_spec_def window_def slice_def min_def)
  qed
  have l: "length cs = Suc k" by (simp add: k(1))
  have n: "cs ! i = window t ?w ?s 0 0 i" if "i \<le> k" for i
    using that unfolding k(1) by (subst nth_map) (simp_all del: upt_Suc)
  have "cs \<noteq> []" using l by auto
  then show ?thesis using * n False unfolding chunking_of_def l less_Suc_eq_le by simp
qed


section \<open>Properties\<close>

text \<open>
  A successful chunking is a sequence of windows over the text: equally spaced, full but for the
  last, each with its own offsets and hash, and there is none exactly when the text is empty.
\<close>

theorem chunks_are_windows:
  assumes "chunk_text t width overlap = Inr cs"
  shows "chunking_of t (nat width) (nat (width - overlap)) cs"
  using assms by (rule chunk_text_chunking)

definition demo_text :: points where
  "demo_text = map of_char ''the quick brown fox''"

lemma demo_chunked: "\<exists>cs. chunk_text demo_text 8 3 = Inr cs \<and> length cs = 4"
  by (simp add: chunk_text_def demo_text_def chunk_loop.simps Let_def)

lemma chunks_are_windows_witness: "\<exists>cs. length cs = 4 \<and> chunking_of demo_text 8 5 cs"
  using demo_chunked chunks_are_windows [of demo_text 8 3] by force

text \<open>
  C8: Chunking loses nothing: dropping from every chunk but the last the part it shares with its
  successor and concatenating gives the text back.
\<close>

theorem chunks_reassemble:
  assumes "chunk_text t width overlap = Inr cs" and "t \<noteq> []"
  shows "reassemble (nat (width - overlap)) cs = t"
  using chunk_loop_reassemble [of 0 t "nat (width - overlap)" "nat width" 0] chunk_text_Inr [OF assms(1)] assms(2)
  by simp

lemma chunks_reassemble_witness: "\<exists>cs. length cs = 4 \<and> reassemble 5 cs = demo_text"
proof -
  obtain cs where cs: "chunk_text demo_text 8 3 = Inr cs" "length cs = 4" using demo_chunked by blast
  have "demo_text \<noteq> []" by (simp add: demo_text_def)
  from chunks_reassemble [OF cs(1) this] show ?thesis using cs(2) by auto
qed

end
