(* ===== verification/Storage.thy ===== *)
theory Storage
  imports Chunking PyJson
begin

text \<open>
  \<open>app/storage\<close>: the storage interface of \<open>base.py\<close> as a record of operations over the backend's
  state and as a contract (a locale), and the local filesystem backend of \<open>local.py\<close>, which meets
  the contract for server-generated keys.
\<close>

section \<open>The interface\<close>

record storage_metadata =
  sm_key :: string
  sm_size :: nat
  sm_content_type :: "string option"
  sm_etag :: "string option"

type_synonym ('s, 'a) store = "('s, exn, 'a) m"

record 's storage =
  sb_store :: "string \<Rightarrow> bytes \<Rightarrow> string option \<Rightarrow> ('s, storage_metadata) store"
  sb_open :: "string \<Rightarrow> ('s, bytes) store"
  sb_delete :: "string \<Rightarrow> ('s, unit) store"
  sb_exists :: "string \<Rightarrow> ('s, bool) store"
  sb_metadata :: "string \<Rightarrow> ('s, storage_metadata) store"
  sb_download_url :: "string \<Rightarrow> int \<Rightarrow> ('s, string option) store"

definition is_storage_error :: "exn \<Rightarrow> bool" where
  "is_storage_error e = (case e of Storage _ \<Rightarrow> True | _ \<Rightarrow> False)"

text \<open>
  What a client may rely on for admissible keys in states satisfying the backend's invariant: the
  operations act on an abstract map from keys to contents, a failed operation leaves it alone, and a
  missing object is reported as such.
\<close>

locale storage_contract =
  fixes be :: "'s storage" and inv :: "'s \<Rightarrow> bool" and key_ok :: "string \<Rightarrow> bool"
    and contents :: "'s \<Rightarrow> string \<Rightarrow> bytes option"
  assumes store_done: "inv s \<Longrightarrow> key_ok k \<Longrightarrow> sb_store be k c t s = (Inr md, s') \<Longrightarrow>
      inv s' \<and> contents s' k = Some c \<and> (\<forall>j. key_ok j \<longrightarrow> j \<noteq> k \<longrightarrow> contents s' j = contents s j)
      \<and> sm_size md = length c"
    and store_failed: "inv s \<Longrightarrow> key_ok k \<Longrightarrow> sb_store be k c t s = (Inl e, s') \<Longrightarrow>
      inv s' \<and> (\<forall>j. key_ok j \<longrightarrow> contents s' j = contents s j)"
    and open_result: "inv s \<Longrightarrow> key_ok k \<Longrightarrow> sb_open be k s = (r, s') \<Longrightarrow>
      inv s' \<and> (\<forall>j. key_ok j \<longrightarrow> contents s' j = contents s j)
      \<and> (\<forall>c. r = Inr c \<longrightarrow> contents s k = Some c)
      \<and> (contents s k = None \<longrightarrow> (\<exists>e. r = Inl e \<and> is_storage_error e))"
    and delete_done: "inv s \<Longrightarrow> key_ok k \<Longrightarrow> sb_delete be k s = (Inr u, s') \<Longrightarrow>
      inv s' \<and> contents s' k = None \<and> (\<forall>j. key_ok j \<longrightarrow> j \<noteq> k \<longrightarrow> contents s' j = contents s j)"
    and delete_failed: "inv s \<Longrightarrow> key_ok k \<Longrightarrow> sb_delete be k s = (Inl e, s') \<Longrightarrow>
      inv s' \<and> (\<forall>j. key_ok j \<longrightarrow> contents s' j = contents s j) \<and> is_storage_error e"
    and download_url: "inv s \<Longrightarrow> key_ok k \<Longrightarrow> sb_download_url be k n s = (ru, s') \<Longrightarrow>
      inv s' \<and> (\<forall>j. key_ok j \<longrightarrow> contents s' j = contents s j)
      \<and> (contents s k = None \<longrightarrow> (\<exists>e. ru = Inl e)) \<and> (\<forall>u. ru = Inr (Some u) \<longrightarrow> contents s k \<noteq> None)"
begin

text \<open>What was stored is what is read back, whatever else was stored or deleted under other keys.\<close>

lemma stored_is_read:
  assumes "inv s" "key_ok k" "sb_store be k c t s = (Inr md, s1)" and "sb_open be k s1 = (Inr d, s2)"
  shows "d = c"
  using store_done [OF assms(1-3)] open_result [OF _ assms(2,4)] by auto

lemma deleted_is_gone:
  assumes "inv s" "key_ok k" "sb_delete be k s = (Inr u, s1)" and "sb_open be k s1 = (r, s2)"
  shows "\<exists>e. r = Inl e \<and> is_storage_error e"
  using delete_done [OF assms(1-3)] open_result [OF _ assms(2,4)] by auto

end


section \<open>app/storage/local.py\<close>

text \<open>
  A filesystem is a map from absolute paths to nodes and a counter of the system calls made, which
  indexes the errors the system raises. \<open>Path.resolve\<close> follows symbolic links, which are the
  system's: it is a parameter of the backend. (A key with a NUL character is not modelled.)
\<close>

type_synonym path = "string list"

datatype node = Dir | File bytes

record filesystem =
  fs_nodes :: "path \<Rightarrow> node option"
  fs_calls :: nat

record local_backend =
  lb_root :: path
  lb_resolve :: "path \<Rightarrow> path"
  lb_fault :: "nat \<Rightarrow> string option"
  lb_dir_size :: nat

definition path_parts :: "string \<Rightarrow> path" where
  "path_parts key = filter (\<lambda>p. p \<noteq> [] \<and> p \<noteq> ''.'') (split_on CHR ''/'' key)"

definition is_absolute :: "string \<Rightarrow> bool" where
  "is_absolute key \<longleftrightarrow> (case key of [] \<Rightarrow> False | c # _ \<Rightarrow> c = CHR ''/'')"

definition is_prefix :: "'a list \<Rightarrow> 'a list \<Rightarrow> bool" where
  "is_prefix p q \<longleftrightarrow> length p \<le> length q \<and> take (length p) q = p"

definition resolve_key :: "local_backend \<Rightarrow> string \<Rightarrow> exn + path" where
  "resolve_key lb key =
     (if is_absolute key \<or> ''..'' \<in> set (path_parts key)
      then Inl (Storage (StorageWriteFailed key ''rejected: path traversal or absolute path''))
      else let candidate = lb_resolve lb (lb_root lb @ path_parts key) in
        if candidate \<noteq> lb_root lb \<and> \<not> (is_prefix (lb_root lb) candidate \<and> candidate \<noteq> lb_root lb)
        then Inl (Storage (StorageWriteFailed key ''rejected: resolves outside the storage root''))
        else Inr candidate)"

text \<open>A system call: the system may fail it; otherwise \<open>act\<close> says what it does to the nodes.\<close>

datatype os_error = OsError string string

definition sys ::
  "local_backend \<Rightarrow> ((path \<Rightarrow> node option) \<Rightarrow> os_error + 'a \<times> (path \<Rightarrow> node option)) \<Rightarrow> filesystem \<Rightarrow>
     (os_error + 'a) \<times> filesystem" where
  "sys lb act fs =
     (let fs' = fs\<lparr>fs_calls := Suc (fs_calls fs)\<rparr> in
      case lb_fault lb (fs_calls fs) of
        Some msg \<Rightarrow> (Inl (OsError ''OSError'' msg), fs')
      | None \<Rightarrow> (case act (fs_nodes fs) of
                  Inl e \<Rightarrow> (Inl e, fs') | Inr (x, ns) \<Rightarrow> (Inr x, fs'\<lparr>fs_nodes := ns\<rparr>)))"

definition raise_os :: "os_error \<Rightarrow> exn" where
  "raise_os e = (case e of OsError name msg \<Rightarrow> PyExc name msg)"

fun os_message :: "os_error \<Rightarrow> string" where
  "os_message (OsError _ msg) = msg"

definition ancestors :: "path \<Rightarrow> path list" where
  "ancestors p = map (\<lambda>n. take n p) [0..<length p]"

definition path_text :: "path \<Rightarrow> string" where
  "path_text p = CHR ''/'' # join ''/'' p"

definition os_fail :: "string \<Rightarrow> string \<Rightarrow> path \<Rightarrow> os_error" where
  "os_fail name reason p = OsError name (reason @ '': '' @ repr_str (path_text p))"

definition is_file :: "node option \<Rightarrow> bool" where
  "is_file n = (case n of Some (File _) \<Rightarrow> True | _ \<Rightarrow> False)"

text \<open>\<open>mkdir(parents=True, exist_ok=True)\<close>, and the calls on a path whose ancestor may be a file.\<close>

definition make_dirs :: "path \<Rightarrow> (path \<Rightarrow> node option) \<Rightarrow> os_error + unit \<times> (path \<Rightarrow> node option)" where
  "make_dirs p ns =
     (if list_ex (\<lambda>q. is_file (ns q)) (ancestors p)
      then Inl (os_fail ''NotADirectoryError'' ''[Errno 20] Not a directory'' p)
      else if is_file (ns p) then Inl (os_fail ''FileExistsError'' ''[Errno 17] File exists'' p)
      else Inr ((), \<lambda>q. if q = p \<or> q \<in> set (ancestors p) then Some Dir else ns q))"

definition replace_file ::
  "path \<Rightarrow> bytes \<Rightarrow> (path \<Rightarrow> node option) \<Rightarrow> os_error + unit \<times> (path \<Rightarrow> node option)" where
  "replace_file p c ns =
     (if ns p = Some Dir then Inl (os_fail ''IsADirectoryError'' ''[Errno 21] Is a directory'' p)
      else Inr ((), ns(p := Some (File c))))"

definition read_file :: "path \<Rightarrow> (path \<Rightarrow> node option) \<Rightarrow> os_error + bytes \<times> (path \<Rightarrow> node option)" where
  "read_file p ns =
     (if list_ex (\<lambda>q. is_file (ns q)) (ancestors p)
      then Inl (os_fail ''NotADirectoryError'' ''[Errno 20] Not a directory'' p)
      else case ns p of
        None \<Rightarrow> Inl (os_fail ''FileNotFoundError'' ''[Errno 2] No such file or directory'' p)
      | Some Dir \<Rightarrow> Inl (os_fail ''IsADirectoryError'' ''[Errno 21] Is a directory'' p)
      | Some (File c) \<Rightarrow> Inr (c, ns))"

definition unlink :: "path \<Rightarrow> (path \<Rightarrow> node option) \<Rightarrow> os_error + unit \<times> (path \<Rightarrow> node option)" where
  "unlink p ns =
     (case read_file p ns of Inl e \<Rightarrow> Inl e | Inr _ \<Rightarrow> Inr ((), ns(p := None)))"

fun os_name :: "os_error \<Rightarrow> string" where
  "os_name (OsError n _) = n"

text \<open>
  \<open>_store_sync\<close>: only the write and the rename are inside the \<open>try\<close>. The temporary file is gone
  when the call ends, renamed or removed, so it is not part of the state.
\<close>

definition local_store :: "local_backend \<Rightarrow> string \<Rightarrow> bytes \<Rightarrow> string option \<Rightarrow> (filesystem, storage_metadata) store" where
  "local_store lb key content ctype fs =
     (case resolve_key lb key of
        Inl e \<Rightarrow> (Inl e, fs)
      | Inr p \<Rightarrow>
          (case sys lb (make_dirs (butlast p)) fs of
             (Inl e, fs1) \<Rightarrow> (Inl (raise_os e), fs1)
           | (Inr _, fs1) \<Rightarrow>
               (case sys lb (\<lambda>ns. Inr ((), ns)) fs1 of
                  (Inl e, fs2) \<Rightarrow> (Inl (raise_os e), fs2)
                | (Inr _, fs2) \<Rightarrow>
                    (case sys lb (replace_file p content) fs2 of
                       (Inl e, fs3) \<Rightarrow> (Inl (Storage (StorageWriteFailed key (os_message e))), fs3)
                     | (Inr _, fs3) \<Rightarrow>
                         (Inr \<lparr>sm_key = key, sm_size = length content, sm_content_type = ctype,
                               sm_etag = Some (hexdigest (sha256 (map of_char content)))\<rparr>, fs3)))))"

definition local_open :: "local_backend \<Rightarrow> string \<Rightarrow> (filesystem, bytes) store" where
  "local_open lb key fs =
     (case resolve_key lb key of
        Inl e \<Rightarrow> (Inl e, fs)
      | Inr p \<Rightarrow>
          (case sys lb (read_file p) fs of
             (Inr c, fs') \<Rightarrow> (Inr c, fs')
           | (Inl e, fs') \<Rightarrow>
               (Inl (Storage (if os_name e = ''FileNotFoundError'' then StorageNotFound key
                              else StorageUnavailable (os_message e))), fs')))"

definition local_delete :: "local_backend \<Rightarrow> string \<Rightarrow> (filesystem, unit) store" where
  "local_delete lb key fs =
     (case resolve_key lb key of
        Inl e \<Rightarrow> (Inl e, fs)
      | Inr p \<Rightarrow>
          (case sys lb (unlink p) fs of
             (Inr _, fs') \<Rightarrow> (Inr (), fs')
           | (Inl e, fs') \<Rightarrow>
               if os_name e = ''FileNotFoundError'' then (Inr (), fs')
               else (Inl (Storage (StorageDeleteFailed key (os_message e))), fs')))"

text \<open>\<open>Path.is_file\<close> answers False for a path that cannot be reached.\<close>

definition local_exists :: "local_backend \<Rightarrow> string \<Rightarrow> (filesystem, bool) store" where
  "local_exists lb key fs =
     (case resolve_key lb key of
        Inl e \<Rightarrow> (Inl e, fs)
      | Inr p \<Rightarrow>
          (case sys lb (\<lambda>ns. Inr (is_file (ns p) \<and> \<not> list_ex (\<lambda>q. is_file (ns q)) (ancestors p), ns)) fs of
             (Inl e, fs') \<Rightarrow> (Inl (raise_os e), fs')
           | (Inr b, fs') \<Rightarrow> (Inr b, fs')))"

definition local_metadata :: "local_backend \<Rightarrow> string \<Rightarrow> (filesystem, storage_metadata) store" where
  "local_metadata lb key fs =
     (case resolve_key lb key of
        Inl e \<Rightarrow> (Inl e, fs)
      | Inr p \<Rightarrow>
          (case sys lb (\<lambda>ns. case ns p of
                  Some Dir \<Rightarrow> Inr (lb_dir_size lb, ns)
                | _ \<Rightarrow> (case read_file p ns of Inl e \<Rightarrow> Inl e | Inr (c, _) \<Rightarrow> Inr (length c, ns))) fs of
             (Inr n, fs') \<Rightarrow>
               (Inr \<lparr>sm_key = key, sm_size = n, sm_content_type = None, sm_etag = None\<rparr>, fs')
           | (Inl e, fs') \<Rightarrow>
               (Inl (if os_name e = ''FileNotFoundError'' then Storage (StorageNotFound key) else raise_os e), fs')))"

definition local_download_url :: "local_backend \<Rightarrow> string \<Rightarrow> int \<Rightarrow> (filesystem, string option) store" where
  "local_download_url lb key expires_in fs =
     (case local_exists lb key fs of
        (Inl e, fs') \<Rightarrow> (Inl e, fs')
      | (Inr b, fs') \<Rightarrow> if b then (Inr None, fs') else (Inl (Storage (StorageNotFound key)), fs'))"

definition local_storage :: "local_backend \<Rightarrow> filesystem storage" where
  "local_storage lb = \<lparr>sb_store = local_store lb, sb_open = local_open lb, sb_delete = local_delete lb,
     sb_exists = local_exists lb, sb_metadata = local_metadata lb, sb_download_url = local_download_url lb\<rparr>"

section \<open>The local backend meets the contract\<close>

text \<open>
  Keys as the asset service generates them have four plain segments. The contract holds for a base
  without symbolic links, whatever system calls fail, as long as no file stands where the segments of
  a key need directories.
\<close>

definition server_key :: "string \<Rightarrow> bool" where
  "server_key k \<longleftrightarrow> length (path_parts k) = 4 \<and> ''..'' \<notin> set (path_parts k) \<and> k = join ''/'' (path_parts k)"

definition plain_backend :: "path \<Rightarrow> (nat \<Rightarrow> string option) \<Rightarrow> nat \<Rightarrow> local_backend" where
  "plain_backend base fault dir_size =
     \<lparr>lb_root = base, lb_resolve = id, lb_fault = fault, lb_dir_size = dir_size\<rparr>"

definition object_path :: "path \<Rightarrow> string \<Rightarrow> path" where
  "object_path base k = base @ path_parts k"

definition local_contents :: "path \<Rightarrow> filesystem \<Rightarrow> string \<Rightarrow> bytes option" where
  "local_contents base fs k = (case fs_nodes fs (object_path base k) of Some (File c) \<Rightarrow> Some c | _ \<Rightarrow> None)"

definition local_inv :: "path \<Rightarrow> filesystem \<Rightarrow> bool" where
  "local_inv base fs \<longleftrightarrow>
     (\<forall>p. (is_prefix p base \<or> is_prefix base p) \<and> length p < length base + 4 \<longrightarrow> \<not> is_file (fs_nodes fs p))
     \<and> (\<forall>p. is_prefix base p \<and> length p = length base + 4 \<longrightarrow> fs_nodes fs p \<noteq> Some Dir)"

lemma join_Cons_slash: "ps \<noteq> [] \<Longrightarrow> join ''/'' (p # ps) = p @ CHR ''/'' # join ''/'' ps"
  by (cases ps) auto

lemma server_key_relative: "server_key k \<Longrightarrow> \<not> is_absolute k"
proof -
  assume k: "server_key k"
  then obtain p ps where pp: "path_parts k = p # ps" "ps \<noteq> []"
    by (cases "path_parts k"; cases "tl (path_parts k)") (auto simp: server_key_def)
  then have "p \<in> set (path_parts k)" by simp
  then have p: "p \<in> set (split_on CHR ''/'' k)" "p \<noteq> []" by (auto simp: path_parts_def)
  then have "hd p \<noteq> CHR ''/''" using split_on_parts [of p "CHR ''/''" k] by (metis hd_in_set)
  moreover have "k = p @ CHR ''/'' # join ''/'' ps" using k pp by (simp add: server_key_def join_Cons_slash)
  ultimately show ?thesis using p(2) by (cases p) (auto simp: is_absolute_def)
qed

lemma resolve_server_key:
  "server_key k \<Longrightarrow> resolve_key (plain_backend base fault n) k = Inr (object_path base k)"
  using server_key_relative [of k]
  by (auto simp: resolve_key_def plain_backend_def object_path_def server_key_def is_prefix_def)

lemma object_path_inj: "server_key j \<Longrightarrow> server_key k \<Longrightarrow> object_path base j = object_path base k \<Longrightarrow> j = k"
  by (metis object_path_def same_append_eq server_key_def)

lemma length_object_path: "server_key k \<Longrightarrow> length (object_path base k) = length base + 4"
  by (simp add: object_path_def server_key_def)

lemma ancestors_iff: "q \<in> set (ancestors p) \<longleftrightarrow> is_prefix q p \<and> length q < length p"
proof -
  have "q \<in> set (ancestors p) \<longleftrightarrow> (\<exists>n<length p. q = take n p)" by (auto simp: ancestors_def)
  then show ?thesis unfolding is_prefix_def by (metis length_take less_imp_le_nat min.absorb4)
qed

lemma object_ancestor:
  assumes "server_key k" and "q \<in> set (ancestors (object_path base k))"
  shows "(is_prefix q base \<or> is_prefix base q) \<and> length q < length base + 4"
proof -
  have "is_prefix q (base @ path_parts k)" "length q < length base + 4"
    using assms by (simp_all add: ancestors_iff object_path_def server_key_def)
  then have q: "q = take (length q) base @ take (length q - length base) (path_parts k)"
    and l: "length q < length base + 4" by (auto simp: is_prefix_def)
  show ?thesis
  proof (cases "length q \<le> length base")
    case True
    then have "q = take (length q) base" using q by simp
    then show ?thesis using True l by (simp add: is_prefix_def)
  next
    case False
    have "take (length base) q = base" by (subst q) (use False in simp)
    then show ?thesis using False l by (simp add: is_prefix_def)
  qed
qed

lemma no_file_above:
  assumes "local_inv base fs" and "server_key k"
  shows "\<not> list_ex (\<lambda>q. is_file (fs_nodes fs q)) (ancestors (object_path base k))"
  using assms object_ancestor [OF assms(2)] by (auto simp: list_ex_iff local_inv_def)

lemma object_not_dir:
  "local_inv base fs \<Longrightarrow> server_key k \<Longrightarrow> fs_nodes fs (object_path base k) \<noteq> Some Dir"
  using length_object_path [of k base] by (simp add: local_inv_def is_prefix_def object_path_def)

text \<open>What each system call does to a state in which the invariant holds.\<close>

definition same_objects :: "path \<Rightarrow> filesystem \<Rightarrow> filesystem \<Rightarrow> bool" where
  "same_objects base fs fs' \<longleftrightarrow> local_inv base fs'
     \<and> (\<forall>j. server_key j \<longrightarrow> local_contents base fs' j = local_contents base fs j)"

lemma same_objects_trans: "same_objects base a b \<Longrightarrow> same_objects base b c \<Longrightarrow> same_objects base a c"
  by (simp add: same_objects_def)

lemma sys_reads:
  assumes "local_inv base fs" and "sys lb act fs = (r, fs')"
    and "\<And>x ns. act (fs_nodes fs) = Inr (x, ns) \<Longrightarrow> ns = fs_nodes fs"
  shows "same_objects base fs fs'"
  using assms
  by (auto simp: sys_def Let_def same_objects_def local_inv_def local_contents_def
      split: option.splits sum.splits prod.splits)

lemma sys_make_dirs:
  assumes "local_inv base fs" and "server_key k" and "sys lb (make_dirs (butlast (object_path base k))) fs = (r, fs')"
  shows "same_objects base fs fs'"
proof -
  let ?p = "butlast (object_path base k)"
  have l: "length ?p = length base + 3" using length_object_path [OF assms(2), of base] by simp
  have short: "length q < length base + 4" if "q = ?p \<or> q \<in> set (ancestors ?p)" for q
    using that l by (auto simp: ancestors_iff)
  show ?thesis
  proof (cases "fs_nodes fs' = fs_nodes fs")
    case True
    then show ?thesis using assms(1) by (simp add: same_objects_def local_inv_def local_contents_def)
  next
    case False
    then have ns: "fs_nodes fs' = (\<lambda>q. if q = ?p \<or> q \<in> set (ancestors ?p) then Some Dir else fs_nodes fs q)"
      using assms(3) by (auto simp: sys_def Let_def make_dirs_def split: option.splits if_splits)
    have same: "fs_nodes fs' q = fs_nodes fs q" if "length q = length base + 4" for q
      using short [of q] that unfolding ns by auto
    have "local_inv base fs'"
      using assms(1) same unfolding local_inv_def by (auto simp: ns is_file_def)
    then show ?thesis
      using same length_object_path by (simp add: same_objects_def local_contents_def)
  qed
qed

lemma sys_nodes_Inr: "sys lb act fs = (Inr x, fs') \<Longrightarrow> act (fs_nodes fs) = Inr (x, fs_nodes fs')"
  by (auto simp: sys_def Let_def split: option.splits sum.splits prod.splits)

lemma sys_nodes_Inl: "sys lb act fs = (Inl e, fs') \<Longrightarrow> fs_nodes fs' = fs_nodes fs"
  by (auto simp: sys_def Let_def split: option.splits sum.splits prod.splits)

lemma objects_set:
  assumes "local_inv base fs" and "server_key k" and "fs_nodes fs' = (fs_nodes fs)(object_path base k := n)" and "n \<noteq> Some Dir"
  shows "local_inv base fs' \<and> local_contents base fs' k = (case n of Some (File c) \<Rightarrow> Some c | _ \<Rightarrow> None)
     \<and> (\<forall>j. server_key j \<longrightarrow> j \<noteq> k \<longrightarrow> local_contents base fs' j = local_contents base fs j)"
  using assms length_object_path [OF assms(2), of base] object_path_inj [OF _ assms(2), of _ base]
  by (auto simp: local_inv_def local_contents_def)

lemma same_objects_refl: "local_inv base fs \<Longrightarrow> same_objects base fs fs"
  by (simp add: same_objects_def)

lemma same_objects_nodes: "local_inv base fs \<Longrightarrow> fs_nodes fs' = fs_nodes fs \<Longrightarrow> same_objects base fs fs'"
  by (simp add: same_objects_def local_inv_def local_contents_def)

lemma local_store_result:
  assumes "local_inv base fs" "server_key k" and "local_store (plain_backend base fault n) k c t fs = (r, fs')"
  shows "case r of
      Inl e \<Rightarrow> same_objects base fs fs'
    | Inr md \<Rightarrow> local_inv base fs' \<and> local_contents base fs' k = Some c \<and> sm_size md = length c
        \<and> (\<forall>j. server_key j \<longrightarrow> j \<noteq> k \<longrightarrow> local_contents base fs' j = local_contents base fs j)"
proof -
  let ?lb = "plain_backend base fault n" and ?p = "object_path base k"
  obtain r1 fs1 where 1: "sys ?lb (make_dirs (butlast ?p)) fs = (r1, fs1)" by (metis prod.exhaust)
  obtain r2 fs2 where 2: "sys ?lb (\<lambda>ns. Inr ((), ns)) fs1 = (r2, fs2)" by (metis prod.exhaust)
  obtain r3 fs3 where 3: "sys ?lb (replace_file ?p c) fs2 = (r3, fs3)" by (metis prod.exhaust)
  have s1: "same_objects base fs fs1" by (rule sys_make_dirs [OF assms(1,2) 1])
  have "same_objects base fs1 fs2" by (rule sys_reads [OF _ 2]) (use s1 in \<open>auto simp: same_objects_def\<close>)
  with s1 have s2: "same_objects base fs fs2" by (rule same_objects_trans)
  then have i2: "local_inv base fs2" by (simp add: same_objects_def)
  show ?thesis
  proof (cases r1)
    case (Inl e)
    then show ?thesis using assms(3) 1 s1 by (auto simp: local_store_def resolve_server_key [OF assms(2)])
  next
    case r1: (Inr u)
    show ?thesis
    proof (cases r2)
      case (Inl e)
      then show ?thesis using assms(3) 1 2 r1 s2 by (auto simp: local_store_def resolve_server_key [OF assms(2)])
    next
      case r2: (Inr u)
      show ?thesis
      proof (cases r3)
        case (Inl e)
        then have "same_objects base fs fs3"
          using same_objects_trans [OF s2 same_objects_nodes [OF i2 sys_nodes_Inl [OF 3 [unfolded Inl]]]] by simp
        then show ?thesis
          using assms(3) 1 2 3 r1 r2 Inl by (auto simp: local_store_def resolve_server_key [OF assms(2)])
      next
        case (Inr u')
        have "fs_nodes fs3 = (fs_nodes fs2)(?p := Some (File c))"
          using sys_nodes_Inr [OF 3 [unfolded Inr]] by (simp add: replace_file_def split: if_splits)
        from objects_set [OF i2 assms(2) this] s2 show ?thesis
          using assms(3) 1 2 3 r1 r2 Inr
          by (auto simp: local_store_def resolve_server_key [OF assms(2)] same_objects_def)
      qed
    qed
  qed
qed

lemma read_file_object:
  assumes "local_inv base fs" "server_key k"
  shows "read_file (object_path base k) (fs_nodes fs) = (case local_contents base fs k of
      None \<Rightarrow> Inl (os_fail ''FileNotFoundError'' ''[Errno 2] No such file or directory'' (object_path base k))
    | Some c \<Rightarrow> Inr (c, fs_nodes fs))"
  using no_file_above [OF assms] object_not_dir [OF assms]
  by (auto simp: read_file_def local_contents_def split: option.splits node.splits)

lemma os_name_fail [simp]: "os_name (os_fail a b p) = a"
  by (simp add: os_fail_def)

lemma local_open_result:
  assumes "local_inv base fs" "server_key k" and "local_open (plain_backend base fault n) k fs = (r, fs')"
  shows "same_objects base fs fs' \<and> (\<forall>c. r = Inr c \<longrightarrow> local_contents base fs k = Some c)
    \<and> (local_contents base fs k = None \<longrightarrow> (\<exists>e. r = Inl e \<and> is_storage_error e))"
proof -
  obtain r1 fs1 where 1: "sys (plain_backend base fault n) (read_file (object_path base k)) fs = (r1, fs1)"
    by (metis prod.exhaust)
  have s: "same_objects base fs fs1"
    by (rule sys_reads [OF assms(1) 1]) (auto simp: read_file_object [OF assms(1,2)] split: option.splits)
  show ?thesis
  proof (cases r1)
    case (Inl e)
    then show ?thesis
      using assms(3) 1 s by (auto simp: local_open_def resolve_server_key [OF assms(2)] is_storage_error_def)
  next
    case (Inr c)
    have "local_contents base fs k = Some c"
      using sys_nodes_Inr [OF 1 [unfolded Inr]]
      by (auto simp: read_file_object [OF assms(1,2)] split: option.splits)
    then show ?thesis using assms(3) 1 s Inr by (auto simp: local_open_def resolve_server_key [OF assms(2)])
  qed
qed

lemma local_delete_result:
  assumes "local_inv base fs" "server_key k" and "local_delete (plain_backend base fault n) k fs = (r, fs')"
  shows "case r of
      Inl e \<Rightarrow> same_objects base fs fs' \<and> is_storage_error e
    | Inr _ \<Rightarrow> local_inv base fs' \<and> local_contents base fs' k = None
        \<and> (\<forall>j. server_key j \<longrightarrow> j \<noteq> k \<longrightarrow> local_contents base fs' j = local_contents base fs j)"
proof -
  obtain r1 fs1 where 1: "sys (plain_backend base fault n) (unlink (object_path base k)) fs = (r1, fs1)"
    by (metis prod.exhaust)
  show ?thesis
  proof (cases r1)
    case (Inl e)
    have same: "same_objects base fs fs1"
      by (rule same_objects_nodes [OF assms(1) sys_nodes_Inl [OF 1 [unfolded Inl]]])
    show ?thesis
    proof (cases "os_name e = ''FileNotFoundError''")
      case True
      have "local_contents base fs k = None"
        using 1 True Inl
        by (auto simp: sys_def Let_def unlink_def read_file_object [OF assms(1,2)]
            split: option.splits sum.splits prod.splits)
      then show ?thesis
        using assms(2,3) 1 Inl True same by (auto simp: local_delete_def resolve_server_key same_objects_def)
    next
      case False
      then show ?thesis
        using assms(2,3) 1 Inl same by (auto simp: local_delete_def resolve_server_key is_storage_error_def)
    qed
  next
    case (Inr u)
    have "fs_nodes fs1 = (fs_nodes fs)(object_path base k := None)"
      using sys_nodes_Inr [OF 1 [unfolded Inr]] by (auto simp: unlink_def split: sum.splits)
    from objects_set [OF assms(1,2) this] show ?thesis
      using assms(2,3) 1 Inr by (auto simp: local_delete_def resolve_server_key)
  qed
qed

lemma local_exists_result:
  assumes "local_inv base fs" "server_key k" and "local_exists (plain_backend base fault n) k fs = (r, fs')"
  shows "same_objects base fs fs' \<and> (\<forall>b. r = Inr b \<longrightarrow> (b \<longleftrightarrow> local_contents base fs k \<noteq> None))"
proof -
  let ?act = "\<lambda>ns. Inr (is_file (ns (object_path base k))
      \<and> \<not> list_ex (\<lambda>q. is_file (ns q)) (ancestors (object_path base k)), ns)"
  obtain r1 fs1 where 1: "sys (plain_backend base fault n) ?act fs = (r1, fs1)"
    by (cases "sys (plain_backend base fault n) ?act fs")
  have s: "same_objects base fs fs1" by (rule sys_reads [OF assms(1) 1]) auto
  show ?thesis
  proof (cases r1)
    case (Inl e)
    then show ?thesis using assms(2,3) 1 s by (auto simp: local_exists_def resolve_server_key)
  next
    case (Inr b)
    have "b \<longleftrightarrow> local_contents base fs k \<noteq> None"
    proof -
      have "b \<longleftrightarrow> is_file (fs_nodes fs (object_path base k))"
        using sys_nodes_Inr [OF 1 [unfolded Inr]] no_file_above [OF assms(1,2)] by auto
      then show ?thesis by (simp add: is_file_def local_contents_def split: option.split node.split)
    qed
    then show ?thesis using assms(2,3) 1 s Inr by (auto simp: local_exists_def resolve_server_key)
  qed
qed

interpretation local_files: storage_contract "local_storage (plain_backend base fault n)" "local_inv base" server_key
    "local_contents base"
proof (unfold_locales, goal_cases)
  case (1 s k c t md s')
  then show ?case using local_store_result [of base s k fault n c t "Inr md" s'] by (simp add: local_storage_def)
next
  case (2 s k c t e s')
  then show ?case using local_store_result [of base s k fault n c t "Inl e" s']
    by (simp add: local_storage_def same_objects_def)
next
  case (3 s k r s')
  then show ?case using local_open_result [of base s k fault n r s'] by (simp add: local_storage_def same_objects_def)
next
  case (4 s k u s')
  then show ?case using local_delete_result [of base s k fault n "Inr u" s'] by (simp add: local_storage_def)
next
  case (5 s k e s')
  then show ?case using local_delete_result [of base s k fault n "Inl e" s']
    by (simp add: local_storage_def same_objects_def)
next
  case (6 s k m ru s')
  obtain b s1 where e: "local_exists (plain_backend base fault n) k s = (b, s1)" by (metis prod.exhaust)
  have "local_download_url (plain_backend base fault n) k m s = (ru, s')" using 6(3) by (simp add: local_storage_def)
  then show ?case
    using local_exists_result [OF 6(1,2) e] e
    by (cases b) (auto simp: local_download_url_def same_objects_def split: if_splits)
qed


text \<open>When the system fails no call, storing under a server-generated key succeeds, and so does reading it back.\<close>

lemma parent_is_prefix:
  assumes "server_key k" and "q = butlast (object_path base k) \<or> q \<in> set (ancestors (butlast (object_path base k)))"
  shows "q \<in> set (ancestors (object_path base k))"
  using assms(2) length_object_path [OF assms(1), of base]
  by (auto simp: ancestors_iff is_prefix_def butlast_conv_take min_def)

lemma local_store_succeeds:
  assumes "local_inv base fs" "server_key k"
  shows "\<exists>md fs'. local_store (plain_backend base (\<lambda>_. None) n) k c t fs = (Inr md, fs')"
proof -
  let ?lb = "plain_backend base (\<lambda>_. None) n" and ?p = "object_path base k"
  have nf: "lb_fault ?lb i = None" for i by (simp add: plain_backend_def)
  obtain r1 fs1 where 1: "sys ?lb (make_dirs (butlast ?p)) fs = (r1, fs1)" by (metis prod.exhaust)
  have "\<not> is_file (fs_nodes fs q)" if "q = butlast ?p \<or> q \<in> set (ancestors (butlast ?p))" for q
    using no_file_above [OF assms] parent_is_prefix [OF assms(2) that] by (auto simp: list_ex_iff)
  then have r1: "r1 = Inr ()" using 1 nf by (auto simp: sys_def Let_def make_dirs_def list_ex_iff split: if_splits)
  obtain r2 fs2 where 2: "sys ?lb (\<lambda>ns. Inr ((), ns)) fs1 = (r2, fs2)" by (metis prod.exhaust)
  have i1: "local_inv base fs1" using sys_make_dirs [OF assms 1] by (simp add: same_objects_def)
  have r2: "r2 = Inr ()" "fs_nodes fs2 = fs_nodes fs1" using 2 nf by (auto simp: sys_def Let_def)
  obtain r3 fs3 where 3: "sys ?lb (replace_file ?p c) fs2 = (r3, fs3)" by (metis prod.exhaust)
  have "r3 = Inr ()"
    using 3 nf object_not_dir [OF i1 assms(2)] r2(2) by (auto simp: sys_def Let_def replace_file_def split: if_splits)
  then show ?thesis
    using 1 2 3 r1 r2 by (simp add: local_store_def resolve_server_key [OF assms(2)])
qed

lemma local_open_succeeds:
  assumes "local_inv base fs" "server_key k" "local_contents base fs k = Some c"
  shows "\<exists>fs'. local_open (plain_backend base (\<lambda>_. None) n) k fs = (Inr c, fs')"
proof -
  have "lb_fault (plain_backend base (\<lambda>_. None) n) i = None" for i by (simp add: plain_backend_def)
  then show ?thesis
    using read_file_object [OF assms(1,2)] assms(3)
    by (simp add: local_open_def resolve_server_key [OF assms(2)] sys_def Let_def)
qed


lemma local_exists_succeeds:
  assumes "local_inv base fs" "server_key k" "local_contents base fs k = Some c"
  shows "\<exists>fs'. local_exists (plain_backend base (\<lambda>_. None) n) k fs = (Inr True, fs')"
proof -
  let ?lb = "plain_backend base (\<lambda>_. None) n"
  obtain r fs' where x: "local_exists ?lb k fs = (r, fs')" by (metis prod.exhaust)
  have "lb_fault ?lb i = None" for i by (simp add: plain_backend_def)
  then have "r \<noteq> Inl e" for e
    using x by (auto simp: local_exists_def resolve_server_key [OF assms(2)] sys_def Let_def)
  then show ?thesis using local_exists_result [OF assms(1,2) x] assms(3) x by (cases r) auto
qed


section \<open>Properties\<close>

text \<open>
  C16: Whatever symbolic links the system follows, a key that the local backend accepts is resolved to
  the storage root or to a path below it; absolute keys and keys with a parent reference are rejected.
\<close>

theorem keys_stay_under_root:
  assumes "resolve_key lb k = Inr p"
  shows "is_prefix (lb_root lb) p \<and> \<not> is_absolute k \<and> ''..'' \<notin> set (path_parts k)"
  using assms by (auto simp: resolve_key_def Let_def is_prefix_def split: if_splits)

definition demo_root :: path where
  "demo_root = [''srv'', ''assets'']"

definition demo_key :: string where
  "demo_key = ''products/p/a/cover.png''"

definition demo_backend :: local_backend where
  "demo_backend = plain_backend demo_root (\<lambda>_. None) 4096"

definition demo_fs :: filesystem where
  "demo_fs = \<lparr>fs_nodes = (\<lambda>p. if is_prefix p demo_root then Some Dir else None), fs_calls = 0\<rparr>"

lemma keys_stay_under_root_witness:
  "resolve_key demo_backend demo_key = Inr (demo_root @ [''products'', ''p'', ''a'', ''cover.png''])
   \<and> is_prefix (lb_root demo_backend) (demo_root @ [''products'', ''p'', ''a'', ''cover.png''])"
proof -
  have r: "resolve_key demo_backend demo_key = Inr (demo_root @ [''products'', ''p'', ''a'', ''cover.png''])"
    by (simp add: resolve_key_def demo_backend_def demo_key_def demo_root_def plain_backend_def path_parts_def
        is_absolute_def is_prefix_def)
  then show ?thesis using keys_stay_under_root [OF r] by simp
qed


lemma demo_fs_inv: "local_inv demo_root demo_fs"
  by (auto simp: local_inv_def demo_fs_def is_file_def is_prefix_def demo_root_def)

lemma demo_key_ok: "server_key demo_key"
  by (simp add: server_key_def demo_key_def path_parts_def)


end
