(* ===== verification/Assets.thy ===== *)
theory Assets
  imports Storage Runtime
begin

text \<open>
  \<open>app/services/asset_service.py\<close>: validating, storing, listing, downloading and deleting the assets of
  a product. The state of an operation is the database beside the state of the storage backend.
\<close>

section \<open>File names and keys\<close>

definition MAX_FILENAME_LENGTH :: nat where
  "MAX_FILENAME_LENGTH = 255"

text \<open>
  \<open>unicodedata.normalize('NFKD', s).encode('ascii', 'ignore')\<close> on the characters below 256: the ASCII
  part of a character's decomposition.
\<close>

definition decompositions :: "(nat \<times> string) list" where
  "decompositions =
     [(160, '' ''), (168, '' ''), (170, ''a''), (175, '' ''), (178, ''2''), (179, ''3''), (180, '' ''), (184, '' ''),
      (185, ''1''), (186, ''o''), (188, ''14''), (189, ''12''), (190, ''34''), (199, ''C''), (209, ''N''), (221, ''Y''),
      (231, ''c''), (241, ''n''), (253, ''y''), (255, ''y'')]
     @ concat (map (\<lambda>(r, c). map (\<lambda>n. (n, c)) r)
         [([192..<198], ''A''), ([200..<204], ''E''), ([204..<208], ''I''), ([210..<215], ''O''), ([217..<221], ''U''),
          ([224..<230], ''a''), ([232..<236], ''e''), ([236..<240], ''i''), ([242..<247], ''o''), ([249..<253], ''u'')])"

definition ascii_of :: "char \<Rightarrow> string" where
  "ascii_of c = (let n = of_char c :: nat in
     if n < 128 then [c] else case map_of decompositions n of None \<Rightarrow> [] | Some s \<Rightarrow> s)"

text \<open>\<open>PurePosixPath(s).name\<close>.\<close>

definition path_name :: "string \<Rightarrow> string" where
  "path_name s = (case rev (path_parts s) of [] \<Rightarrow> [] | p # _ \<Rightarrow> p)"

definition safe_char :: "char \<Rightarrow> bool" where
  "safe_char c = (let n = of_char c :: nat in
     (65 \<le> n \<and> n \<le> 90) \<or> (97 \<le> n \<and> n \<le> 122) \<or> (48 \<le> n \<and> n \<le> 57) \<or> c \<in> {CHR ''.'', CHR ''_'', CHR ''-''})"

text \<open>\<open>re.sub('[^A-Za-z0-9._-]+', '_', s)\<close>: each maximal run of other characters becomes one underscore.\<close>

fun squash :: "bool \<Rightarrow> string \<Rightarrow> string" where
  "squash in_run [] = []"
| "squash in_run (c # cs) =
     (if safe_char c then c # squash False cs
      else if in_run then squash True cs else CHR ''_'' # squash True cs)"

definition sanitize_filename :: "string \<Rightarrow> string" where
  "sanitize_filename original =
     (let base = path_name (concat (map ascii_of original));
          safe = strip_chars {CHR ''.'', CHR ''_''} (squash False base)
      in take MAX_FILENAME_LENGTH (if safe = [] then ''file'' else safe))"

definition build_storage_key :: "uuid \<Rightarrow> uuid \<Rightarrow> string \<Rightarrow> string" where
  "build_storage_key product_id asset_id safe_filename =
     ''products/'' @ product_id @ ''/'' @ asset_id @ ''/'' @ safe_filename"


section \<open>Validation\<close>

definition MAGIC_BYTES :: "(string \<times> bytes list) list" where
  "MAGIC_BYTES =
     [(''image/png'', [map char_of [0x89, 0x50, 0x4E, 0x47, 0x0D, 0x0A, 0x1A, 0x0A :: nat]]),
      (''image/jpeg'', [map char_of [0xFF, 0xD8, 0xFF :: nat]]),
      (''application/pdf'', [''%PDF-'']),
      (''application/zip'', map (map char_of) [[0x50, 0x4B, 3, 4 :: nat], [0x50, 0x4B, 5, 6], [0x50, 0x4B, 7, 8]])]"

definition starts_with_bytes :: "bytes \<Rightarrow> bytes \<Rightarrow> bool" where
  "starts_with_bytes p s \<longleftrightarrow> take (length p) s = p"

definition content_matches_declared_type :: "bytes \<Rightarrow> string \<Rightarrow> bool" where
  "content_matches_declared_type content declared =
     (case map_of MAGIC_BYTES declared of
        None \<Rightarrow> True | Some signatures \<Rightarrow> list_ex (\<lambda>p. starts_with_bytes p content) signatures)"

definition validate_upload :: "settings \<Rightarrow> string \<Rightarrow> string \<Rightarrow> bytes \<Rightarrow> exn + unit" where
  "validate_upload st filename ctype content =
     (if filename = [] \<or> MAX_FILENAME_LENGTH < length filename \<or> char_of (0 :: nat) \<in> set filename
      then Inl (Domain (InvalidFilenameError filename))
      else if content = [] then Inl (Domain EmptyFileError)
      else if s_max_upload_size_bytes st < int (length content)
      then Inl (Domain (FileTooLargeError (int (length content)) (s_max_upload_size_bytes st)))
      else if ctype \<notin> set (allowed_mime_types_list st) then Inl (Domain (UnsupportedFileTypeError ctype))
      else if \<not> content_matches_declared_type content ctype then Inl (Domain (UnsupportedFileTypeError ctype))
      else Inr ())"

definition storage_provider_of :: "string \<Rightarrow> exn + storage_provider" where
  "storage_provider_of s =
     (if s = ''local'' then Inr SP_LOCAL else if s = ''s3'' then Inr SP_S3
      else Inl (PyExc ''ValueError'' (repr_str s @ '' is not a valid StorageProvider'')))"


section \<open>Operations\<close>

type_synonym ('s, 'a) svc = "(world \<times> 's, exn, 'a) m"

definition in_db :: "'a app \<Rightarrow> ('s, 'a) svc" where
  "in_db m ws = (case m (fst ws) of (r, w) \<Rightarrow> (r, (w, snd ws)))"

definition in_store :: "('s, 'a) store \<Rightarrow> ('s, 'a) svc" where
  "in_store m ws = (case m (snd ws) of (r, s) \<Rightarrow> (r, (fst ws, s)))"

text \<open>\<open>except StorageError as exc: raise AssetStorageOperationFailedError(operation)\<close>.\<close>

definition storage_failed :: "string \<Rightarrow> ('s, 'a) svc \<Rightarrow> ('s, 'a) svc" where
  "storage_failed operation m =
     catchM m (\<lambda>e. raise (if is_storage_error e then Domain (AssetStorageOperationFailedError operation) else e))"

definition get_active_product :: "uuid \<Rightarrow> product app" where
  "get_active_product pid =
     bindM (getM (\<lambda>w. row_get p_id pid (products w))) (\<lambda>r. case r of
         None \<Rightarrow> raise (Domain (ProductNotFoundError pid)) | Some p \<Rightarrow> ret p)"

definition put_asset :: "asset \<Rightarrow> unit app" where
  "put_asset a = modifyM (\<lambda>w. w\<lparr>assets := row_put a_id a (assets w)\<rparr>)"

text \<open>The commit of a new row, which the database may reject: the oracle gives what it raises.\<close>

definition commit_asset :: "(nat \<Rightarrow> exn option) \<Rightarrow> asset \<Rightarrow> unit app" where
  "commit_asset commit a =
     bindM (readM commit) (\<lambda>r. case r of Some e \<Rightarrow> raise e | None \<Rightarrow> put_asset a)"

definition is_integrity_error :: "exn \<Rightarrow> bool" where
  "is_integrity_error e = (case e of PyExc n _ \<Rightarrow> n = ''IntegrityError'' | _ \<Rightarrow> False)"

definition new_asset ::
  "uuid \<Rightarrow> uuid \<Rightarrow> string \<Rightarrow> string \<Rightarrow> string \<Rightarrow> bytes \<Rightarrow> string option \<Rightarrow> storage_provider \<Rightarrow> uuid \<Rightarrow> time \<Rightarrow> asset" where
  "new_asset aid pid atype original ctype content etag backend user now =
     (let safe = sanitize_filename original in
      \<lparr>a_id = aid, a_product_id = pid, a_type = atype, a_filename = safe,
       a_storage_key = build_storage_key pid aid safe, a_mime_type = ctype,
       a_size_bytes = int (length content), a_checksum = hexdigest (sha256 (map of_char content)),
       a_original_filename = Some (take MAX_FILENAME_LENGTH original), a_content_type = Some ctype,
       a_etag = etag, a_storage_backend = backend, a_status = AST_AVAILABLE, a_uploaded_by = Some user,
       a_deleted_at = None, a_created_at = now\<rparr>)"

text \<open>The best-effort removal of the object whose row was rejected.\<close>

definition roll_back :: "'s storage \<Rightarrow> string \<Rightarrow> exn \<Rightarrow> ('s, 'a) svc" where
  "roll_back be key e =
     seqM (catchM (in_store (sb_delete be key)) (\<lambda>e'. if is_storage_error e' then ret () else raise e')) (raise e)"

definition upload_asset ::
  "env \<Rightarrow> (nat \<Rightarrow> exn option) \<Rightarrow> 's storage \<Rightarrow> uuid \<Rightarrow> string \<Rightarrow> string \<Rightarrow> string \<Rightarrow> bytes \<Rightarrow> uuid \<Rightarrow> ('s, asset) svc" where
  "upload_asset ev commit be pid atype original ctype content user =
     bindM (in_db (get_active_product pid)) (\<lambda>_.
     bindM (liftE (validate_upload (e_settings ev) original ctype content)) (\<lambda>_.
     bindM (in_db (readM (e_uuid ev))) (\<lambda>aid.
     let key = build_storage_key pid aid (sanitize_filename original) in
     bindM (liftE (storage_provider_of (s_storage_backend (e_settings ev)))) (\<lambda>backend.
     bindM (storage_failed ''write'' (in_store (sb_store be key content (Some ctype)))) (\<lambda>md.
     bindM (in_db (readM (e_now ev))) (\<lambda>now.
     let a = new_asset aid pid atype original ctype content (sm_etag md) backend user now in
     seqM (catchM (in_db (commit_asset commit a)) (\<lambda>e.
             if is_integrity_error e then roll_back be key e else raise e))
       (ret a)))))))"

definition get_asset :: "uuid \<Rightarrow> asset app" where
  "get_asset aid =
     bindM (getM (\<lambda>w. row_get a_id aid (assets w))) (\<lambda>r. case r of
         None \<Rightarrow> raise (Domain (AssetNotFoundError aid))
       | Some a \<Rightarrow> if a_status a = AST_DELETED then raise (Domain (AssetDeletedError aid)) else ret a)"

definition list_assets_for_product :: "uuid \<Rightarrow> int \<Rightarrow> int \<Rightarrow> (asset list \<times> nat) app" where
  "list_assets_for_product pid limit offset =
     getM (\<lambda>w. let rows = filter (\<lambda>a. a_product_id a = pid \<and> a_status a \<noteq> AST_DELETED) (assets w)
               in (page_of limit offset (order_by (\<lambda>a. - a_created_at a) rows), length rows))"

definition delete_asset :: "env \<Rightarrow> 's storage \<Rightarrow> uuid \<Rightarrow> ('s, unit) svc" where
  "delete_asset ev be aid =
     bindM (in_db (getM (\<lambda>w. row_get a_id aid (assets w)))) (\<lambda>r. case r of
         None \<Rightarrow> raise (Domain (AssetNotFoundError aid))
       | Some a \<Rightarrow>
           if a_status a = AST_DELETED then ret ()
           else bindM (storage_failed ''delete'' (in_store (sb_delete be (a_storage_key a)))) (\<lambda>_.
                bindM (in_db (readM (e_now ev))) (\<lambda>now.
                in_db (put_asset (a\<lparr>a_status := AST_DELETED, a_deleted_at := Some now\<rparr>)))))"

record download_payload =
  dp_asset :: asset
  dp_url :: "string option"
  dp_content :: "bytes option"

definition get_download_payload :: "'s storage \<Rightarrow> uuid \<Rightarrow> ('s, download_payload) svc" where
  "get_download_payload be aid =
     bindM (in_db (get_asset aid)) (\<lambda>a.
     bindM (storage_failed ''read'' (in_store (sb_download_url be (a_storage_key a) 300))) (\<lambda>url. case url of
         Some u \<Rightarrow> ret \<lparr>dp_asset = a, dp_url = Some u, dp_content = None\<rparr>
       | None \<Rightarrow>
           bindM (storage_failed ''read'' (in_store (sb_open be (a_storage_key a)))) (\<lambda>content.
           ret \<lparr>dp_asset = a, dp_url = None, dp_content = Some content\<rparr>)))"

section \<open>Generated names and keys\<close>

definition plain_segment :: "string \<Rightarrow> bool" where
  "plain_segment p \<longleftrightarrow> p \<noteq> [] \<and> p \<noteq> ''.'' \<and> p \<noteq> ''..'' \<and> CHR ''/'' \<notin> set p"

definition safe_filename :: "string \<Rightarrow> bool" where
  "safe_filename f \<longleftrightarrow> f \<noteq> [] \<and> length f \<le> MAX_FILENAME_LENGTH \<and> list_all safe_char f
     \<and> hd f \<noteq> CHR ''.'' \<and> hd f \<noteq> CHR ''_''"

lemma split_on_append: "sep \<notin> set p \<Longrightarrow> split_on sep (p @ sep # s) = p # split_on sep s"
  by (induction p) auto

lemma split_on_plain: "sep \<notin> set p \<Longrightarrow> split_on sep p = [p]"
  by (induction p) auto

lemma path_parts_join:
  "list_all plain_segment ps \<Longrightarrow> path_parts (join ''/'' ps) = ps"
proof (induction ps)
  case (Cons p ps)
  then show ?case
    by (cases ps) (auto simp: path_parts_def plain_segment_def split_on_append split_on_plain join_Cons_slash)
qed (simp add: path_parts_def)

lemma storage_key_join:
  "build_storage_key pid aid f = join ''/'' [''products'', pid, aid, f]"
  by (simp add: build_storage_key_def)

lemma plain_products: "plain_segment ''products''"
  by (simp add: plain_segment_def)

lemma build_key_parts:
  assumes "plain_segment pid" "plain_segment aid" "plain_segment f"
  shows "path_parts (build_storage_key pid aid f) = [''products'', pid, aid, f]"
  unfolding storage_key_join by (rule path_parts_join) (simp add: assms plain_products)

lemma server_key_build:
  "plain_segment pid \<Longrightarrow> plain_segment aid \<Longrightarrow> plain_segment f \<Longrightarrow> server_key (build_storage_key pid aid f)"
  by (auto simp: server_key_def build_key_parts) (auto simp: storage_key_join plain_segment_def)

lemma squash_safe: "list_all safe_char (squash b s)"
  by (induction b s rule: squash.induct) (auto simp: safe_char_def)

lemma strip_chars_hd: "strip_chars cs s \<noteq> [] \<Longrightarrow> hd (strip_chars cs s) \<notin> cs"
proof -
  assume ne: "strip_chars cs s \<noteq> []"
  let ?t = "dropWhile (\<lambda>c. c \<in> cs) s"
  obtain u where u: "?t = strip_chars cs s @ u"
    unfolding strip_chars_def by (metis rev_append rev_rev_ident takeWhile_dropWhile_id)
  then have "?t \<noteq> []" "hd ?t = hd (strip_chars cs s)" using ne by auto
  then show ?thesis using hd_dropWhile [of "\<lambda>c. c \<in> cs" s] by simp
qed

lemma strip_chars_subset: "set (strip_chars cs s) \<subseteq> set s"
  unfolding strip_chars_def by (auto dest!: set_dropWhileD)

lemma sanitize_safe: "safe_filename (sanitize_filename s)"
proof -
  let ?q = "squash False (path_name (concat (map ascii_of s)))"
  let ?t = "strip_chars {CHR ''.'', CHR ''_''} ?q"
  let ?r = "if ?t = [] then ''file'' else ?t"
  have "list_all safe_char ?t"
    using squash_safe [of False "path_name (concat (map ascii_of s))"]
      strip_chars_subset [of "{CHR ''.'', CHR ''_''}" ?q] by (auto simp: list_all_iff)
  then have "list_all safe_char ?r" by (simp add: safe_char_def)
  moreover have "hd ?r \<noteq> CHR ''.'' \<and> hd ?r \<noteq> CHR ''_''"
    using strip_chars_hd [of "{CHR ''.'', CHR ''_''}" ?q] by simp
  moreover have "?r \<noteq> []" by simp
  ultimately show ?thesis
    unfolding sanitize_filename_def Let_def safe_filename_def
    by (auto simp: MAX_FILENAME_LENGTH_def list_all_iff dest: in_set_takeD)
qed

lemma safe_plain: "safe_filename f \<Longrightarrow> plain_segment f"
  by (cases f) (auto simp: safe_filename_def plain_segment_def list_all_iff safe_char_def)


section \<open>What the operations do\<close>

lemma in_db_run [run]: "in_db m (w, s) = (case m w of (r, w') \<Rightarrow> (r, (w', s)))"
  by (simp add: in_db_def)

lemma in_store_run [run]: "in_store m (w, s) = (case m s of (r, s') \<Rightarrow> (r, (w, s')))"
  by (simp add: in_store_def)

lemma storage_failed_run [run]:
  "m ws = (Inr x, ws') \<Longrightarrow> storage_failed op m ws = (Inr x, ws')"
  "m ws = (Inl e, ws') \<Longrightarrow> storage_failed op m ws =
     (Inl (if is_storage_error e then Domain (AssetStorageOperationFailedError op) else e), ws')"
  by (simp_all add: storage_failed_def run)

lemma read_in_db [run]: "bindM (in_db (readM f)) g (w, s) = g (f (tick w)) (w\<lparr>tick := Suc (tick w)\<rparr>, s)"
  by (simp add: bindM_def in_db_def readM_def)

lemma get_in_db [run]: "bindM (in_db (getM f)) g (w, s) = g (f w) (w, s)"
  by (simp add: bindM_def in_db_def getM_def)

definition only_asset :: "uuid \<Rightarrow> world \<Rightarrow> world \<Rightarrow> bool" where
  "only_asset aid w w' \<longleftrightarrow>
     (\<exists>t n. w' = w\<lparr>assets := t, tick := n\<rparr> \<and> (\<forall>j. j \<noteq> aid \<longrightarrow> row_get a_id j t = row_get a_id j (assets w)))"

lemma only_asset_tick [simp]: "only_asset aid w (w\<lparr>tick := n\<rparr>)"
  unfolding only_asset_def by (intro exI [of _ "assets w"] exI [of _ n]) simp

lemma only_asset_put [simp]:
  "only_asset (a_id a) w (w\<lparr>assets := row_put a_id a (assets w), tick := n\<rparr>)"
  unfolding only_asset_def
  by (intro exI [of _ "row_put a_id a (assets w)"] exI [of _ n]) (simp add: row_get_put)

lemma only_asset_put_tick [simp]:
  "only_asset (a_id a) w (w\<lparr>tick := n, assets := row_put a_id a (assets w)\<rparr>)"
proof -
  have "w\<lparr>tick := n, assets := row_put a_id a (assets w)\<rparr> = w\<lparr>assets := row_put a_id a (assets w), tick := n\<rparr>"
    by simp
  then show ?thesis by (simp only: only_asset_put)
qed

lemma new_asset_fields [simp]:
  "a_id (new_asset aid pid ty orig ct c etag b u t) = aid"
  "a_storage_key (new_asset aid pid ty orig ct c etag b u t) = build_storage_key pid aid (sanitize_filename orig)"
  "a_status (new_asset aid pid ty orig ct c etag b u t) = AST_AVAILABLE"
  "a_size_bytes (new_asset aid pid ty orig ct c etag b u t) = int (length c)"
  "a_checksum (new_asset aid pid ty orig ct c etag b u t) = hexdigest (sha256 (map of_char c))"
  by (simp_all add: new_asset_def Let_def)

lemma get_active_product_run [run]:
  "get_active_product pid w = (case row_get p_id pid (products w) of
       None \<Rightarrow> (Inl (Domain (ProductNotFoundError pid)), w) | Some p \<Rightarrow> (Inr p, w))"
  by (simp add: get_active_product_def run split: option.split)

lemma commit_asset_run [run]:
  "commit_asset commit a w = (case commit (tick w) of
       Some e \<Rightarrow> (Inl e, w\<lparr>tick := Suc (tick w)\<rparr>)
     | None \<Rightarrow> (Inr (), w\<lparr>tick := Suc (tick w), assets := row_put a_id a (assets w)\<rparr>))"
  by (simp add: commit_asset_def run put_asset_def modifyM_def split: option.split)

lemma roll_back_run:
  "sb_delete be key s = (dr, s2) \<Longrightarrow>
     roll_back be key e (w, s) = (Inl (case dr of Inl e' \<Rightarrow> if is_storage_error e' then e else e' | Inr _ \<Rightarrow> e), (w, s2))"
  by (cases dr) (auto simp: roll_back_def run)

context storage_contract
begin

definition others_kept :: "string \<Rightarrow> 's \<Rightarrow> 's \<Rightarrow> bool" where
  "others_kept k s s' \<longleftrightarrow> inv s' \<and> (\<forall>j. key_ok j \<longrightarrow> j \<noteq> k \<longrightarrow> contents s' j = contents s j)"

lemma others_kept_trans: "others_kept k s s1 \<Longrightarrow> others_kept k s1 s2 \<Longrightarrow> others_kept k s s2"
  by (simp add: others_kept_def)

definition uploaded :: "uuid \<Rightarrow> string \<Rightarrow> bytes \<Rightarrow> world \<Rightarrow> 's \<Rightarrow> exn + asset \<Rightarrow> world \<Rightarrow> 's \<Rightarrow> bool" where
  "uploaded aid k content w s r w' s' \<longleftrightarrow> others_kept k s s' \<and> only_asset aid w w' \<and> (case r of
       Inr a \<Rightarrow> a_id a = aid \<and> a_storage_key a = k \<and> row_get a_id aid (assets w') = Some a
         \<and> a_status a = AST_AVAILABLE \<and> a_size_bytes a = int (length content)
         \<and> a_checksum a = hexdigest (sha256 (map of_char content)) \<and> contents s' k = Some content
     | Inl _ \<Rightarrow> assets w' = assets w)"

lemma upload_asset_outcome:
  assumes "inv s" and up: "upload_asset ev commit be pid atype original ctype content user (w, s) = (r, (w', s'))"
    and k: "k = build_storage_key pid (e_uuid ev (tick w)) (sanitize_filename original)" "key_ok k"
  shows "uploaded (e_uuid ev (tick w)) k content w s r w' s'"
proof -
  let ?aid = "e_uuid ev (tick w)"
  have same: "uploaded ?aid k content w s (Inl e) (w\<lparr>tick := n\<rparr>) s" for e n
    using assms(1) by (simp add: uploaded_def others_kept_def)
  note same0 = same [of _ "tick w", simplified]
  show ?thesis
  proof (cases "row_get p_id pid (products w)")
    case None
    then have "r = Inl (Domain (ProductNotFoundError pid))" "w' = w" "s' = s"
      using up by (auto simp: upload_asset_def run)
    then show ?thesis using same0 by simp
  next
    case p: (Some p)
    show ?thesis
    proof (cases "validate_upload (e_settings ev) original ctype content")
      case (Inl e)
      then have "r = Inl e" "w' = w" "s' = s" using up p by (auto simp: upload_asset_def run)
      then show ?thesis using same0 by simp
    next
      case v: (Inr u)
      show ?thesis
      proof (cases "storage_provider_of (s_storage_backend (e_settings ev))")
        case (Inl e)
        then have "r = Inl e" "w' = w\<lparr>tick := Suc (tick w)\<rparr>" "s' = s"
          using up p v by (auto simp: upload_asset_def run Let_def)
        then show ?thesis using same by simp
      next
        case b: (Inr b)
        obtain st s1 where st: "sb_store be k content (Some ctype) s = (st, s1)" by (metis prod.exhaust)
        show ?thesis
        proof (cases st)
          case (Inl e)
          then obtain e' where "r = Inl e'" "w' = w\<lparr>tick := Suc (tick w)\<rparr>" "s' = s1"
            using up p v b st k(1) by (auto simp: upload_asset_def run Let_def)
          then show ?thesis
            using store_failed [OF assms(1) k(2) st [unfolded Inl]] by (simp add: uploaded_def others_kept_def)
        next
          case (Inr md)
          note dn = store_done [OF assms(1) k(2) st [unfolded Inr]]
          let ?a = "new_asset ?aid pid atype original ctype content (sm_etag md) b user (e_now ev (Suc (tick w)))"
          let ?n = "Suc (Suc (tick w))"
          show ?thesis
          proof (cases "commit ?n")
            case None
            then have "r = Inr ?a" "w' = w\<lparr>tick := Suc ?n, assets := row_put a_id ?a (assets w)\<rparr>" "s' = s1"
              using up p v b st k(1) Inr by (auto simp: upload_asset_def run Let_def)
            then show ?thesis
              using dn k(1) only_asset_put_tick [of ?a w "Suc ?n"] by (simp add: uploaded_def others_kept_def row_get_put)
          next
            case (Some e)
            obtain dr s2 where d: "sb_delete be k s1 = (dr, s2)" by (metis prod.exhaust)
            have "others_kept k s1 s2"
              using delete_done [OF _ k(2), of s1 _ s2] delete_failed [OF _ k(2), of s1 _ s2] dn d
              by (cases dr) (auto simp: others_kept_def)
            moreover have "others_kept k s s1" using dn by (simp add: others_kept_def)
            moreover obtain e' where "r = Inl e'" "w' = w\<lparr>tick := Suc ?n\<rparr>" "s' = s1 \<or> s' = s2"
              using up p v b st k(1) Inr Some
              by (cases "is_integrity_error e")
                (auto simp: upload_asset_def run Let_def roll_back_run [OF d [unfolded k(1)]])
            ultimately show ?thesis by (auto simp: uploaded_def intro: others_kept_trans)
          qed
        qed
      qed
    qed
  qed
qed

text \<open>What an upload left is what a download hands out.\<close>

lemma download_uploaded:
  assumes "uploaded aid k content w s (Inr a) w' s'" "key_ok k"
    and "get_download_payload be aid (w', s') = (Inr d, ws)"
  shows "dp_asset d = a \<and> (dp_content d = Some content \<or> (\<exists>u. dp_url d = Some u \<and> dp_content d = None)) \<and> fst ws = w'"
proof -
  have a: "row_get a_id aid (assets w') = Some a" "a_status a = AST_AVAILABLE" "a_storage_key a = k"
      "contents s' k = Some content" "inv s'"
    using assms(1) by (simp_all add: uploaded_def others_kept_def)
  have g: "get_asset aid w' = (Inr a, w')" using a by (simp add: get_asset_def run)
  obtain ur s1 where u: "sb_download_url be k 300 s' = (ur, s1)" by (metis prod.exhaust)
  note u1 = download_url [OF a(5) assms(2) u]
  obtain op s2 where o: "sb_open be k s1 = (op, s2)" by (metis prod.exhaust)
  show ?thesis
  proof (cases ur)
    case (Inl e)
    then show ?thesis using assms(3) g u a(3) by (auto simp: get_download_payload_def run)
  next
    case (Inr url)
    show ?thesis
    proof (cases url)
      case (Some t)
      then show ?thesis using assms(3) g u a(3) Inr by (auto simp: get_download_payload_def run)
    next
      case None
      have "c = content" if "op = Inr c" for c
        using open_result [OF _ assms(2) o] u1 that a(4) assms(2) by auto
      then show ?thesis
        using assms(3) g u a(3) o Inr None by (cases op) (auto simp: get_download_payload_def run)
    qed
  qed
qed

definition deleted :: "uuid \<Rightarrow> world \<Rightarrow> 's \<Rightarrow> exn + unit \<Rightarrow> world \<Rightarrow> 's \<Rightarrow> bool" where
  "deleted aid w s r w' s' \<longleftrightarrow> (case r of
       Inl e \<Rightarrow> w' = w \<and> inv s' \<and> (\<forall>j. key_ok j \<longrightarrow> contents s' j = contents s j)
         \<and> (e = Domain (AssetNotFoundError aid) \<or> e = Domain (AssetStorageOperationFailedError ''delete''))
     | Inr _ \<Rightarrow> (\<exists>a b. row_get a_id aid (assets w) = Some a \<and> row_get a_id aid (assets w') = Some b
         \<and> a_status b = AST_DELETED \<and> only_asset aid w w' \<and> others_kept (a_storage_key a) s s'
         \<and> (if a_status a = AST_DELETED then w' = w \<and> s' = s else contents s' (a_storage_key a) = None)))"

lemma delete_asset_outcome:
  assumes "inv s" and del: "delete_asset ev be aid (w, s) = (r, (w', s'))"
    and ok: "\<And>a. row_get a_id aid (assets w) = Some a \<Longrightarrow> key_ok (a_storage_key a)"
  shows "deleted aid w s r w' s'"
proof (cases "row_get a_id aid (assets w)")
  case None
  then show ?thesis using del assms(1) by (auto simp: delete_asset_def run deleted_def)
next
  case (Some a)
  note key = ok [OF Some]
  have id: "a_id a = aid" using row_get_SomeD [OF Some] by simp
  show ?thesis
  proof (cases "a_status a = AST_DELETED")
    case True
    then have "r = Inr ()" "w' = w" "s' = s" using del Some by (auto simp: delete_asset_def run)
    moreover have "only_asset aid w w" using only_asset_tick [of aid w "tick w"] by simp
    ultimately show ?thesis
      using Some True assms(1) by (simp add: deleted_def others_kept_def)
  next
    case False
    obtain dr s1 where d: "sb_delete be (a_storage_key a) s = (dr, s1)" by (metis prod.exhaust)
    show ?thesis
    proof (cases dr)
      case (Inl e)
      note f = delete_failed [OF assms(1) key d [unfolded Inl]]
      then have "r = Inl (Domain (AssetStorageOperationFailedError ''delete''))" "w' = w" "s' = s1"
        using del Some False d Inl by (auto simp: delete_asset_def run)
      then show ?thesis using f by (simp add: deleted_def)
    next
      case (Inr u)
      let ?b = "a\<lparr>a_status := AST_DELETED, a_deleted_at := Some (e_now ev (tick w))\<rparr>"
      have w': "r = Inr ()" "w' = w\<lparr>tick := Suc (tick w), assets := row_put a_id ?b (assets w)\<rparr>" "s' = s1"
        using del Some False d Inr by (auto simp: delete_asset_def run put_asset_def modifyM_def)
      have "only_asset (a_id ?b) w w'" unfolding w'(2) by (rule only_asset_put_tick)
      then show ?thesis
        using w' Some False id delete_done [OF assms(1) key d [unfolded Inr]]
        by (simp add: deleted_def others_kept_def row_get_put)
    qed
  qed
qed

end

section \<open>Properties\<close>

text \<open>With no failing system call and no rejected commit, a valid upload for an existing product succeeds.\<close>

lemma upload_succeeds:
  assumes "local_inv base s" "row_get p_id pid (products w) = Some p"
    and "validate_upload (e_settings ev) original ctype content = Inr ()"
    and "storage_provider_of (s_storage_backend (e_settings ev)) = Inr b"
    and "server_key (build_storage_key pid (e_uuid ev (tick w)) (sanitize_filename original))"
  shows "\<exists>a w' s'. upload_asset ev (\<lambda>_. None) (local_storage (plain_backend base (\<lambda>_. None) n)) pid atype original ctype
      content user (w, s) = (Inr a, (w', s'))"
  using local_store_succeeds [OF assms(1,5), of n content "Some ctype"] assms(2-4)
  by (auto simp: upload_asset_def run Let_def local_storage_def)

lemma generated_key_ok:
  "plain_segment pid \<Longrightarrow> plain_segment aid \<Longrightarrow> server_key (build_storage_key pid aid (sanitize_filename f))"
  by (rule server_key_build [OF _ _ safe_plain [OF sanitize_safe]])

text \<open>
  Whatever name the client sends, the sanitized file name is non-empty, short, made of letters,
  digits, dots, dashes and underscores and starts with neither a dot nor an underscore; so the storage
  key built from it has exactly four plain path segments.
\<close>

theorem generated_names_are_safe:
  assumes "plain_segment pid" and "plain_segment aid"
  shows "safe_filename (sanitize_filename f)
    \<and> path_parts (build_storage_key pid aid (sanitize_filename f)) = [''products'', pid, aid, sanitize_filename f]
    \<and> server_key (build_storage_key pid aid (sanitize_filename f))"
  using sanitize_safe [of f] build_key_parts [OF assms safe_plain [OF sanitize_safe [of f]]]
    generated_key_ok [OF assms, of f] by blast

lemma generated_names_are_safe_witness:
  "sanitize_filename ''../../etc/pass wd<1>.png'' = ''pass_wd_1_.png'' \<and> safe_filename ''pass_wd_1_.png''
   \<and> server_key (build_storage_key ''p1'' ''a1'' ''pass_wd_1_.png'')"
proof -
  have s: "sanitize_filename ''../../etc/pass wd<1>.png'' = ''pass_wd_1_.png''" by code_simp
  have "plain_segment ''p1''" "plain_segment ''a1''" by (simp_all add: plain_segment_def)
  from generated_names_are_safe [OF this, of "''../../etc/pass wd<1>.png''"] s show ?thesis by simp
qed


definition demo_product :: product where
  "demo_product = \<lparr>p_id = ''p1'', p_slug = ''s'', p_title = ''T'', p_description = None, p_type = PT_BRAND_KIT,
     p_status = PS_DRAFT, p_version = ''v1.0'', p_price_cents = 0, p_currency = ''USD'',
     p_metadata = JObj [], p_created_at = 0\<rparr>"

definition shop_world :: world where
  "shop_world = empty_world\<lparr>products := [demo_product]\<rparr>"

definition demo_upload :: "(exn + asset) \<times> world \<times> filesystem" where
  "demo_upload = upload_asset demo_env (\<lambda>_. None) (local_storage (plain_backend demo_root (\<lambda>_. None) 4096)) ''p1'' ''image''
     ''notes.txt'' ''text/plain'' ''hello'' ''alice'' (shop_world, demo_fs)"

lemma demo_segments: "plain_segment ''p1''" "plain_segment (e_uuid demo_env (tick shop_world))"
  by (simp add: plain_segment_def) code_simp

lemma demo_uploaded: "\<exists>a w s. demo_upload = (Inr a, (w, s))"
  unfolding demo_upload_def
proof (rule upload_succeeds [OF demo_fs_inv])
  show "row_get p_id ''p1'' (products shop_world) = Some demo_product"
    by (simp add: shop_world_def demo_product_def)
  show "validate_upload (e_settings demo_env) ''notes.txt'' ''text/plain'' ''hello'' = Inr ()" by code_simp
  show "storage_provider_of (s_storage_backend (e_settings demo_env)) = Inr SP_LOCAL" by code_simp
  show "server_key (build_storage_key ''p1'' (e_uuid demo_env (tick shop_world)) (sanitize_filename ''notes.txt''))"
    by (rule generated_key_ok [OF demo_segments])
qed


text \<open>
  C23: What was uploaded is what is downloaded: a download of the asset a successful upload returned
  hands out the uploaded bytes.
\<close>

theorem uploaded_content_is_downloaded:
  assumes "local_inv base s" and "plain_segment pid" and "plain_segment (e_uuid ev (tick w))"
    and "upload_asset ev commit (local_storage (plain_backend base fault n)) pid atype original ctype content user (w, s)
           = (Inr a, (w', s'))"
    and "get_download_payload (local_storage (plain_backend base fault n)) (a_id a) (w', s') = (Inr d, ws)"
  shows "dp_asset d = a \<and> dp_content d = Some content \<and> dp_url d = None"
proof -
  note up = local_files.upload_asset_outcome [OF assms(1,4) refl generated_key_ok [OF assms(2,3)]]
  then have id: "a_id a = e_uuid ev (tick w)" by (simp add: local_files.uploaded_def)
  have "dp_url d = None"
    using assms(5)
    by (auto simp: get_download_payload_def local_storage_def bindM_def in_store_def storage_failed_def catchM_def
        local_download_url_def ret_def raise_def split: prod.splits sum.splits option.splits if_splits)
  then show ?thesis
    using local_files.download_uploaded [OF up generated_key_ok [OF assms(2,3)] assms(5) [unfolded id]] by auto
qed

lemma uploaded_content_is_downloaded_witness:
  "\<exists>a w s d ws. demo_upload = (Inr a, (w, s))
     \<and> get_download_payload (local_storage (plain_backend demo_root (\<lambda>_. None) 4096)) (a_id a) (w, s) = (Inr d, ws)
     \<and> dp_content d = Some ''hello''"
proof -
  let ?lb = "plain_backend demo_root (\<lambda>_. None) 4096"
  obtain a w s where u: "demo_upload = (Inr a, (w, s))" using demo_uploaded by blast
  note up = local_files.upload_asset_outcome [OF demo_fs_inv u [unfolded demo_upload_def] refl
      generated_key_ok [OF demo_segments]]
  then have a: "row_get a_id (a_id a) (assets w) = Some a" "a_status a = AST_AVAILABLE" "server_key (a_storage_key a)"
      "local_contents demo_root s (a_storage_key a) = Some ''hello''" "local_inv demo_root s"
    using generated_key_ok [OF demo_segments] by (simp_all add: local_files.uploaded_def local_files.others_kept_def)
  have g: "get_asset (a_id a) w = (Inr a, w)" using a by (simp add: get_asset_def run)
  obtain s1 where x: "local_exists ?lb (a_storage_key a) s = (Inr True, s1)"
    using local_exists_succeeds [OF a(5,3,4)] by blast
  then have du: "local_download_url ?lb (a_storage_key a) 300 s = (Inr None, s1)"
    by (simp add: local_download_url_def)
  have s1: "local_inv demo_root s1" "local_contents demo_root s1 (a_storage_key a) = Some ''hello''"
    using local_exists_result [OF a(5,3) x] a(3,4) by (simp_all add: same_objects_def)
  obtain s2 where "local_open ?lb (a_storage_key a) s1 = (Inr ''hello'', s2)"
    using local_open_succeeds [OF s1(1) a(3) s1(2)] by blast
  then have d: "get_download_payload (local_storage ?lb) (a_id a) (w, s) =
      (Inr \<lparr>dp_asset = a, dp_url = None, dp_content = Some ''hello''\<rparr>, (w, s2))"
    using g du by (simp add: get_download_payload_def run local_storage_def)
  show ?thesis
    using uploaded_content_is_downloaded [OF demo_fs_inv demo_segments u [unfolded demo_upload_def] d] u d by blast
qed

text \<open>
  Deleting an asset through the local backend either raises a not-found or storage-operation error
  and leaves every row and object as it was, or leaves the row marked deleted with its object gone;
  deleting a deleted asset changes nothing.
\<close>

theorem deletion_outcome:
  assumes "local_inv base s" and "\<And>a. row_get a_id aid (assets w) = Some a \<Longrightarrow> server_key (a_storage_key a)"
    and "delete_asset ev (local_storage (plain_backend base fault n)) aid (w, s) = (r, (w', s'))"
  shows "local_inv base s' \<and> (case r of
       Inl e \<Rightarrow> w' = w \<and> (\<forall>j. server_key j \<longrightarrow> local_contents base s' j = local_contents base s j)
         \<and> e \<in> {Domain (AssetNotFoundError aid), Domain (AssetStorageOperationFailedError ''delete'')}
     | Inr _ \<Rightarrow> (\<exists>a b. row_get a_id aid (assets w) = Some a \<and> row_get a_id aid (assets w') = Some b
         \<and> a_status b = AST_DELETED
         \<and> (\<forall>j. server_key j \<longrightarrow> j \<noteq> a_storage_key a \<longrightarrow> local_contents base s' j = local_contents base s j)
         \<and> (if a_status a = AST_DELETED then w' = w \<and> s' = s else local_contents base s' (a_storage_key a) = None)))"
proof -
  have "local_files.deleted base aid w s r w' s'"
    by (rule local_files.delete_asset_outcome [OF assms(1,3)]) (rule assms(2))
  then show ?thesis
    by (cases r) (fastforce simp: local_files.deleted_def local_files.others_kept_def)+
qed

definition kept_asset :: asset where
  "kept_asset = new_asset ''a1'' ''p1'' ''image'' ''notes.txt'' ''text/plain'' ''hello'' None SP_LOCAL ''alice'' 0"

lemma deletion_outcome_witness:
  "\<exists>w s. delete_asset demo_env (local_storage (plain_backend demo_root (\<lambda>_. None) 4096)) ''a1''
       (shop_world\<lparr>assets := [kept_asset]\<rparr>, demo_fs) = (Inr (), (w, s))
     \<and> local_contents demo_root s (a_storage_key kept_asset) = None"
proof -
  let ?w = "shop_world\<lparr>assets := [kept_asset]\<rparr>" and ?be = "local_storage (plain_backend demo_root (\<lambda>_. None) 4096)"
  have k: "row_get a_id ''a1'' (assets ?w) = Some kept_asset" "a_status kept_asset = AST_AVAILABLE"
    by (simp_all add: kept_asset_def)
  have sk: "server_key (a_storage_key kept_asset)"
    unfolding kept_asset_def new_asset_fields by (rule generated_key_ok) (simp_all add: plain_segment_def)
  obtain r s1 where d: "local_delete (plain_backend demo_root (\<lambda>_. None) 4096) (a_storage_key kept_asset) demo_fs = (r, s1)"
    by (metis prod.exhaust)
  have nf: "lb_fault (plain_backend demo_root (\<lambda>_. None) 4096) i = None" for i by (simp add: plain_backend_def)
  have "read_file (object_path demo_root (a_storage_key kept_asset)) (fs_nodes demo_fs)
      = Inl (os_fail ''FileNotFoundError'' ''[Errno 2] No such file or directory''
          (object_path demo_root (a_storage_key kept_asset)))"
    using read_file_object [OF demo_fs_inv sk] by (simp add: local_contents_def demo_fs_def split: option.split)
  then have r: "r = Inr ()"
    using d nf by (auto simp: local_delete_def resolve_server_key [OF sk] sys_def Let_def unlink_def)
  obtain w2 where e: "delete_asset demo_env ?be ''a1'' (?w, demo_fs) = (Inr (), (w2, s1))"
    using k d r by (auto simp: delete_asset_def run local_storage_def put_asset_def modifyM_def)
  have "server_key (a_storage_key a)" if "row_get a_id ''a1'' (assets ?w) = Some a" for a using that k(1) sk by simp
  from deletion_outcome [OF demo_fs_inv this e] k show ?thesis using e by auto
qed

text \<open>
  When the commit of a new asset fails with anything but an integrity error, the upload raises that
  error, persists no row and leaves the object it has just written in the storage.
\<close>

theorem failed_commit_leaves_object:
  assumes "local_inv base s" and "row_get p_id pid (products w) = Some p"
    and "validate_upload (e_settings ev) original ctype content = Inr ()"
    and "storage_provider_of (s_storage_backend (e_settings ev)) = Inr b"
    and "plain_segment pid" and "plain_segment (e_uuid ev (tick w))"
    and "\<not> is_integrity_error e"
  shows "\<exists>w' s'. upload_asset ev (\<lambda>_. Some e) (local_storage (plain_backend base (\<lambda>_. None) n)) pid atype original ctype
      content user (w, s) = (Inl e, (w', s')) \<and> assets w' = assets w
      \<and> local_contents base s' (build_storage_key pid (e_uuid ev (tick w)) (sanitize_filename original)) = Some content"
proof -
  let ?k = "build_storage_key pid (e_uuid ev (tick w)) (sanitize_filename original)"
  have k: "server_key ?k" by (rule generated_key_ok [OF assms(5,6)])
  obtain md s' where st: "local_store (plain_backend base (\<lambda>_. None) n) ?k content (Some ctype) s = (Inr md, s')"
    using local_store_succeeds [OF assms(1) k] by blast
  have "local_contents base s' ?k = Some content" using local_store_result [OF assms(1) k st] by simp
  then show ?thesis using st assms(2-4,7) by (auto simp: upload_asset_def run Let_def local_storage_def)
qed

lemma failed_commit_leaves_object_witness:
  "\<exists>w s. upload_asset demo_env (\<lambda>_. Some (PyExc ''OperationalError'' ''connection lost''))
       (local_storage (plain_backend demo_root (\<lambda>_. None) 4096)) ''p1'' ''image'' ''notes.txt'' ''text/plain'' ''hello''
       ''alice'' (shop_world, demo_fs) = (Inl (PyExc ''OperationalError'' ''connection lost''), (w, s))"
proof -
  have p: "row_get p_id ''p1'' (products shop_world) = Some demo_product"
    by (simp add: shop_world_def demo_product_def)
  have v: "validate_upload (e_settings demo_env) ''notes.txt'' ''text/plain'' ''hello'' = Inr ()" by code_simp
  have b: "storage_provider_of (s_storage_backend (e_settings demo_env)) = Inr SP_LOCAL" by code_simp
  have "\<not> is_integrity_error (PyExc ''OperationalError'' ''connection lost'')" by (simp add: is_integrity_error_def)
  from failed_commit_leaves_object [OF demo_fs_inv p v b demo_segments this, of 4096 "''image''" "''alice''"]
  show ?thesis by blast
qed

end
