(* ===== verification/Ingestion.thy ===== *)
theory Ingestion
  imports Assets LlmService
begin

text \<open>
  \<open>app/rag/extraction.py\<close>, \<open>app/rag/retrieval.py\<close>, \<open>app/services/ingestion_service.py\<close> and
  \<open>app/services/retrieval_service.py\<close>: from the bytes of an asset to embedded chunks, and back to the
  chunks nearest to a query. A text is a list of code points; where it is handed to the database or to
  a provider it is its UTF-8 form. The PDF reader (pypdf) and the distance operator (pgvector) are
  parameters.
\<close>

section \<open>app/rag/extraction.py\<close>

definition PLAIN_TEXT_CONTENT_TYPES :: "string set" where
  "PLAIN_TEXT_CONTENT_TYPES = {''text/plain'', ''text/markdown''}"

definition SUPPORTED_CONTENT_TYPES :: "string set" where
  "SUPPORTED_CONTENT_TYPES = PLAIN_TEXT_CONTENT_TYPES \<union> {''application/pdf''}"

definition extract_text_from_plain :: "bytes \<Rightarrow> exn + points" where
  "extract_text_from_plain content =
     (case decode_utf8 content of
        Inl reason \<Rightarrow> Inl (Extraction (TextDecodingError reason)) | Inr t \<Rightarrow> Inr t)"

text \<open>What the reader library makes of a document: each access may raise with a message.\<close>

record pdf_document =
  pdf_encrypted :: bool
  pdf_decrypt :: "string + int"
  pdf_pages :: "(string + points option) list"

type_synonym pdf_reader = "bytes \<Rightarrow> string + pdf_document"

definition page_texts :: "pdf_document \<Rightarrow> string + points list" where
  "page_texts d = mapE (\<lambda>p. case p of
     Inl msg \<Rightarrow> Inl msg | Inr None \<Rightarrow> Inr [] | Inr (Some t) \<Rightarrow> Inr t) (pdf_pages d)"

fun join_pages :: "points list \<Rightarrow> points" where
  "join_pages [] = []"
| "join_pages [p] = p"
| "join_pages (p # ps) = p @ [10, 10] @ join_pages ps"

definition extract_text_from_pdf :: "pdf_reader \<Rightarrow> bytes \<Rightarrow> exn + points" where
  "extract_text_from_pdf reader content =
     (let failed = (\<lambda>msg. Inl (Extraction (PdfExtractionError msg))) in
      case reader content of
        Inl msg \<Rightarrow> failed msg
      | Inr d \<Rightarrow>
          (case (if pdf_encrypted d then pdf_decrypt d else Inr 1) of
             Inl msg \<Rightarrow> failed msg
           | Inr n \<Rightarrow> if pdf_encrypted d \<and> n = 0 then failed ''password-protected''
                     else (case page_texts d of Inl msg \<Rightarrow> failed msg | Inr ps \<Rightarrow> Inr (join_pages ps))))"

definition extract_text :: "pdf_reader \<Rightarrow> bytes \<Rightarrow> string \<Rightarrow> exn + points" where
  "extract_text reader content content_type =
     (if content_type = ''application/pdf'' then extract_text_from_pdf reader content
      else if content_type \<in> PLAIN_TEXT_CONTENT_TYPES then extract_text_from_plain content
      else Inl (Extraction (UnsupportedContentTypeError content_type)))"

text \<open>\<open>str.isspace\<close>.\<close>

definition unicode_space :: "nat \<Rightarrow> bool" where
  "unicode_space p \<longleftrightarrow> (9 \<le> p \<and> p \<le> 13) \<or> (28 \<le> p \<and> p \<le> 32) \<or> p \<in> {133, 160, 5760, 8232, 8233, 8239, 8287, 12288}
     \<or> (8192 \<le> p \<and> p \<le> 8202)"


section \<open>app/services/ingestion_service.py\<close>

record ingestion_result =
  ir_asset_id :: uuid
  ir_chunk_count :: nat
  ir_provider :: string
  ir_model :: string
  ir_input_tokens :: int

text \<open>\<open>asset.content_type or asset.mime_type\<close>.\<close>

definition asset_content_type :: "asset \<Rightarrow> string" where
  "asset_content_type a = (case a_content_type a of None \<Rightarrow> a_mime_type a
     | Some t \<Rightarrow> if t = [] then a_mime_type a else t)"

definition has_chunks :: "uuid \<Rightarrow> world \<Rightarrow> bool" where
  "has_chunks aid w \<longleftrightarrow> list_ex (\<lambda>c. dc_asset_id c = aid) (chunks w)"

definition check_ingestable :: "uuid \<Rightarrow> asset app" where
  "check_ingestable aid =
     bindM (get_asset aid) (\<lambda>a.
     if asset_content_type a \<notin> SUPPORTED_CONTENT_TYPES
     then raise (Domain (AssetNotIngestableError aid (asset_content_type a)))
     else bindM (getM (has_chunks aid)) (\<lambda>b.
       if b then raise (Domain (AssetAlreadyIngestedError aid)) else ret a))"

definition document_chunk_of :: "uuid \<Rightarrow> embedding_response \<Rightarrow> chunk \<Rightarrow> rat list \<Rightarrow> document_chunk" where
  "document_chunk_of aid response c vec =
     \<lparr>dc_asset_id = aid, dc_index = int (ck_index c), dc_content = utf8_text (ck_content c),
      dc_content_hash = ck_hash c, dc_char_start = int (ck_start c), dc_char_end = int (ck_end c),
      dc_embedding = Some vec, dc_embedding_model = Some (es_model response),
      dc_embedding_provider = Some (es_provider response)\<rparr>"

text \<open>
  \<open>add_all\<close> and the commit: the database may reject the rows, as the unique constraint does when
  another session has ingested the asset meanwhile.
\<close>

definition commit_chunks :: "(nat \<Rightarrow> exn option) \<Rightarrow> uuid \<Rightarrow> document_chunk list \<Rightarrow> unit app" where
  "commit_chunks commit aid rows =
     bindM (readM commit) (\<lambda>r. case r of
         Some e \<Rightarrow> raise (if is_integrity_error e then Domain (AssetAlreadyIngestedError aid) else e)
       | None \<Rightarrow> modifyM (\<lambda>w. w\<lparr>chunks := chunks w @ rows\<rparr>))"

definition embed_chunks :: "env \<Rightarrow> string \<Rightarrow> string option \<Rightarrow> chunk list \<Rightarrow> embedding_response app" where
  "embed_chunks ev model provider cs =
     bindM (readM (e_uuid ev)) (\<lambda>rid.
     gateway_embed ev \<lparr>eq_request_id = rid, eq_model = model, eq_input = map (utf8_text \<circ> ck_content) cs,
       eq_provider = provider, eq_metadata = []\<rparr>)"

text \<open>Everything \<open>ingest_asset\<close> does before its one write: the rows to write and the result to return.\<close>

definition prepare_chunks ::
  "env \<Rightarrow> pdf_reader \<Rightarrow> 's storage \<Rightarrow> uuid \<Rightarrow> string \<Rightarrow> string option \<Rightarrow> int \<Rightarrow> int \<Rightarrow>
     ('s, document_chunk list \<times> ingestion_result) svc" where
  "prepare_chunks ev reader be aid model provider chunk_size chunk_overlap =
     bindM (in_db (check_ingestable aid)) (\<lambda>a.
     bindM (storage_failed ''read'' (in_store (sb_open be (a_storage_key a)))) (\<lambda>content.
     bindM (liftE (case extract_text reader content (asset_content_type a) of
              Inl e \<Rightarrow> Inl (Domain (IngestionExtractionFailedError aid (exn_str e))) | Inr t \<Rightarrow> Inr t)) (\<lambda>t.
     if list_all unicode_space t then raise (Domain (EmptyExtractedTextError aid))
     else
     bindM (liftE (chunk_text t chunk_size chunk_overlap)) (\<lambda>cs.
     bindM (in_db (embed_chunks ev model provider cs)) (\<lambda>response.
     if length (es_embeddings response) \<noteq> length cs
     then raise (Domain (IngestionEmbeddingMismatchError aid (int (length cs)) (int (length (es_embeddings response)))))
     else
       let rows = map2 (document_chunk_of aid response) cs (es_embeddings response) in
       ret (rows, \<lparr>ir_asset_id = aid, ir_chunk_count = length rows, ir_provider = es_provider response,
               ir_model = es_model response, ir_input_tokens = us_input_tokens (es_usage response)\<rparr>))))))"

definition ingest_asset ::
  "env \<Rightarrow> pdf_reader \<Rightarrow> (nat \<Rightarrow> exn option) \<Rightarrow> 's storage \<Rightarrow> uuid \<Rightarrow> string \<Rightarrow> string option \<Rightarrow> int \<Rightarrow> int \<Rightarrow>
     ('s, ingestion_result) svc" where
  "ingest_asset ev reader commit be aid model provider chunk_size chunk_overlap =
     bindM (prepare_chunks ev reader be aid model provider chunk_size chunk_overlap) (\<lambda>(rows, result).
     seqM (in_db (commit_chunks commit aid rows)) (ret result))"


section \<open>app/rag/retrieval.py and app/services/retrieval_service.py\<close>

definition MAX_TOP_K :: int where
  "MAX_TOP_K = 50"

definition cosine_distance_to_score :: "rat \<Rightarrow> rat" where
  "cosine_distance_to_score distance = 1 - distance"

text \<open>A result; the chunk's identity is its asset and index, which the table keeps unique.\<close>

record scored_chunk =
  sc_asset_id :: uuid
  sc_index :: int
  sc_content :: string
  sc_start :: int
  sc_end :: int
  sc_distance :: rat
  sc_score :: rat

text \<open>
  The operator yields no distance for a row without an embedding (SQL NULL, ordered last), and the
  database raises when the dimensions differ: \<open>distance\<close> is a parameter.
\<close>

type_synonym vector_distance = "rat list \<Rightarrow> rat list \<Rightarrow> exn + rat"

definition row_distance :: "vector_distance \<Rightarrow> rat list \<Rightarrow> document_chunk \<Rightarrow> exn + rat option" where
  "row_distance distance query c = (case dc_embedding c of
     None \<Rightarrow> Inr None | Some v \<Rightarrow> (case distance v query of Inl e \<Rightarrow> Inl e | Inr d \<Rightarrow> Inr (Some d)))"

definition candidate :: "string \<Rightarrow> uuid list option \<Rightarrow> world \<Rightarrow> document_chunk \<Rightarrow> bool" where
  "candidate model asset_ids w c \<longleftrightarrow> dc_embedding_model c = Some model
     \<and> (case row_get a_id (dc_asset_id c) (assets w) of
          None \<Rightarrow> False | Some a \<Rightarrow> a_status a = AST_AVAILABLE \<and> a_deleted_at a = None)
     \<and> (case asset_ids of None \<Rightarrow> True | Some ids \<Rightarrow> dc_asset_id c \<in> set ids)"

text \<open>The statement: the candidates' distances, the order, the limit.\<close>

definition distances :: "vector_distance \<Rightarrow> rat list \<Rightarrow> document_chunk list \<Rightarrow> exn + (document_chunk \<times> rat option) list" where
  "distances distance query = mapE (\<lambda>c. case row_distance distance query c of Inl e \<Rightarrow> Inl e | Inr d \<Rightarrow> Inr (c, d))"

definition rank :: "(document_chunk \<times> rat option) list \<Rightarrow> (document_chunk \<times> rat option) list" where
  "rank rows = sort_key (\<lambda>p. the (snd p)) (filter (\<lambda>p. snd p \<noteq> None) rows) @ filter (\<lambda>p. snd p = None) rows"

definition scored :: "document_chunk \<times> rat option \<Rightarrow> exn + scored_chunk" where
  "scored p = (case snd p of
     None \<Rightarrow> Inl (PyExc ''TypeError'' (''float() argument must be a string or a real number, not '' @ repr_str ''NoneType''))
   | Some d \<Rightarrow> Inr \<lparr>sc_asset_id = dc_asset_id (fst p), sc_index = dc_index (fst p), sc_content = dc_content (fst p),
        sc_start = dc_char_start (fst p), sc_end = dc_char_end (fst p), sc_distance = d,
        sc_score = cosine_distance_to_score d\<rparr>)"

definition clamp_top_k :: "int \<Rightarrow> int" where
  "clamp_top_k k = min (max k 1) MAX_TOP_K"

definition search ::
  "env \<Rightarrow> vector_distance \<Rightarrow> points \<Rightarrow> string \<Rightarrow> string option \<Rightarrow> int \<Rightarrow> uuid list option \<Rightarrow> scored_chunk list app" where
  "search ev distance query model provider top_k asset_ids =
     (if list_all unicode_space query then raise (Domain EmptyQueryError)
      else
        bindM (readM (e_uuid ev)) (\<lambda>rid.
        bindM (gateway_embed ev \<lparr>eq_request_id = rid, eq_model = model, eq_input = [utf8_text query],
                 eq_provider = provider, eq_metadata = []\<rparr>) (\<lambda>response.
        case es_embeddings response of
          [] \<Rightarrow> raise (PyExc ''IndexError'' ''tuple index out of range'')
        | vec # _ \<Rightarrow>
            bindM (getM (\<lambda>w. filter (candidate (es_model response) asset_ids w) (chunks w))) (\<lambda>rows.
            bindM (liftE (distances distance vec rows)) (\<lambda>ds.
            liftE (mapE scored (take (nat (clamp_top_k top_k)) (rank ds))))))))"

section \<open>Ingestion is all or nothing\<close>

text \<open>The rows of a complete ingestion: the chunks of one text, in order, each with its embedding.\<close>

definition ingested :: "uuid \<Rightarrow> int \<Rightarrow> int \<Rightarrow> document_chunk list \<Rightarrow> bool" where
  "ingested aid width overlap rows \<longleftrightarrow> (\<exists>t cs. chunk_text t width overlap = Inr cs
     \<and> map dc_content rows = map (utf8_text \<circ> ck_content) cs \<and> map dc_content_hash rows = map ck_hash cs
     \<and> map dc_index rows = map int [0..<length cs] \<and> reassemble (nat (width - overlap)) cs = t \<and> t \<noteq> [])
     \<and> (\<forall>r\<in>set rows. dc_asset_id r = aid \<and> dc_embedding r \<noteq> None)"

lemma document_rows:
  assumes "length es = length cs"
  shows "map dc_content (map2 (document_chunk_of aid rsp) cs es) = map (utf8_text \<circ> ck_content) cs
    \<and> map dc_content_hash (map2 (document_chunk_of aid rsp) cs es) = map ck_hash cs
    \<and> map dc_index (map2 (document_chunk_of aid rsp) cs es) = map (int \<circ> ck_index) cs
    \<and> (\<forall>r\<in>set (map2 (document_chunk_of aid rsp) cs es). dc_asset_id r = aid \<and> dc_embedding r \<noteq> None)"
  using assms by (induction es cs rule: list_induct2) (auto simp: document_chunk_of_def)

lemma chunk_indices: "chunk_text t width overlap = Inr cs \<Longrightarrow> map ck_index cs = [0..<length cs]"
  by (intro nth_equalityI)
    (auto dest!: chunk_text_chunking simp: chunking_of_def chunk_spec_def)

lemma map2_ingested:
  assumes "chunk_text t width overlap = Inr cs" "t \<noteq> []" "length es = length cs"
  shows "ingested aid width overlap (map2 (document_chunk_of aid rsp) cs es)"
proof -
  note d = document_rows [OF assms(3), of aid rsp]
  have "map (int \<circ> ck_index) cs = map int [0..<length cs]"
    unfolding chunk_indices [OF assms(1), symmetric] by simp
  moreover have "reassemble (nat (width - overlap)) cs = t"
    using chunk_loop_reassemble [of 0 t "nat (width - overlap)" "nat width" 0] chunk_text_Inr [OF assms(1)] assms(2)
    by simp
  ultimately show ?thesis unfolding ingested_def using d assms by metis
qed

lemma check_ingestable_run:
  assumes "check_ingestable aid w = (r, w')"
  shows "w' = w \<and> (\<forall>a. r = Inr a \<longrightarrow> row_get a_id aid (assets w) = Some a \<and> \<not> has_chunks aid w)"
  using assms
  by (auto simp: check_ingestable_def get_asset_def bindM_def getM_def raise_def ret_def
      split: option.splits if_splits sum.splits prod.splits)

lemma commit_chunks_run [run]:
  "commit_chunks commit aid rows w = (case commit (tick w) of
       Some e \<Rightarrow> (Inl (if is_integrity_error e then Domain (AssetAlreadyIngestedError aid) else e),
                 w\<lparr>tick := Suc (tick w)\<rparr>)
     | None \<Rightarrow> (Inr (), w\<lparr>tick := Suc (tick w), chunks := chunks w @ rows\<rparr>))"
  by (simp add: commit_chunks_def run modifyM_def split: option.split)

lemma no_tables_embed_chunks:
  "lawful_registry (e_providers ev) \<Longrightarrow> no_tables (embed_chunks ev m p cs)"
  unfolding embed_chunks_def by (intro no_tables_bindM no_tables_gateway_embed no_tables_ret)

lemma same_tables_chunks: "same_tables w w' \<Longrightarrow> chunks w' = chunks w \<and> assets w' = assets w"
  unfolding same_tables_def by (cases w; cases w') simp

lemma same_tables_add_chunks:
  "same_tables w v \<Longrightarrow> v\<lparr>tick := n, chunks := chunks v @ rows\<rparr> = w\<lparr>tick := n, chunks := chunks w @ rows\<rparr>"
  by (cases w; cases v) (simp add: same_tables_def)

lemma prepare_chunks_outcome:
  assumes lawful: "lawful_registry (e_providers ev)"
    and go: "prepare_chunks ev reader be aid m p width overlap (w, s) = (r, (w', s'))"
  shows "same_tables w w' \<and> (case r of
      Inl e \<Rightarrow> True
    | Inr (rows, res) \<Rightarrow> \<not> has_chunks aid w \<and> ingested aid width overlap rows \<and> ir_chunk_count res = length rows)"
proof -
  obtain cr w0 where c: "check_ingestable aid w = (cr, w0)" by (metis prod.exhaust)
  note c' = check_ingestable_run [OF c]
  show ?thesis
  proof (cases cr)
    case (Inl e)
    then show ?thesis using go c c' by (auto simp: prepare_chunks_def run)
  next
    case (Inr a)
    obtain op s1 where o: "sb_open be (a_storage_key a) s = (op, s1)" by (metis prod.exhaust)
    show ?thesis
    proof (cases op)
      case (Inl e)
      then show ?thesis using go c c' o \<open>cr = Inr a\<close> by (auto simp: prepare_chunks_def run)
    next
      case content: (Inr content)
      show ?thesis
      proof (cases "extract_text reader content (asset_content_type a)")
        case (Inl e)
        then show ?thesis using go c c' o \<open>cr = Inr a\<close> content by (auto simp: prepare_chunks_def run)
      next
        case t: (Inr t)
        show ?thesis
        proof (cases "list_all unicode_space t")
          case True
          then show ?thesis using go c c' o \<open>cr = Inr a\<close> content t by (auto simp: prepare_chunks_def run)
        next
          case False
          then have "t \<noteq> []" by auto
          show ?thesis
          proof (cases "chunk_text t width overlap")
            case (Inl e)
            then show ?thesis using go c c' o \<open>cr = Inr a\<close> content t False by (auto simp: prepare_chunks_def run)
          next
            case cs: (Inr cs)
            obtain er w1 where em: "embed_chunks ev m p cs w = (er, w1)" by (metis prod.exhaust)
            have st: "same_tables w w1" by (rule no_tablesD [OF no_tables_embed_chunks [OF lawful] em])
            note pre = go c c' o \<open>cr = Inr a\<close> content t False cs em
            show ?thesis
            proof (cases er)
              case (Inl e)
              then show ?thesis using pre st by (auto simp: prepare_chunks_def run)
            next
              case (Inr rsp)
              show ?thesis
              proof (cases "length (es_embeddings rsp) = length cs")
                case False
                then show ?thesis using pre st Inr by (auto simp: prepare_chunks_def run)
              next
                case True
                note ing = map2_ingested [OF cs \<open>t \<noteq> []\<close> True, of aid rsp]
                moreover have "\<not> has_chunks aid w" using c' \<open>cr = Inr a\<close> by simp
                ultimately show ?thesis using pre st Inr True by (auto simp: prepare_chunks_def run Let_def)
              qed
            qed
          qed
        qed
      qed
    qed
  qed
qed

lemma ingest_asset_outcome:
  assumes lawful: "lawful_registry (e_providers ev)"
    and go: "ingest_asset ev reader commit be aid m p width overlap (w, s) = (r, (w', s'))"
  shows "case r of
      Inl e \<Rightarrow> same_tables w w'
    | Inr res \<Rightarrow> \<not> has_chunks aid w \<and> (\<exists>rows n. w' = w\<lparr>tick := n, chunks := chunks w @ rows\<rparr>
        \<and> ingested aid width overlap rows \<and> ir_chunk_count res = length rows)"
proof -
  obtain pr w1 s1 where pre: "prepare_chunks ev reader be aid m p width overlap (w, s) = (pr, (w1, s1))"
    by (cases "prepare_chunks ev reader be aid m p width overlap (w, s)") auto
  note out = prepare_chunks_outcome [OF lawful pre]
  show ?thesis
  proof (cases pr)
    case (Inl e)
    then show ?thesis using go pre out by (auto simp: ingest_asset_def run)
  next
    case (Inr x)
    obtain rows res where x: "x = (rows, res)" by (cases x)
    have st: "same_tables w w1" using out by simp
    show ?thesis
    proof (cases "commit (tick w1)")
      case (Some e)
      have "\<exists>e'. r = Inl e'" "w' = w1\<lparr>tick := Suc (tick w1)\<rparr>"
        using go pre Inr x Some by (auto simp: ingest_asset_def run)
      then show ?thesis using same_tables_trans [OF st, of w'] by auto
    next
      case None
      have "r = Inr res" "w' = w1\<lparr>tick := Suc (tick w1), chunks := chunks w1 @ rows\<rparr>"
        using go pre Inr x None by (auto simp: ingest_asset_def run)
      then have "r = Inr res" "w' = w\<lparr>tick := Suc (tick w1), chunks := chunks w @ rows\<rparr>"
        by (simp_all only: same_tables_add_chunks [OF st])
      then show ?thesis using out Inr x by auto
    qed
  qed
qed


section \<open>Retrieval returns the nearest chunks\<close>

definition result_of :: "document_chunk \<Rightarrow> rat \<Rightarrow> scored_chunk" where
  "result_of c d = \<lparr>sc_asset_id = dc_asset_id c, sc_index = dc_index c, sc_content = dc_content c,
     sc_start = dc_char_start c, sc_end = dc_char_end c, sc_distance = d, sc_score = 1 - d\<rparr>"

lemma scored_Inr: "scored p = Inr r \<longleftrightarrow> (\<exists>d. snd p = Some d \<and> r = result_of (fst p) d)"
  by (auto simp: scored_def result_of_def cosine_distance_to_score_def split: option.splits)

lemma scored_all:
  assumes "mapE scored ps = Inr rs"
  shows "(\<forall>p\<in>set ps. snd p \<noteq> None) \<and> rs = map (\<lambda>p. result_of (fst p) (the (snd p))) ps"
  using assms [unfolded mapE_Inr_iff] by (induction ps rs rule: list_all2_induct) (auto simp: scored_Inr)

lemma distances_Inr:
  assumes "distances metric q cs = Inr ds"
  shows "map fst ds = cs \<and> (\<forall>p\<in>set ds. row_distance metric q (fst p) = Inr (snd p))"
  using assms [unfolded distances_def mapE_Inr_iff]
  by (induction cs ds rule: list_all2_induct) (auto split: sum.splits)

lemma take_ranked:
  assumes "\<forall>p\<in>set (take k (rank ds)). snd p \<noteq> None"
  shows "take k (rank ds) = take k (sort_key (\<lambda>p. the (snd p)) (filter (\<lambda>p. snd p \<noteq> None) ds))
    \<and> (k \<le> length (filter (\<lambda>p. snd p \<noteq> None) ds) \<or> filter (\<lambda>p. snd p = None) ds = [])"
proof -
  let ?S = "sort_key (\<lambda>p. the (snd p)) (filter (\<lambda>p. snd p \<noteq> None) ds)" and ?N = "filter (\<lambda>p. snd p = None) ds"
  have "take (k - length ?S) ?N = []"
  proof (rule ccontr)
    assume "take (k - length ?S) ?N \<noteq> []"
    then obtain p where "p \<in> set (take (k - length ?S) ?N)" by (meson last_in_set)
    then have "p \<in> set (take k (rank ds))" "snd p = None"
      by (auto simp: rank_def dest: in_set_takeD)
    then show False using assms by blast
  qed
  then show ?thesis by (auto simp: rank_def)
qed

text \<open>The \<open>k\<close> nearest of the candidates: sorted, and none left out is nearer than one returned.\<close>

definition nearest :: "nat \<Rightarrow> (document_chunk \<times> rat option) list \<Rightarrow> scored_chunk list \<Rightarrow> bool" where
  "nearest k ds rs \<longleftrightarrow> length rs = min k (length ds) \<and> sorted (map sc_distance rs)
     \<and> (\<forall>r\<in>set rs. \<exists>c d. (c, Some d) \<in> set ds \<and> r = result_of c d)
     \<and> (\<forall>c d. (c, Some d) \<in> set ds \<longrightarrow> result_of c d \<in> set rs \<or> (\<forall>r\<in>set rs. sc_distance r \<le> d))"

lemma result_distance [simp]: "sc_distance (result_of c d) = d" "sc_score (result_of c d) = 1 - d"
  by (simp_all add: result_of_def)

lemma ranked_nearest:
  assumes "mapE scored (take k (rank ds)) = Inr rs"
  shows "nearest k ds rs"
proof -
  let ?F = "filter (\<lambda>p. snd p \<noteq> None) ds" and ?N = "filter (\<lambda>p. snd p = None) ds"
  let ?S = "sort_key (\<lambda>p. the (snd p)) ?F" and ?g = "\<lambda>p. result_of (fst p) (the (snd p))"
  note t = take_ranked [OF conjunct1 [OF scored_all [OF assms]]]
  have tk: "take k (rank ds) = take k ?S" by (rule conjunct1 [OF t])
  have rs: "rs = map ?g (take k ?S)" using scored_all [OF assms] unfolding tk by (rule conjunct2)
  have len: "length ds = length ?F + length ?N" using sum_length_filter_compl [of "\<lambda>p. snd p \<noteq> None" ds]
    by (simp only: not_not)
  have srt: "sorted (map (\<lambda>p. the (snd p)) ?S)" by simp
  have "length rs = min k (length ds)" using conjunct2 [OF t] len by (auto simp: rs)
  moreover have d: "map sc_distance rs = take k (map (\<lambda>p. the (snd p)) ?S)" by (simp add: rs comp_def take_map)
  then have "sorted (map sc_distance rs)" using sorted_wrt_take [OF srt] by simp
  moreover have "\<exists>c d. (c, Some d) \<in> set ds \<and> r = result_of c d" if r: "r \<in> set rs" for r
  proof -
    obtain p where p: "p \<in> set (take k ?S)" "r = ?g p" using r rs by auto
    then have "p \<in> set ds" "snd p \<noteq> None" by (auto dest: in_set_takeD)
    then have "(fst p, Some (the (snd p))) \<in> set ds" by (simp add: prod.collapse) 
    then show ?thesis using p(2) by blast
  qed
  moreover have "result_of c d \<in> set rs \<or> (\<forall>r\<in>set rs. sc_distance r \<le> d)" if "(c, Some d) \<in> set ds" for c d
  proof -
    have "(c, Some d) \<in> set ?S" using that by simp
    then consider "(c, Some d) \<in> set (take k ?S)" | "(c, Some d) \<in> set (drop k ?S)"
      by (metis Un_iff append_take_drop_id set_append)
    then show ?thesis
    proof cases
      case 1
      then show ?thesis unfolding rs by force
    next
      case 2
      have "sorted (map (\<lambda>p. the (snd p)) (take k ?S) @ map (\<lambda>p. the (snd p)) (drop k ?S))"
        using srt by (metis append_take_drop_id map_append)
      then have "\<forall>p\<in>set (take k ?S). the (snd p) \<le> d" using 2 by (force simp: sorted_append)
      then show ?thesis unfolding rs by auto
    qed
  qed
  ultimately show ?thesis unfolding nearest_def by blast
qed

lemma search_outcome:
  assumes lawful: "lawful_registry (e_providers ev)"
    and go: "search ev metric q m p k ids w = (r, w')"
  shows "same_tables w w' \<and> (\<forall>rs. r = Inr rs \<longrightarrow> (\<exists>model vec ds.
      distances metric vec (filter (candidate model ids w) (chunks w)) = Inr ds
      \<and> nearest (nat (clamp_top_k k)) ds rs))"
proof -
  let ?embed = "bindM (readM (e_uuid ev)) (\<lambda>rid. gateway_embed ev \<lparr>eq_request_id = rid, eq_model = m,
     eq_input = [utf8_text q], eq_provider = p, eq_metadata = []\<rparr>)"
  let ?k = "nat (clamp_top_k k)"
  have nt: "no_tables ?embed" by (intro no_tables_bindM no_tables_gateway_embed [OF lawful] no_tables_ret)
  obtain er w1 where em: "?embed w = (er, w1)" by (cases "?embed w")
  note st = no_tablesD [OF nt em]
  have tabs: "candidate mo ids w1 = candidate mo ids w" "chunks w1 = chunks w" for mo
    using same_tables_chunks [OF st] by (simp_all add: candidate_def fun_eq_iff)
  show ?thesis
  proof (cases "list_all unicode_space q")
    case True
    then show ?thesis using go by (auto simp: search_def run)
  next
    case q: False
    then have s: "search ev metric q m p k ids w = bindM ?embed (\<lambda>response. case es_embeddings response of
          [] \<Rightarrow> raise (PyExc ''IndexError'' ''tuple index out of range'')
        | vec # _ \<Rightarrow>
            bindM (getM (\<lambda>w. filter (candidate (es_model response) ids w) (chunks w))) (\<lambda>rows.
            bindM (liftE (distances metric vec rows)) (\<lambda>ds. liftE (mapE scored (take ?k (rank ds)))))) w"
      by (simp add: search_def bindM_def readM_def split: sum.split)
    show ?thesis
    proof (cases er)
      case (Inl e)
      then have "r = Inl e" "w' = w1" using go s em by (auto simp: run)
      then show ?thesis using st by simp
    next
      case (Inr rsp)
      show ?thesis
      proof (cases "es_embeddings rsp")
        case Nil
        then have "w' = w1" "r = Inl (PyExc ''IndexError'' ''tuple index out of range'')"
          using go s em Inr by (auto simp: run)
        then show ?thesis using st by simp
      next
        case (Cons vec vs)
        let ?rows = "filter (candidate (es_model rsp) ids w) (chunks w)"
        show ?thesis
        proof (cases "distances metric vec ?rows")
          case (Inl e)
          then have "w' = w1" "r = Inl e" using go s em \<open>er = Inr rsp\<close> Cons tabs by (auto simp: run)
          then show ?thesis using st by simp
        next
          case (Inr ds)
          then have "w' = w1" "r = mapE scored (take ?k (rank ds))"
            using go s em \<open>er = Inr rsp\<close> Cons tabs by (auto simp: run liftE_def)
          then show ?thesis using st Inr ranked_nearest by metis
        qed
      qed
    qed
  qed
qed

section \<open>Properties\<close>

definition demo_document :: asset where
  "demo_document = \<lparr>a_id = ''a1'', a_product_id = ''p1'', a_type = ''document'', a_filename = ''notes.txt'',
     a_storage_key = ''products/p1/a1/notes.txt'', a_mime_type = ''text/plain'', a_size_bytes = 5,
     a_checksum = [], a_original_filename = None, a_content_type = Some ''text/plain'', a_etag = None,
     a_storage_backend = SP_LOCAL, a_status = AST_AVAILABLE, a_uploaded_by = None, a_deleted_at = None,
     a_created_at = 0\<rparr>"

definition library_world :: world where
  "library_world = empty_world\<lparr>assets := [demo_document]\<rparr>"

definition library_fs :: filesystem where
  "library_fs = \<lparr>fs_nodes = (\<lambda>p. if p = demo_root @ [''products'', ''p1'', ''a1'', ''notes.txt''] then Some (File ''hello'')
       else None), fs_calls = 0\<rparr>"

definition demo_ingestion :: "(exn + ingestion_result) \<times> world \<times> filesystem" where
  "demo_ingestion = ingest_asset demo_env (\<lambda>_. Inl ''not a PDF'') (\<lambda>_. None) (local_storage demo_backend) ''a1''
     ''m'' (Some ''fake'') 1000 200 (library_world, library_fs)"

text \<open>The demonstration environment's provider answers every embedding request.\<close>

lemma demo_fake: "e_providers demo_env ''fake'' = Some (fake_provider (\<lambda>n. int n * 1000000) default_fake)"
proof -
  have "''fake'' \<in> set (llm_allowed_providers_list default_settings)" by code_simp
  then show ?thesis by (simp add: demo_env_def provider_registry_def build_provider_def)
qed

lemma demo_embeds:
  "\<exists>rsp w'. gateway_embed demo_env \<lparr>eq_request_id = i, eq_model = ''m'', eq_input = ts, eq_provider = Some ''fake'',
       eq_metadata = []\<rparr> w = (Inr rsp, w') \<and> length (es_embeddings rsp) = length ts \<and> es_model rsp = ''m''
     \<and> es_embeddings rsp = map deterministic_embedding ts"
proof -
  have "resolve_provider_name (Some ''fake'') (e_settings demo_env) = Inr ''fake''" by code_simp
  moreover have "resolve_model ''fake'' ''m'' (e_settings demo_env) = Inr ''m''" by code_simp
  moreover have "llm_pricing_map (e_settings demo_env) = Inr []" by code_simp
  then have "estimate_cost_usd (e_settings demo_env) ''fake'' ''m'' a b = Inr None" for a b
    by (simp add: estimate_cost_usd_def)
  ultimately show ?thesis
    by (simp add: gateway_embed_def run get_provider_def demo_fake Let_def fake_provider_def fake_embed_def
        default_fake_def retry_async.simps)
qed

lemma demo_ingested: "\<exists>res w s. demo_ingestion = (Inr res, (w, s))"
proof -
  let ?t = "map of_char ''hello''"
  have c: "check_ingestable ''a1'' library_world = (Inr demo_document, library_world)" by code_simp
  have o: "\<exists>s. sb_open (local_storage demo_backend) ''products/p1/a1/notes.txt'' library_fs = (Inr ''hello'', s)"
    by (simp add: local_storage_def local_open_def demo_backend_def plain_backend_def resolve_key_def
        path_parts_def is_absolute_def is_prefix_def demo_root_def sys_def read_file_def library_fs_def
        ancestors_def is_file_def Let_def)
  have t: "extract_text (\<lambda>_. Inl ''not a PDF'') ''hello'' ''text/plain'' = Inr ?t" by code_simp
  have ne: "\<not> list_all unicode_space ?t" by (simp add: unicode_space_def)
  have "\<exists>cs. chunk_text ?t 1000 200 = Inr cs" by (simp add: chunk_text_def)
  then obtain cs where cs: "chunk_text ?t 1000 200 = Inr cs" by blast
  obtain s1 where s1: "sb_open (local_storage demo_backend) (a_storage_key demo_document) library_fs = (Inr ''hello'', s1)"
    using o by (auto simp: demo_document_def)
  obtain rsp w1 where em: "embed_chunks demo_env ''m'' (Some ''fake'') cs library_world = (Inr rsp, w1)"
      "length (es_embeddings rsp) = length cs"
    using demo_embeds [of "e_uuid demo_env (tick library_world)" "map (utf8_text \<circ> ck_content) cs"
        "library_world\<lparr>tick := Suc (tick library_world)\<rparr>"]
    by (auto simp: embed_chunks_def run)
  have ct: "asset_content_type demo_document = ''text/plain''"
    by (simp add: asset_content_type_def demo_document_def)
  show ?thesis
    unfolding demo_ingestion_def using c s1 t ne cs em ct
    by (simp add: ingest_asset_def prepare_chunks_def run Let_def)
qed

text \<open>
  C7: Ingesting an asset is all or nothing: a call that raises leaves every table as it was; a call that
  returns had found no chunk of the asset and has added exactly the chunks of one text, in order, which
  reassemble to that text, each with an embedding.
\<close>

theorem ingestion_is_atomic:
  assumes "lawful_registry (e_providers ev)"
    and "ingest_asset ev reader commit be aid m p width overlap (w, s) = (r, (w', s'))"
  shows "case r of
      Inl e \<Rightarrow> same_tables w w'
    | Inr res \<Rightarrow> \<not> has_chunks aid w \<and> (\<exists>rows n. w' = w\<lparr>tick := n, chunks := chunks w @ rows\<rparr>
        \<and> ingested aid width overlap rows \<and> ir_chunk_count res = length rows)"
  using assms by (rule ingest_asset_outcome)

lemma ingestion_is_atomic_witness:
  "\<exists>res w s. demo_ingestion = (Inr res, (w, s)) \<and> ingested ''a1'' 1000 200 (chunks w)"
proof -
  obtain res w s where d: "demo_ingestion = (Inr res, (w, s))" using demo_ingested by blast
  have "\<exists>rows n. w = library_world\<lparr>tick := n, chunks := chunks library_world @ rows\<rparr>
      \<and> ingested ''a1'' 1000 200 rows"
    using ingestion_is_atomic [OF demo_env_lawful d [unfolded demo_ingestion_def]] by auto
  then obtain rows where "chunks w = rows" "ingested ''a1'' 1000 200 rows"
    by (auto simp: library_world_def empty_world_def)
  with d show ?thesis by blast
qed


definition demo_chunk :: "nat \<Rightarrow> rat \<Rightarrow> document_chunk" where
  "demo_chunk i x = \<lparr>dc_asset_id = ''a1'', dc_index = int i, dc_content = digits i, dc_content_hash = [],
     dc_char_start = 0, dc_char_end = 1, dc_embedding = Some [x], dc_embedding_model = Some ''m'',
     dc_embedding_provider = Some ''fake''\<rparr>"

definition indexed_world :: world where
  "indexed_world = library_world\<lparr>chunks := [demo_chunk 0 (1/2), demo_chunk 1 (1/4), demo_chunk 2 (3/4)]\<rparr>"

definition demo_search :: "(exn + scored_chunk list) \<times> world" where
  "demo_search = search demo_env (\<lambda>v q. Inr (hd v)) (map of_char ''query'') ''m'' (Some ''fake'') 2 None indexed_world"

lemma demo_searched: "\<exists>rs w. demo_search = (Inr rs, w) \<and> map sc_index rs = [1, 0]"
proof -
  obtain rsp w1 where em: "gateway_embed demo_env \<lparr>eq_request_id = e_uuid demo_env (tick indexed_world), eq_model = ''m'',
      eq_input = [utf8_text (map of_char ''query'')], eq_provider = Some ''fake'', eq_metadata = []\<rparr>
      (indexed_world\<lparr>tick := Suc (tick indexed_world)\<rparr>) = (Inr rsp, w1)"
    and rsp: "length (es_embeddings rsp) = 1" "es_model rsp = ''m''"
    using demo_embeds [of _ "[utf8_text (map of_char ''query'')]"] by force
  have "same_tables (indexed_world\<lparr>tick := Suc (tick indexed_world)\<rparr>) w1"
    by (rule no_tablesD [OF no_tables_gateway_embed [OF demo_env_lawful] em])
  then have w1: "chunks w1 = chunks indexed_world" "assets w1 = assets indexed_world"
    using same_tables_chunks by fastforce+
  obtain vec where v: "es_embeddings rsp = [vec]" using rsp(1) by (cases "es_embeddings rsp") auto
  have ne: "\<not> list_all unicode_space (map of_char ''query'')" by (simp add: unicode_space_def)
  have rows: "filter (candidate ''m'' None w1) (chunks w1)
      = [demo_chunk 0 (1/2), demo_chunk 1 (1/4), demo_chunk 2 (3/4)]"
    by (simp add: w1 candidate_def indexed_world_def library_world_def demo_document_def demo_chunk_def)
  let ?rows = "[demo_chunk 0 (1/2), demo_chunk 1 (1/4), demo_chunk 2 (3/4)]"
  let ?ds = "[(demo_chunk 0 (1/2), Some (1/2)), (demo_chunk 1 (1/4), Some (1/4)), (demo_chunk 2 (3/4), Some (3/4 :: rat))]"
  have ds: "distances (\<lambda>v q. Inr (hd v)) vec ?rows = Inr ?ds"
    by (simp add: distances_def row_distance_def demo_chunk_def)
  have rk: "take 2 (rank ?ds) = [(demo_chunk 1 (1/4), Some (1/4)), (demo_chunk 0 (1/2), Some (1/2))]"
    by (simp add: rank_def numeral_2_eq_2 del: not_None_eq)
  have k: "nat (clamp_top_k 2) = 2" by (simp add: clamp_top_k_def MAX_TOP_K_def)
  have sc: "\<exists>rs. mapE scored [(demo_chunk 1 (1/4), Some (1/4)), (demo_chunk 0 (1/2), Some (1/2 :: rat))] = Inr rs
      \<and> map sc_index rs = [1, 0]"
    by (simp add: scored_def demo_chunk_def)
  show ?thesis
    unfolding demo_search_def search_def using em v rsp(2) ne rows ds rk k sc
    by (simp add: run liftE_def)
qed


text \<open>
  Text extraction is UTF-8 decoding: every text of Unicode scalar values is recovered from its
  encoding, and a successful extraction encodes back to exactly the bytes it was given.
\<close>

theorem plain_text_round_trip:
  "(list_all scalar t \<longrightarrow> extract_text_from_plain (utf8_text t) = Inr t)
   \<and> (extract_text_from_plain content = Inr u \<longrightarrow> list_all scalar u \<and> utf8_text u = content)"
proof
  show "list_all scalar t \<longrightarrow> extract_text_from_plain (utf8_text t) = Inr t"
    by (simp add: extract_text_from_plain_def utf8_roundtrip)
  show "extract_text_from_plain content = Inr u \<longrightarrow> list_all scalar u \<and> utf8_text u = content"
  proof
    assume "extract_text_from_plain content = Inr u"
    then have "decode_from 0 (map of_char content) = Inr u"
      by (simp add: extract_text_from_plain_def decode_utf8_def split: sum.splits)
    then have "list_all scalar u \<and> encode_utf8 u = map of_char content"
      by (rule decode_from_encode) auto
    then show "list_all scalar u \<and> utf8_text u = content" by (simp add: utf8_text_def comp_def)
  qed
qed

lemma plain_text_round_trip_witness:
  "extract_text_from_plain (utf8_text [233, 8364, 128512]) = Inr [233, 8364, 128512]"
  using plain_text_round_trip [of "[233, 8364, 128512]"] by (simp add: scalar_def)

end
