(* ===== verification/JobService.thy ===== *)
theory JobService
  imports QueueSystem WorkflowExecutor Ingestion
begin

text \<open>
  \<open>app/jobs/service.py\<close>: enqueueing agent runs, workflow runs and asset ingestions together with
  their job in one transaction, looking jobs up, and cancelling a run through its job. The rows a
  request has only flushed are dropped when its session closes without a commit; whether the commit
  succeeds is read from an oracle.
\<close>

section \<open>Enqueueing\<close>

definition AGENT_RUN_JOB_TYPE :: string where
  "AGENT_RUN_JOB_TYPE = ''agent_run''"

definition WORKFLOW_RUN_JOB_TYPE :: string where
  "WORKFLOW_RUN_JOB_TYPE = ''workflow_run''"

definition ASSET_INGESTION_JOB_TYPE :: string where
  "ASSET_INGESTION_JOB_TYPE = ''asset_ingestion''"

lemmas job_types = AGENT_RUN_JOB_TYPE_def WORKFLOW_RUN_JOB_TYPE_def ASSET_INGESTION_JOB_TYPE_def

definition get_job :: "uuid \<Rightarrow> job app" where
  "get_job jid = bindM (getM (\<lambda>w. row_get j_id jid (jobs w))) (\<lambda>r. case r of
       None \<Rightarrow> raise (JobExn (JobNotFoundError jid)) | Some j \<Rightarrow> ret j)"

definition new_job :: "uuid \<Rightarrow> string \<Rightarrow> uuid \<Rightarrow> jdict \<Rightarrow> int \<Rightarrow> time \<Rightarrow> job" where
  "new_job jid jtype target inp max_attempts now =
     \<lparr>j_id = jid, j_type = jtype, j_status = JS_QUEUED, j_target = Some target, j_input = inp,
      j_error_code = None, j_error_message = None, j_attempt_count = 0, j_max_attempts = max_attempts,
      j_next_attempt_at = None, j_lease_expires_at = None, j_heartbeat_at = None, j_worker_id = None,
      j_cancel_requested_at = None, j_started_at = None, j_completed_at = None, j_created_at = now\<rparr>"

definition run_input :: "string \<Rightarrow> jdict option \<Rightarrow> jdict" where
  "run_input user_input context =
     [(''user_input'', JStr user_input),
      (''context'', case context of None \<Rightarrow> JNull | Some d \<Rightarrow> JObj d)]"

definition ingestion_input :: "string \<Rightarrow> string option \<Rightarrow> int \<Rightarrow> int \<Rightarrow> jdict" where
  "ingestion_input model provider chunk_size chunk_overlap =
     [(''embedding_model'', JStr model),
      (''embedding_provider'', case provider of None \<Rightarrow> JNull | Some p \<Rightarrow> JStr p),
      (''chunk_size'', JInt chunk_size), (''chunk_overlap'', JInt chunk_overlap)]"

text \<open>What a session leaves behind when it ends without a commit: the tables as they were.\<close>

definition rolled_back :: "world \<Rightarrow> world \<Rightarrow> world" where
  "rolled_back w w' = w\<lparr>tick := tick w'\<rparr>"

definition in_transaction :: "(nat \<Rightarrow> exn option) \<Rightarrow> 'a app \<Rightarrow> 'a app" where
  "in_transaction commit m w =
     (case m w of
        (Inl e, w') \<Rightarrow> (Inl e, rolled_back w w')
      | (Inr x, w') \<Rightarrow>
          (case commit (tick w') of
             None \<Rightarrow> (Inr x, w'\<lparr>tick := Suc (tick w')\<rparr>)
           | Some e \<Rightarrow> (Inl e, (rolled_back w w')\<lparr>tick := Suc (tick w')\<rparr>)))"

text \<open>Adding the job of a run that the transaction has created.\<close>

definition add_job :: "env \<Rightarrow> string \<Rightarrow> uuid \<Rightarrow> jdict \<Rightarrow> int \<Rightarrow> job app" where
  "add_job ev jtype target inp max_attempts =
     bindM (readM (e_uuid ev)) (\<lambda>jid. bindM (readM (e_now ev)) (\<lambda>now.
     let j = new_job jid jtype target inp max_attempts now in seqM (put_job j) (ret j)))"

definition enqueue_agent_run ::
  "env \<Rightarrow> (nat \<Rightarrow> exn option) \<Rightarrow> uuid \<Rightarrow> uuid \<Rightarrow> string \<Rightarrow> jdict option \<Rightarrow> int \<Rightarrow> (agent_run \<times> job) app" where
  "enqueue_agent_run ev commit aid user user_input context max_attempts =
     in_transaction commit
       (bindM (create_run ev aid user) (\<lambda>run.
        bindM (add_job ev AGENT_RUN_JOB_TYPE (ar_id run) (run_input user_input context) max_attempts) (\<lambda>j.
        ret (run, j))))"

definition enqueue_workflow_run ::
  "env \<Rightarrow> (nat \<Rightarrow> exn option) \<Rightarrow> uuid \<Rightarrow> uuid \<Rightarrow> string \<Rightarrow> jdict option \<Rightarrow> int \<Rightarrow> (workflow_run \<times> job) app" where
  "enqueue_workflow_run ev commit wid user user_input context max_attempts =
     in_transaction commit
       (bindM (create_workflow_run ev wid user) (\<lambda>run.
        bindM (add_job ev WORKFLOW_RUN_JOB_TYPE (wr_id run) (run_input user_input context) max_attempts) (\<lambda>j.
        ret (run, j))))"

text \<open>
  The partial unique index \<open>uq_jobs_active_asset_ingestion\<close>: at most one ingestion job of an asset
  that is not in a terminal state. A commit that would break it raises \<open>IntegrityError\<close>.
\<close>

definition active_ingestion :: "uuid \<Rightarrow> job \<Rightarrow> bool" where
  "active_ingestion aid j \<longleftrightarrow> j_type j = ASSET_INGESTION_JOB_TYPE \<and> j_target j = Some aid
     \<and> j_status j \<in> {JS_QUEUED, JS_RUNNING, JS_RETRYING}"

definition integrity_error :: exn where
  "integrity_error = PyExc ''IntegrityError'' ''duplicate key value violates unique constraint''"

definition commit_ingestion_job :: "(nat \<Rightarrow> exn option) \<Rightarrow> uuid \<Rightarrow> job \<Rightarrow> unit app" where
  "commit_ingestion_job commit aid j =
     bindM (getM (\<lambda>w. list_ex (active_ingestion aid) (jobs w))) (\<lambda>taken.
     bindM (readM commit) (\<lambda>r.
     case (if taken then Some integrity_error else r) of
       Some e \<Rightarrow> raise (if is_integrity_error e then Domain (AssetIngestionAlreadyQueuedError aid) else e)
     | None \<Rightarrow> put_job j))"

definition enqueue_asset_ingestion ::
  "env \<Rightarrow> (nat \<Rightarrow> exn option) \<Rightarrow> uuid \<Rightarrow> string \<Rightarrow> string option \<Rightarrow> int \<Rightarrow> int \<Rightarrow> int \<Rightarrow> job app" where
  "enqueue_asset_ingestion ev commit aid model provider chunk_size chunk_overlap max_attempts =
     bindM (check_ingestable aid) (\<lambda>_.
     bindM (readM (e_uuid ev)) (\<lambda>jid. bindM (readM (e_now ev)) (\<lambda>now.
     let j = new_job jid ASSET_INGESTION_JOB_TYPE aid (ingestion_input model provider chunk_size chunk_overlap)
               max_attempts now in
     seqM (commit_ingestion_job commit aid j) (ret j))))"

definition get_latest_asset_ingestion_job :: "uuid \<Rightarrow> job option app" where
  "get_latest_asset_ingestion_job aid =
     getM (\<lambda>w. first_row (order_by (\<lambda>j. - j_created_at j)
       (filter (\<lambda>j. j_type j = ASSET_INGESTION_JOB_TYPE \<and> j_target j = Some aid) (jobs w))))"


section \<open>Cancelling a run through its job\<close>

definition job_of_run :: "string \<Rightarrow> uuid \<Rightarrow> job \<Rightarrow> bool" where
  "job_of_run jtype rid j \<longleftrightarrow> j_type j = jtype \<and> j_target j = Some rid"

text \<open>\<open>scalar_one_or_none\<close> raises when the query finds several rows.\<close>

definition get_job_for_run :: "string \<Rightarrow> uuid \<Rightarrow> job option app" where
  "get_job_for_run jtype rid =
     bindM (getM (\<lambda>w. filter (job_of_run jtype rid) (jobs w))) (\<lambda>rows. case rows of
         [] \<Rightarrow> ret None
       | j # others \<Rightarrow> if others = [] then ret (Some j)
                    else raise (PyExc ''MultipleResultsFound''
                      ''Multiple rows were found when one or none was required''))"

definition cancel_job_row :: "env \<Rightarrow> job \<Rightarrow> unit app" where
  "cancel_job_row ev j = bindM (readM (e_now ev)) (\<lambda>now. bindM (liftE (cancel_queued_job now j)) put_job)"

definition cancel_agent_run :: "env \<Rightarrow> uuid \<Rightarrow> user \<Rightarrow> agent_run app" where
  "cancel_agent_run ev rid current =
     bindM (get_run rid current) (\<lambda>_.
     bindM (get_job_for_run AGENT_RUN_JOB_TYPE rid) (\<lambda>found. case found of
         None \<Rightarrow> cancel_run ev rid current
       | Some j \<Rightarrow>
           if j_status j \<in> {JS_QUEUED, JS_RETRYING}
           then seqM (cancel_job_row ev j) (cancel_run ev rid current)
           else if j_status j = JS_RUNNING then raise (JobExn (JobAlreadyRunningError (j_id j)))
           else cancel_run ev rid current))"

definition cancel_workflow_job :: "env \<Rightarrow> uuid \<Rightarrow> user \<Rightarrow> workflow_run app" where
  "cancel_workflow_job ev rid current =
     bindM (get_workflow_run rid current) (\<lambda>_.
     bindM (get_job_for_run WORKFLOW_RUN_JOB_TYPE rid) (\<lambda>found. case found of
         None \<Rightarrow> cancel_workflow_run ev rid current
       | Some j \<Rightarrow>
           if j_status j \<in> {JS_QUEUED, JS_RETRYING}
           then seqM (cancel_job_row ev j) (cancel_workflow_run ev rid current)
           else if j_status j = JS_RUNNING then
             seqM (case j_cancel_requested_at j of
                     None \<Rightarrow> bindM (readM (e_now ev)) (\<lambda>now. put_job (j\<lparr>j_cancel_requested_at := Some now\<rparr>))
                   | Some _ \<Rightarrow> ret ())
               (get_workflow_run rid current)
           else cancel_workflow_run ev rid current))"

section \<open>Enqueueing is all or nothing\<close>

lemma in_transaction_fails:
  "in_transaction commit m w = (Inl e, w') \<Longrightarrow> same_tables w w'"
  by (auto simp: in_transaction_def rolled_back_def same_tables_def split: prod.splits sum.splits option.splits)

lemma in_transaction_commits:
  "in_transaction commit m w = (Inr x, w') \<Longrightarrow> \<exists>w1. m w = (Inr x, w1) \<and> w' = w1\<lparr>tick := Suc (tick w1)\<rparr>"
  by (auto simp: in_transaction_def split: prod.splits sum.splits option.splits)

lemma new_job_fields [simp]:
  "j_id (new_job i ty k d n now) = i" "j_type (new_job i ty k d n now) = ty"
  "j_status (new_job i ty k d n now) = JS_QUEUED" "j_target (new_job i ty k d n now) = Some k"
  "j_input (new_job i ty k d n now) = d" "j_max_attempts (new_job i ty k d n now) = n"
  "j_attempt_count (new_job i ty k d n now) = 0" "j_next_attempt_at (new_job i ty k d n now) = None"
  "fresh_job (new_job i ty k d n now) \<longleftrightarrow> 0 < n"
  by (auto simp: new_job_def fresh_job_def)

lemma add_job_run [run]:
  "add_job ev ty k d n w =
     (let j = new_job (e_uuid ev (tick w)) ty k d n (e_now ev (Suc (tick w))) in
      (Inr j, w\<lparr>jobs := row_put j_id j (jobs w), tick := Suc (Suc (tick w))\<rparr>))"
  by (simp add: add_job_def run Let_def)

text \<open>A job of the given kind has been queued for the target with the given input.\<close>

definition queued_for :: "string \<Rightarrow> uuid \<Rightarrow> jdict \<Rightarrow> int \<Rightarrow> job \<Rightarrow> bool" where
  "queued_for ty k d n j \<longleftrightarrow> j_type j = ty \<and> j_target j = Some k \<and> j_input j = d \<and> j_status j = JS_QUEUED
     \<and> j_attempt_count j = 0 \<and> j_max_attempts j = n \<and> j_next_attempt_at j = None"

lemma create_run_returns:
  "create_run ev aid u w = (Inr x, w') \<Longrightarrow>
     x = new_agent_run (e_uuid ev (tick w)) aid u (e_now ev (Suc (tick w)))
     \<and> w' = w\<lparr>agent_runs := row_put ar_id x (agent_runs w), tick := Suc (Suc (tick w))\<rparr>
     \<and> (\<exists>ag. row_get ag_id aid (agents w) = Some ag \<and> ag_status ag = AS_ACTIVE)"
proof -
  assume a: "create_run ev aid u w = (Inr x, w')"
  obtain g w1 where g: "get_active_agent aid w = (g, w1)" by (cases "get_active_agent aid w")
  then show ?thesis using a get_active_agent_cases [OF g]
    by (cases g) (auto simp: create_run_def run Let_def)
qed

lemma new_agent_run_fields [simp]:
  "ar_id (new_agent_run i a u n) = i" "ar_agent_id (new_agent_run i a u n) = a"
  "ar_created_by (new_agent_run i a u n) = Some u" "ar_status (new_agent_run i a u n) = AR_QUEUED"
  by (simp_all add: new_agent_run_def)

lemma enqueue_agent_run_outcome:
  assumes "enqueue_agent_run ev commit aid user inp ctx n w = (r, w')"
    and "e_uuid ev (tick w) \<notin> ar_id ` set (agent_runs w)" and "e_uuid ev (Suc (Suc (tick w))) \<notin> j_id ` set (jobs w)"
  shows "case r of
      Inl e \<Rightarrow> same_tables w w'
    | Inr (x, j) \<Rightarrow> w' = w\<lparr>agent_runs := agent_runs w @ [x], jobs := jobs w @ [j], tick := tick w'\<rparr>
        \<and> ar_agent_id x = aid \<and> ar_created_by x = Some user \<and> ar_status x = AR_QUEUED
        \<and> queued_for AGENT_RUN_JOB_TYPE (ar_id x) (run_input inp ctx) n j"
proof (cases r)
  case (Inl e)
  then show ?thesis using assms(1) in_transaction_fails by (auto simp: enqueue_agent_run_def)
next
  case (Inr y)
  obtain x j where y: "y = (x, j)" by (cases y)
  obtain w1 where m: "bindM (create_run ev aid user) (\<lambda>x.
        bindM (add_job ev AGENT_RUN_JOB_TYPE (ar_id x) (run_input inp ctx) n) (\<lambda>j. ret (x, j))) w = (Inr (x, j), w1)"
    and w': "w' = w1\<lparr>tick := Suc (tick w1)\<rparr>"
    using in_transaction_commits [OF assms(1) [unfolded enqueue_agent_run_def Inr y]] by blast
  obtain c w0 where c: "create_run ev aid user w = (c, w0)" by (cases "create_run ev aid user w")
  then obtain x0 where c': "create_run ev aid user w = (Inr x0, w0)" using m by (cases c) (auto simp: run)
  note cr = create_run_returns [OF c']
  have "x = x0 \<and> j = new_job (e_uuid ev (Suc (Suc (tick w)))) AGENT_RUN_JOB_TYPE (ar_id x0) (run_input inp ctx) n
      (e_now ev (Suc (Suc (Suc (tick w))))) \<and> w1 = w0\<lparr>jobs := row_put j_id j (jobs w0), tick := Suc (Suc (tick w0))\<rparr>"
    using m c' cr by (auto simp: run Let_def)
  then show ?thesis using cr assms(2,3) w' by (auto simp: Inr y queued_for_def row_put_fresh)
qed

lemma add_step_runs_frame:
  "add_step_runs ev rid ss w = (r, w') \<Longrightarrow> jobs w' = jobs w \<and> tick w \<le> tick w'"
proof (induction ss arbitrary: w)
  case (Cons s ss)
  then show ?case by (fastforce simp: run)
qed (simp add: run)

lemma get_active_workflow_reads: "get_active_workflow wid w = (x, w') \<Longrightarrow> w' = w"
  by (auto simp: get_active_workflow_def run split: option.splits if_splits)

lemma create_workflow_run_frame:
  "create_workflow_run ev wid user w = (r, w') \<Longrightarrow> jobs w' = jobs w \<and> tick w \<le> tick w'"
  by (auto simp: create_workflow_run_def bindM_def seqM_def readM_def liftE_def put_workflow_run_def modifyM_def
      ret_def Let_def split: prod.splits sum.splits
      dest!: get_active_workflow_reads check_agents_reads add_step_runs_frame)

lemma enqueue_workflow_run_outcome:
  assumes "enqueue_workflow_run ev commit wid user inp ctx n w = (r, w')"
    and "fresh_uuids ev w w'" and "distinct (map sr_id (step_runs w))"
    and "\<forall>k\<in>{tick w..<tick w'}. e_uuid ev k \<notin> j_id ` set (jobs w)"
  shows "case r of
      Inl e \<Rightarrow> same_tables w w'
    | Inr (x, j) \<Rightarrow> created wid user x w w' \<and> jobs w' = jobs w @ [j]
        \<and> queued_for WORKFLOW_RUN_JOB_TYPE (wr_id x) (run_input inp ctx) n j"
proof (cases r)
  case (Inl e)
  then show ?thesis using assms(1) in_transaction_fails by (auto simp: enqueue_workflow_run_def)
next
  case (Inr y)
  obtain x j where y: "y = (x, j)" by (cases y)
  obtain w1 where m: "bindM (create_workflow_run ev wid user) (\<lambda>x.
        bindM (add_job ev WORKFLOW_RUN_JOB_TYPE (wr_id x) (run_input inp ctx) n) (\<lambda>j. ret (x, j))) w = (Inr (x, j), w1)"
    and w': "w' = w1\<lparr>tick := Suc (tick w1)\<rparr>"
    using in_transaction_commits [OF assms(1) [unfolded enqueue_workflow_run_def Inr y]] by blast
  obtain c w0 where c: "create_workflow_run ev wid user w = (c, w0)" by (cases "create_workflow_run ev wid user w")
  then obtain x0 where c': "create_workflow_run ev wid user w = (Inr x0, w0)" using m by (cases c) (auto simp: run)
  have e: "x = x0 \<and> j = new_job (e_uuid ev (tick w0)) WORKFLOW_RUN_JOB_TYPE (wr_id x0) (run_input inp ctx) n
      (e_now ev (Suc (tick w0))) \<and> w1 = w0\<lparr>jobs := row_put j_id j (jobs w0), tick := Suc (Suc (tick w0))\<rparr>"
    using m c' by (auto simp: run Let_def)
  have t: "tick w' = Suc (Suc (Suc (tick w0)))" using e w' by simp
  have le: "tick w \<le> tick w0" using create_workflow_run_frame [OF c'] by simp
  have "fresh_uuids ev w w0"
    using assms(2) t le by (auto simp: fresh_uuids_def Let_def)
  then have cr: "created wid user x0 w w0" using create_workflow_run_outcome [OF c' _ assms(3)] by simp
  have "jobs w0 = jobs w" using create_workflow_run_frame [OF c'] by simp
  moreover have "j_id j \<notin> j_id ` set (jobs w)" using assms(4) e t le by auto
  moreover have "created wid user x w w'"
    using cr e w' by (auto simp: created_def startable_def steps_of_def steps_in_def)
  ultimately show ?thesis using e w' by (auto simp: Inr y queued_for_def row_put_fresh)
qed

section \<open>One active ingestion per asset\<close>

definition active_count :: "uuid \<Rightarrow> job list \<Rightarrow> nat" where
  "active_count aid t = length (filter (active_ingestion aid) t)"

text \<open>The operations on the jobs table, a worker finishing a job being timely: its row is still RUNNING.\<close>

inductive jobs_step :: "job list \<Rightarrow> job list \<Rightarrow> bool" where
  ingestion_enqueued: "enqueue_asset_ingestion ev commit aid m p width overlap n w = (r, w') \<Longrightarrow>
    jobs_step (jobs w) (jobs w')"
| run_enqueued: "fresh_job j \<Longrightarrow> j_id j \<notin> j_id ` set t \<Longrightarrow> j_type j \<noteq> ASSET_INGESTION_JOB_TYPE \<Longrightarrow>
    jobs_step t (t @ [j])"
| job_claimed: "claim_next_job locked now wk lease t = Inr (x, t') \<Longrightarrow> jobs_step t t'"
| lease_renewed: "row_get j_id k t = Some r \<Longrightarrow> jobs_step t (row_put j_id (renew_lease now lease r) t)"
| job_ended: "row_get j_id (j_id j) t = Some r \<Longrightarrow> j_status r = JS_RUNNING \<Longrightarrow> j_status j = JS_RUNNING \<Longrightarrow>
    worker_outcome now base j j' \<Longrightarrow> jobs_step t (row_put j_id (flush_changed j j' r) t)"
| job_cancelled: "row_get j_id k t = Some r \<Longrightarrow> cancel_queued_job now r = Inr r' \<Longrightarrow>
    jobs_step t (row_put j_id r' t)"
| jobs_recovered: "jobs_step t (snd (recover_stale_jobs locked now base t))"

lemma count_row_put:
  assumes "row_get key (key r) t = Some old" and "P r \<Longrightarrow> P old"
  shows "length (filter P (row_put key r t)) \<le> length (filter P t)"
  using assms(1)
proof (induction t)
  case (Cons x xs)
  then show ?case using assms(2) by (cases "key x = key r") auto
qed simp

lemma count_update_where:
  assumes "\<And>r. p r \<Longrightarrow> P (f r) \<Longrightarrow> P r"
  shows "length (filter P (update_where p f t)) \<le> length (filter P t)"
  using assms by (induction t) (auto simp: update_where_def)

lemma count_row_put_any: "length (filter P (row_put key r t)) \<le> Suc (length (filter P t))"
  by (induction t) auto

lemma count_row_put_other: "\<not> P r \<Longrightarrow> length (filter P (row_put key r t)) \<le> length (filter P t)"
  by (induction t) auto

lemma active_renewed [simp]:
  "active_ingestion aid (renew_lease now lease r) \<longleftrightarrow> active_ingestion aid r"
  by (auto simp: active_ingestion_def renew_lease_def)

lemma active_claimed: "j_status r \<in> {JS_QUEUED, JS_RETRYING} \<Longrightarrow>
    active_ingestion aid (claimed now wk lease r) \<Longrightarrow> active_ingestion aid r"
  by (auto simp: active_ingestion_def)

lemma active_reclaimed: "stale locked now r \<Longrightarrow> active_ingestion aid (reclaimed now b r) \<Longrightarrow> active_ingestion aid r"
  by (auto simp: active_ingestion_def stale_def reclaimed_def Let_def split: if_splits)

lemma flush_changed_kind [simp]:
  "j_id (flush_changed old new row) = j_id row" "j_type (flush_changed old new row) = j_type row"
  "j_target (flush_changed old new row) = j_target row"
  by (simp_all add: flush_changed_def)

lemma enqueue_ingestion_jobs:
  assumes "enqueue_asset_ingestion ev commit aid m p width overlap n w = (r, w')"
  shows "case r of
      Inl e \<Rightarrow> same_tables w w'
    | Inr j \<Rightarrow> active_count aid (jobs w) = 0 \<and> active_ingestion aid j
        \<and> queued_for ASSET_INGESTION_JOB_TYPE aid (ingestion_input m p width overlap) n j
        \<and> w' = w\<lparr>jobs := row_put j_id j (jobs w), tick := tick w'\<rparr>"
proof -
  obtain c w0 where c: "check_ingestable aid w = (c, w0)" by (cases "check_ingestable aid w")
  have w0: "w0 = w" using check_ingestable_run [OF c] by simp
  show ?thesis
  proof (cases c)
    case (Inl e)
    then show ?thesis using assms c w0 by (auto simp: enqueue_asset_ingestion_def run)
  next
    case (Inr a)
    then show ?thesis using assms c w0
      by (auto simp: enqueue_asset_ingestion_def commit_ingestion_job_def run Let_def same_tables_def put_job_def
          modifyM_def active_count_def list_ex_iff filter_empty_conv active_ingestion_def queued_for_def
          bindM_def seqM_def ret_def raise_def getM_def readM_def
          split: if_splits option.splits)
  qed
qed

lemma distinct_update_where:
  "(\<And>r. key (f r) = key r) \<Longrightarrow> distinct (map key t) \<Longrightarrow> distinct (map key (update_where p f t))"
  by (simp add: map_key_update_where)

lemma jobs_step_distinct: "jobs_step t t' \<Longrightarrow> distinct (map j_id t) \<Longrightarrow> distinct (map j_id t')"
proof (induction rule: jobs_step.induct)
  case (ingestion_enqueued ev commit k m p width overlap n w r w')
  note out = enqueue_ingestion_jobs [OF ingestion_enqueued(1)]
  then have "jobs w' = jobs w \<or> (\<exists>j. jobs w' = row_put j_id j (jobs w))"
    by (cases r; cases w; cases w') (auto simp: same_tables_def)
  then show ?case using ingestion_enqueued(2) by (auto intro: distinct_row_put)
next
  case (job_claimed locked now wk lease t x t')
  then show ?case
    by (auto simp: claim_next_job_cases intro!: distinct_row_put split: option.splits)
qed (auto simp: recover_stale_jobs_def intro: distinct_row_put distinct_update_where)

lemma jobs_step_count:
  assumes "jobs_step t t'" and "distinct (map j_id t)" and "\<forall>aid. active_count aid t \<le> 1"
  shows "active_count aid t' \<le> 1"
  using assms
proof (induction rule: jobs_step.induct)
  case (ingestion_enqueued ev commit k m p width overlap n w r w')
  note out = enqueue_ingestion_jobs [OF ingestion_enqueued(1)]
  show ?case
  proof (cases r)
    case (Inl e)
    then have "jobs w' = jobs w" using out by (cases w; cases w') (simp add: same_tables_def)
    then show ?thesis using ingestion_enqueued(3) by simp
  next
    case (Inr j)
    then have j: "active_count k (jobs w) = 0" "active_ingestion k j" "jobs w' = row_put j_id j (jobs w)"
      using out by (simp, simp) (cases w; cases w'; use out Inr in simp)
    show ?thesis
    proof (cases "aid = k")
      case True
      then show ?thesis using j count_row_put_any [of "active_ingestion k" j_id j "jobs w"]
        by (simp add: active_count_def)
    next
      case False
      then have "\<not> active_ingestion aid j" using j(2) by (auto simp: active_ingestion_def)
      from count_row_put_other [of "active_ingestion aid", OF this] show ?thesis
        using j(3) ingestion_enqueued(3) unfolding active_count_def by (metis le_trans)
    qed
  qed
next
  case (run_enqueued j t)
  then show ?case by (simp add: active_count_def active_ingestion_def)
next
  case (job_claimed locked now wk lease t x t')
  show ?case
  proof (cases x)
    case None
    then show ?thesis using job_claimed by (simp add: claim_next_job_None)
  next
    case (Some j')
    obtain j where j: "j \<in> set t" "eligible locked now j" "j' = claimed now wk lease j" "t' = row_put j_id j' t"
      using job_claimed(1) Some by (auto elim!: claim_next_job_SomeD)
    have g: "row_get j_id (j_id (claimed now wk lease j)) t = Some j"
      using row_get_mem [OF job_claimed(2) j(1)] by simp
    have "active_ingestion aid (claimed now wk lease j) \<Longrightarrow> active_ingestion aid j"
      using active_claimed [of j aid] j(2) by (auto simp: eligible_def)
    from count_row_put [of j_id, OF g, of "active_ingestion aid", OF this] show ?thesis
      using j(3,4) job_claimed(3) unfolding active_count_def by (metis le_trans)
  qed
next
  case (lease_renewed k t r now lease)
  then show ?case
    using count_row_put [of j_id "renew_lease now lease r" t r "active_ingestion aid"]
      row_get_SomeD [OF lease_renewed(1)]
    unfolding active_count_def by (simp del: One_nat_def) (metis le_trans)
next
  case (job_ended j t r now base j')
  have g: "row_get j_id (j_id (flush_changed j j' r)) t = Some r"
    using job_ended(1) row_get_SomeD [OF job_ended(1)] by simp
  have "active_ingestion aid (flush_changed j j' r) \<Longrightarrow> active_ingestion aid r"
    using job_ended(2) by (auto simp: active_ingestion_def)
  from count_row_put [of j_id, OF g, of "active_ingestion aid", OF this] show ?case
    using job_ended(6) unfolding active_count_def by (metis le_trans)
next
  case (job_cancelled k t r now r')
  have "\<not> active_ingestion aid r'"
    using cancel_queued_job_fields [OF job_cancelled(2)] by (simp add: active_ingestion_def)
  from count_row_put_other [of "active_ingestion aid", OF this] show ?case
    using job_cancelled(4) unfolding active_count_def by (metis le_trans)
next
  case (jobs_recovered t locked now base)
  then show ?case
    using count_update_where [of "stale locked now" "active_ingestion aid" "reclaimed now base" t]
      active_reclaimed
    unfolding active_count_def recover_stale_jobs_def by (simp del: One_nat_def) (metis le_trans)
qed


inductive jobs_reachable :: "job list \<Rightarrow> bool" where
  none_yet: "jobs_reachable []"
| after: "jobs_reachable t \<Longrightarrow> jobs_step t t' \<Longrightarrow> jobs_reachable t'"

lemma jobs_reachable_index:
  "jobs_reachable t \<Longrightarrow> distinct (map j_id t) \<and> (\<forall>aid. active_count aid t \<le> 1)"
proof (induction rule: jobs_reachable.induct)
  case none_yet
  then show ?case by (simp add: active_count_def)
next
  case (after t t')
  then show ?case using jobs_step_distinct jobs_step_count by blast
qed


section \<open>Cancelling\<close>

lemma get_job_for_run_reads:
  assumes "get_job_for_run ty k w = (r, w')"
  shows "w' = w \<and> (case r of
      Inr None \<Rightarrow> filter (job_of_run ty k) (jobs w) = []
    | Inr (Some j) \<Rightarrow> filter (job_of_run ty k) (jobs w) = [j]
    | Inl e \<Rightarrow> 1 < length (filter (job_of_run ty k) (jobs w)))"
  using assms
  by (cases "filter (job_of_run ty k) (jobs w)") (auto simp: get_job_for_run_def run split: if_splits)

definition cancelled_job :: "time \<Rightarrow> job \<Rightarrow> job" where
  "cancelled_job now j = j\<lparr>j_status := JS_CANCELLED, j_completed_at := Some now\<rparr>"

lemma cancel_job_row_run [run]:
  "j_status j \<in> {JS_QUEUED, JS_RETRYING} \<Longrightarrow> cancel_job_row ev j w =
     (Inr (), w\<lparr>jobs := row_put j_id (cancelled_job (e_now ev (tick w)) j) (jobs w), tick := Suc (tick w)\<rparr>)"
  by (auto simp: cancel_job_row_def run queue_defs cancelled_job_def put_job_def modifyM_def)

lemma cancelled_job_fields [simp]:
  "j_id (cancelled_job now j) = j_id j" "j_status (cancelled_job now j) = JS_CANCELLED"
  "job_of_run ty k (cancelled_job now j) = job_of_run ty k j"
  by (simp_all add: cancelled_job_def job_of_run_def)

lemma only_filtered:
  assumes "filter P t = [j]" and "x \<in> set t" and "P x"
  shows "x = j"
proof -
  have "x \<in> set (filter P t)" using assms(2,3) by simp
  then show ?thesis unfolding assms(1) by simp
qed

text \<open>After the only job of a run has been replaced, it is the only one still.\<close>

lemma only_job_replaced:
  assumes "filter P t = [j]" and "distinct (map key t)" and "key j' = key j" and "P j'"
  shows "\<forall>x\<in>set (row_put key j' t). P x \<longrightarrow> x = j'"
proof (intro ballI impI)
  fix x assume x: "x \<in> set (row_put key j' t)" "P x"
  have "x = j' \<or> (x \<in> set t \<and> key x \<noteq> key j')" using x(1) mem_row_put [OF assms(2)] by simp
  moreover have "x = j" if "x \<in> set t" using only_filtered [OF assms(1) that x(2)] .
  ultimately show "x = j'" using assms(3) by auto
qed

lemma cancel_run_outcome:
  assumes "cancel_run ev rid u w = (r, w')"
  shows "case r of
      Inl e \<Rightarrow> w' = w \<and> (\<forall>x. row_get ar_id rid (agent_runs w) = Some x \<and> visible_to u (ar_created_by x)
                     \<longrightarrow> run_terminal (ar_status x))
    | Inr x \<Rightarrow> ar_id x = rid \<and> ar_status x = AR_CANCELLED \<and> visible_to u (ar_created_by x)
        \<and> (\<exists>old. row_get ar_id rid (agent_runs w) = Some old \<and> ar_status old \<in> {AR_QUEUED, AR_RUNNING})
        \<and> w' = w\<lparr>agent_runs := row_put ar_id x (agent_runs w), tick := Suc (tick w)\<rparr>"
proof (cases "row_get ar_id rid (agent_runs w)")
  case None
  then show ?thesis using assms by (auto simp: cancel_run_def get_run_def run)
next
  case (Some old)
  then have "ar_id old = rid" using row_get_SomeD [OF Some] by simp
  then show ?thesis using assms Some
    by (cases "visible_to u (ar_created_by old)"; cases "ar_status old")
       (auto simp: cancel_run_def get_run_def run validate_transition_def Let_def cancelled_run_def)
qed


lemma get_run_reads: "get_run rid u w = (r, w') \<Longrightarrow> w' = w"
  by (auto simp: get_run_def run split: option.splits if_splits)

lemma no_job_of_run: "filter (job_of_run ty k) t = [] \<Longrightarrow> j \<in> set t \<Longrightarrow> \<not> job_of_run ty k j"
  by (auto simp: filter_empty_conv)

lemma job_found: "filter P t = [j] \<Longrightarrow> P j"
  by (metis filter_eq_Cons_iff)

lemma job_status_cases: "job_terminal s \<or> s = JS_RUNNING \<or> s \<in> {JS_QUEUED, JS_RETRYING}"
  by (cases s) auto

lemma cancel_agent_run_outcome:
  assumes go: "cancel_agent_run ev rid u w = (r, w')" and dis: "distinct (map j_id (jobs w))"
  shows "case r of
      Inr x \<Rightarrow> ar_id x = rid \<and> ar_status x = AR_CANCELLED \<and> visible_to u (ar_created_by x)
        \<and> row_get ar_id rid (agent_runs w') = Some x
        \<and> (\<forall>j\<in>set (jobs w'). job_of_run AGENT_RUN_JOB_TYPE rid j \<longrightarrow> job_terminal (j_status j))
    | Inl e \<Rightarrow> agent_runs w' = agent_runs w \<and> (jobs w' = jobs w \<or>
        (\<exists>x. row_get ar_id rid (agent_runs w) = Some x \<and> run_terminal (ar_status x)))"
proof -
  let ?P = "job_of_run AGENT_RUN_JOB_TYPE rid"
  obtain g w0 where g: "get_run rid u w = (g, w0)" by (cases "get_run rid u w")
  then have w0: "w0 = w" by (rule get_run_reads)
  show ?thesis
  proof (cases g)
    case (Inl e)
    then show ?thesis using go g w0 by (auto simp: cancel_agent_run_def run)
  next
    case (Inr x0)
    note vis = get_run_visible [OF g [unfolded Inr]]
    obtain f w1 where f: "get_job_for_run AGENT_RUN_JOB_TYPE rid w = (f, w1)"
      by (cases "get_job_for_run AGENT_RUN_JOB_TYPE rid w")
    note f' = get_job_for_run_reads [OF f]
    have plain: ?thesis
      if c: "cancel_run ev rid u w = (r, w')" and t: "\<forall>j\<in>set (jobs w). ?P j \<longrightarrow> job_terminal (j_status j)"
      using cancel_run_outcome [OF c] t by (auto split: sum.splits simp: row_get_put)
    show ?thesis
    proof (cases f)
      case (Inl e)
      then show ?thesis using go g w0 f f' Inr by (auto simp: cancel_agent_run_def run)
    next
      case found: (Inr jo)
      show ?thesis
      proof (cases jo)
        case None
        have "cancel_run ev rid u w = (r, w')" using go g w0 f f' Inr found None
          by (simp add: cancel_agent_run_def run)
        moreover have "\<forall>j\<in>set (jobs w). ?P j \<longrightarrow> job_terminal (j_status j)"
          using no_job_of_run f' found None by fastforce
        ultimately show ?thesis by (rule plain)
      next
        case (Some j)
        have one: "filter ?P (jobs w) = [j]" using f' found Some by simp
        then have P: "?P j" by (rule job_found)
        consider "job_terminal (j_status j)" | "j_status j = JS_RUNNING" | "j_status j \<in> {JS_QUEUED, JS_RETRYING}"
          using job_status_cases by blast
        then show ?thesis
        proof cases
          case 1
          then have "j_status j \<notin> {JS_QUEUED, JS_RETRYING}" "j_status j \<noteq> JS_RUNNING" by auto
          then have "cancel_run ev rid u w = (r, w')" using go g w0 f f' Inr found Some
            by (simp add: cancel_agent_run_def run)
          then show ?thesis using plain only_filtered [OF one] 1 by blast
        next
          case 2
          then show ?thesis using go g w0 f f' Inr found Some by (auto simp: cancel_agent_run_def run)
        next
          case 3
          let ?j = "cancelled_job (e_now ev (tick w)) j"
          let ?w = "w\<lparr>jobs := row_put j_id ?j (jobs w), tick := Suc (tick w)\<rparr>"
          have "\<forall>x\<in>set (jobs ?w). ?P x \<longrightarrow> x = ?j"
            using only_job_replaced [OF one dis, of ?j] P by simp
          then have t: "\<forall>x\<in>set (jobs ?w). ?P x \<longrightarrow> job_terminal (j_status x)" by auto
          have c: "cancel_run ev rid u ?w = (r, w')" using go g w0 f f' Inr found Some 3
            by (simp add: cancel_agent_run_def run)
          show ?thesis using cancel_run_outcome [OF c] t vis by (auto split: sum.splits simp: row_get_put)
        qed
      qed
    qed
  qed
qed

lemma get_workflow_run_reads: "get_workflow_run rid u w = (r, w') \<Longrightarrow> w' = w \<and> (\<forall>x. r = Inr x \<longrightarrow>
    row_get wr_id rid (workflow_runs w) = Some x \<and> visible_to u (wr_created_by x))"
  by (auto simp: get_workflow_run_def run split: option.splits if_splits)

lemma cancel_workflow_run_jobs: "cancel_workflow_run ev rid u w = (r, w') \<Longrightarrow> jobs w' = jobs w"
  by (auto simp: cancel_workflow_run_def get_workflow_run_def settle_pending_def monad Let_def
      split: option.splits if_splits sum.splits prod.splits)

text \<open>How the job of a workflow run stands after its cancellation returned the run \<open>x\<close>.\<close>

definition job_stopped :: "workflow_run \<Rightarrow> job \<Rightarrow> bool" where
  "job_stopped x j \<longleftrightarrow> (if wr_status x = WR_CANCELLED \<and> j_status j \<noteq> JS_RUNNING then job_terminal (j_status j)
     else j_status j = JS_RUNNING \<and> j_cancel_requested_at j \<noteq> None)"

lemma cancel_workflow_job_outcome:
  assumes go: "cancel_workflow_job ev rid u w = (r, w')" and dis: "distinct (map j_id (jobs w))"
  shows "case r of
      Inr x \<Rightarrow> wr_id x = rid \<and> visible_to u (wr_created_by x) \<and> row_get wr_id rid (workflow_runs w') = Some x
        \<and> (wr_status x = WR_CANCELLED \<or> workflow_runs w' = workflow_runs w
             \<and> (\<exists>j\<in>set (jobs w'). job_of_run WORKFLOW_RUN_JOB_TYPE rid j))
        \<and> (\<forall>j\<in>set (jobs w'). job_of_run WORKFLOW_RUN_JOB_TYPE rid j \<longrightarrow> job_stopped x j)
    | Inl e \<Rightarrow> workflow_runs w' = workflow_runs w \<and> step_runs w' = step_runs w"
proof -
  let ?P = "job_of_run WORKFLOW_RUN_JOB_TYPE rid"
  obtain g w0 where g: "get_workflow_run rid u w = (g, w0)" by (cases "get_workflow_run rid u w")
  note g' = get_workflow_run_reads [OF g]
  show ?thesis
  proof (cases g)
    case (Inl e)
    then show ?thesis using go g g' by (auto simp: cancel_workflow_job_def run)
  next
    case (Inr x0)
    obtain f w1 where f: "get_job_for_run WORKFLOW_RUN_JOB_TYPE rid w = (f, w1)"
      by (cases "get_job_for_run WORKFLOW_RUN_JOB_TYPE rid w")
    note f' = get_job_for_run_reads [OF f]
    have plain: ?thesis
      if c: "cancel_workflow_run ev rid u v = (r, w')" and t: "\<forall>j\<in>set (jobs v). ?P j \<longrightarrow> job_terminal (j_status j)"
        and v: "workflow_runs v = workflow_runs w" "step_runs v = step_runs w" for v
      using cancel_workflow_run_outcome [OF c] t v cancel_workflow_run_jobs [OF c]
      by (auto simp: job_stopped_def split: sum.splits)
    show ?thesis
    proof (cases f)
      case (Inl e)
      then show ?thesis using go g g' f f' Inr by (auto simp: cancel_workflow_job_def run)
    next
      case found: (Inr jo)
      show ?thesis
      proof (cases jo)
        case None
        have "cancel_workflow_run ev rid u w = (r, w')" using go g g' f f' Inr found None
          by (simp add: cancel_workflow_job_def run)
        moreover have "\<forall>j\<in>set (jobs w). ?P j \<longrightarrow> job_terminal (j_status j)"
          using no_job_of_run f' found None by fastforce
        ultimately show ?thesis by (rule plain) simp_all
      next
        case (Some j)
        have one: "filter ?P (jobs w) = [j]" using f' found Some by simp
        then have P: "?P j" by (rule job_found)
        consider "job_terminal (j_status j)" | "j_status j = JS_RUNNING" | "j_status j \<in> {JS_QUEUED, JS_RETRYING}"
          using job_status_cases by blast
        then show ?thesis
        proof cases
          case 1
          then have "j_status j \<notin> {JS_QUEUED, JS_RETRYING}" "j_status j \<noteq> JS_RUNNING" by auto
          then have "cancel_workflow_run ev rid u w = (r, w')" using go g g' f f' Inr found Some
            by (simp add: cancel_workflow_job_def run)
          then show ?thesis by (rule plain) (use only_filtered [OF one] 1 in blast, simp_all)
        next
          case 2
          have rid: "wr_id x0 = rid" using g' Inr row_get_SomeD [of wr_id rid "workflow_runs w" x0] by simp
          show ?thesis
          proof (cases "j_cancel_requested_at j")
            case None
            let ?j = "j\<lparr>j_cancel_requested_at := Some (e_now ev (tick w))\<rparr>"
            let ?w = "w\<lparr>tick := Suc (tick w), jobs := row_put j_id ?j (jobs w)\<rparr>"
            have "get_workflow_run rid u ?w = (Inr x0, ?w)"
              using g' Inr by (simp add: get_workflow_run_def run)
            then have "r = Inr x0" "w' = ?w" using go g g' f f' Inr found Some 2 None
              by (auto simp: cancel_workflow_job_def run)
            moreover have "?P ?j" using P by (simp add: job_of_run_def)
            then have "\<forall>x\<in>set (jobs ?w). ?P x \<longrightarrow> x = ?j"
              using only_job_replaced [OF one dis, of ?j] by simp
            ultimately show ?thesis using g' Inr rid 2 \<open>?P ?j\<close> by (auto simp: job_stopped_def row_put_mem)
          next
            case s: (Some t)
            have e: "r = Inr x0" "w' = w" using go g g' f f' Inr found Some 2 s
              by (auto simp: cancel_workflow_job_def run)
            have "j \<in> set (filter ?P (jobs w))" unfolding one by simp
            then have "\<exists>j\<in>set (jobs w). ?P j" by auto
            moreover have "\<forall>y\<in>set (jobs w). ?P y \<longrightarrow> job_stopped x0 y"
              using only_filtered [OF one] 2 s by (metis job_stopped_def option.distinct(1))
            ultimately show ?thesis using g' Inr rid unfolding e by simp
          qed
        next
          case 3
          let ?j = "cancelled_job (e_now ev (tick w)) j"
          let ?w = "w\<lparr>jobs := row_put j_id ?j (jobs w), tick := Suc (tick w)\<rparr>"
          have "\<forall>x\<in>set (jobs ?w). ?P x \<longrightarrow> x = ?j"
            using only_job_replaced [OF one dis, of ?j] P by simp
          then have t: "\<forall>x\<in>set (jobs ?w). ?P x \<longrightarrow> job_terminal (j_status x)" by auto
          have "cancel_workflow_run ev rid u ?w = (r, w')" using go g g' f f' Inr found Some 3
            by (simp add: cancel_workflow_job_def run)
          then show ?thesis by (rule plain) (use t in simp_all)
        qed
      qed
    qed
  qed
qed

section \<open>Properties\<close>

lemma returnedE:
  assumes "returned (fst p)"
  obtains x w where "p = (Inr x, w)"
  using assms by (cases p) (auto simp: returned_def split: sum.splits)

definition demo_enqueued :: "(exn + agent_run \<times> job) \<times> world" where
  "demo_enqueued = enqueue_agent_run demo_env (\<lambda>_. None) ''a1'' ''alice'' ''hi'' None 3 demo_world"

text \<open>
  C20: Enqueueing an agent run is one transaction: a call that raises, at any point up to and including
  the commit, leaves every table as it was; a call that returns has added one queued run owned by the
  caller and one queued job that targets it and carries its input, and nothing else.
\<close>

theorem agent_run_is_enqueued_with_its_job:
  assumes "enqueue_agent_run ev commit aid user inp ctx n w = (r, w')"
    and "e_uuid ev (tick w) \<notin> ar_id ` set (agent_runs w)" and "e_uuid ev (Suc (Suc (tick w))) \<notin> j_id ` set (jobs w)"
  shows "case r of
      Inl e \<Rightarrow> same_tables w w'
    | Inr (x, j) \<Rightarrow> w' = w\<lparr>agent_runs := agent_runs w @ [x], jobs := jobs w @ [j], tick := tick w'\<rparr>
        \<and> ar_agent_id x = aid \<and> ar_created_by x = Some user \<and> ar_status x = AR_QUEUED
        \<and> queued_for AGENT_RUN_JOB_TYPE (ar_id x) (run_input inp ctx) n j"
  using assms by (rule enqueue_agent_run_outcome)

lemma agent_run_is_enqueued_with_its_job_witness:
  "\<exists>x j w. demo_enqueued = (Inr (x, j), w) \<and> agent_runs w = [x] \<and> jobs w = [j]
     \<and> queued_for AGENT_RUN_JOB_TYPE (ar_id x) (run_input ''hi'' None) 3 j"
proof -
  have "returned (fst demo_enqueued)" by code_simp
  then obtain y w where "demo_enqueued = (Inr y, w)" by (rule returnedE)
  then obtain x j where d: "demo_enqueued = (Inr (x, j), w)" by (cases y) auto
  have q: "w = demo_world\<lparr>agent_runs := agent_runs demo_world @ [x], jobs := jobs demo_world @ [j], tick := tick w\<rparr>
      \<and> queued_for AGENT_RUN_JOB_TYPE (ar_id x) (run_input ''hi'' None) 3 j"
    using agent_run_is_enqueued_with_its_job [OF d [unfolded demo_enqueued_def]]
    by (simp add: demo_world_def empty_world_def)
  then have "agent_runs w = [x] \<and> jobs w = [j]" by (cases w) (simp add: demo_world_def empty_world_def)
  with conjunct2 [OF q] d show ?thesis by blast
qed

text \<open>
  C6: Whatever sequence of enqueueing, claiming, lease renewal, completion, failure, retry, cancellation
  and recovery the jobs table goes through, no asset ever has two ingestion jobs that are not in a
  terminal state.
\<close>

theorem one_active_ingestion_per_asset:
  assumes "jobs_reachable t"
  shows "active_count aid t \<le> 1"
  using jobs_reachable_index [OF assms] by blast

definition demo_ingestion_job :: "(exn + job) \<times> world" where
  "demo_ingestion_job = enqueue_asset_ingestion demo_env (\<lambda>_. None) ''a1'' ''m'' None 1000 200 3 library_world"

definition second_ingestion_job :: "(exn + job) \<times> world" where
  "second_ingestion_job =
     enqueue_asset_ingestion demo_env (\<lambda>_. None) ''a1'' ''m'' None 1000 200 3 (snd demo_ingestion_job)"

lemma one_active_ingestion_per_asset_witness:
  "fst second_ingestion_job = Inl (Domain (AssetIngestionAlreadyQueuedError ''a1''))
   \<and> length (jobs (snd second_ingestion_job)) = 1 \<and> active_count ''a1'' (jobs (snd second_ingestion_job)) \<le> 1"
proof (intro conjI)
  show "fst second_ingestion_job = Inl (Domain (AssetIngestionAlreadyQueuedError ''a1''))" by code_simp
  show "length (jobs (snd second_ingestion_job)) = 1" by code_simp
  have e: "jobs library_world = []" by (simp add: library_world_def empty_world_def)
  have "jobs_step (jobs library_world) (jobs (snd demo_ingestion_job))"
    unfolding demo_ingestion_job_def by (rule ingestion_enqueued) (rule prod.collapse [symmetric])
  then have "jobs_reachable (jobs (snd demo_ingestion_job))" using jobs_reachable.intros unfolding e by blast
  moreover have "jobs_step (jobs (snd demo_ingestion_job)) (jobs (snd second_ingestion_job))"
    unfolding second_ingestion_job_def by (rule ingestion_enqueued) (rule prod.collapse [symmetric])
  ultimately have "jobs_reachable (jobs (snd second_ingestion_job))" by (rule after)
  then show "active_count ''a1'' (jobs (snd second_ingestion_job)) \<le> 1" by (rule one_active_ingestion_per_asset)
qed

text \<open>
  C17: Cancelling an agent run either returns it CANCELLED, and then no job of the run is left that a
  worker could claim or is working on; or raises and leaves the runs as they were, and then it has
  touched the jobs table only if the run was already in a terminal state.
\<close>

theorem agent_run_cancellation:
  assumes "cancel_agent_run ev rid u w = (r, w')" and "distinct (map j_id (jobs w))"
  shows "case r of
      Inr x \<Rightarrow> ar_id x = rid \<and> ar_status x = AR_CANCELLED \<and> visible_to u (ar_created_by x)
        \<and> row_get ar_id rid (agent_runs w') = Some x
        \<and> (\<forall>j\<in>set (jobs w'). job_of_run AGENT_RUN_JOB_TYPE rid j \<longrightarrow> job_terminal (j_status j))
    | Inl e \<Rightarrow> agent_runs w' = agent_runs w \<and> (jobs w' = jobs w \<or>
        (\<exists>x. row_get ar_id rid (agent_runs w) = Some x \<and> run_terminal (ar_status x)))"
  using assms by (rule cancel_agent_run_outcome)

definition alice :: user where
  "alice = \<lparr>u_id = ''alice'', u_email = ''alice@example.com'', u_hashed_password = [], u_full_name = ''Alice'',
     u_role = OPERATOR, u_status = US_ACTIVE, u_is_verified = True, u_last_login_at = None\<rparr>"

definition demo_cancelled :: "(exn + agent_run) \<times> world" where
  "demo_cancelled = cancel_agent_run demo_env (e_uuid demo_env 0) alice (snd demo_enqueued)"

lemma agent_run_cancellation_witness:
  "\<exists>x w. demo_cancelled = (Inr x, w) \<and> ar_status x = AR_CANCELLED \<and> length (jobs w) = 1
     \<and> (\<forall>j\<in>set (jobs w). job_of_run AGENT_RUN_JOB_TYPE (e_uuid demo_env 0) j \<longrightarrow> job_terminal (j_status j))"
proof -
  have "returned (fst demo_cancelled)" by code_simp
  then obtain x w where d: "demo_cancelled = (Inr x, w)" by (rule returnedE)
  have "length (jobs (snd demo_cancelled)) = 1" by code_simp
  then have "length (jobs w) = 1" by (simp add: d)
  moreover have "distinct (map j_id (jobs (snd demo_enqueued)))" by code_simp
  ultimately show ?thesis using agent_run_cancellation [OF d [unfolded demo_cancelled_def]] d
    by (intro exI [of _ x] exI [of _ w]) simp
qed

text \<open>
  C34: Cancelling a workflow run through its job returns the run in one of two ways: it is CANCELLED and
  its job is in a terminal state, or its job is running, the cancellation is requested on that job and
  the run is as it was. A call that raises leaves the run and its steps as they were.
\<close>

theorem workflow_job_cancellation:
  assumes "cancel_workflow_job ev rid u w = (r, w')" and "distinct (map j_id (jobs w))"
  shows "case r of
      Inr x \<Rightarrow> wr_id x = rid \<and> visible_to u (wr_created_by x) \<and> row_get wr_id rid (workflow_runs w') = Some x
        \<and> (wr_status x = WR_CANCELLED \<or> workflow_runs w' = workflow_runs w
             \<and> (\<exists>j\<in>set (jobs w'). job_of_run WORKFLOW_RUN_JOB_TYPE rid j))
        \<and> (\<forall>j\<in>set (jobs w'). job_of_run WORKFLOW_RUN_JOB_TYPE rid j \<longrightarrow> job_stopped x j)
    | Inl e \<Rightarrow> workflow_runs w' = workflow_runs w \<and> step_runs w' = step_runs w"
  using assms by (rule cancel_workflow_job_outcome)

definition flow_job :: job where
  "flow_job = claimed 0 ''worker-1'' 60 (new_job ''j1'' WORKFLOW_RUN_JOB_TYPE ''wr1'' (run_input ''topic'' None) 3 0)"

definition flow_in_progress :: world where
  "flow_in_progress = empty_world\<lparr>jobs := [flow_job],
     workflow_runs := [(new_workflow_run ''wr1'' ''w1'' ''alice'' 0)\<lparr>wr_status := WR_RUNNING\<rparr>]\<rparr>"

definition flow_job_cancelled :: "(exn + workflow_run) \<times> world" where
  "flow_job_cancelled = cancel_workflow_job demo_env ''wr1'' alice flow_in_progress"

lemma workflow_job_cancellation_witness:
  "\<exists>x w. flow_job_cancelled = (Inr x, w) \<and> wr_status x = WR_RUNNING \<and> length (jobs w) = 1
     \<and> (\<forall>j\<in>set (jobs w). job_of_run WORKFLOW_RUN_JOB_TYPE ''wr1'' j \<longrightarrow> job_stopped x j)"
proof -
  have "returned (fst flow_job_cancelled)" by code_simp
  then obtain x w where d: "flow_job_cancelled = (Inr x, w)" by (rule returnedE)
  have "case flow_job_cancelled of (Inl _, _) \<Rightarrow> False | (Inr x, w) \<Rightarrow> wr_status x = WR_RUNNING \<and> length (jobs w) = 1"
    by code_simp
  then have "wr_status x = WR_RUNNING" "length (jobs w) = 1" by (simp_all add: d)
  moreover have "distinct (map j_id (jobs flow_in_progress))" by code_simp
  ultimately show ?thesis using workflow_job_cancellation [OF d [unfolded flow_job_cancelled_def]] d
    by (intro exI [of _ x] exI [of _ w]) simp
qed

end
