(* ===== verification/Auth.thy ===== *)
theory Auth
  imports JobService
begin

text \<open>
  Authentication and authorization: \<open>app/core/security.py\<close> (passwords and tokens),
  \<open>app/services/user_service.py\<close> (registration, login), \<open>app/api/deps.py\<close> (the dependencies that
  guard endpoints), \<open>app/schemas/user.py\<close> and the endpoints of \<open>app/api/v1/auth.py\<close>. The JWT
  library, the Argon2 hasher and the e-mail validator are parameters.
\<close>

section \<open>HTTP errors\<close>

text \<open>
  An endpoint returns or raises an \<open>HTTPException\<close>; any other exception reaches the framework, which
  answers 500. \<open>handle f\<close> is a \<open>try\<close> block whose \<open>except\<close> clauses translate the exceptions in the
  domain of \<open>f\<close>.
\<close>

datatype http_error = HTTPException int string | Unhandled exn

type_synonym 'a endpoint = "(world, http_error, 'a) m"

fun status_of :: "http_error \<Rightarrow> int" where
  "status_of (HTTPException code _) = code"
| "status_of (Unhandled _) = 500"

definition to_http :: "(exn \<Rightarrow> http_error option) \<Rightarrow> exn \<Rightarrow> http_error" where
  "to_http f e = (case f e of None \<Rightarrow> Unhandled e | Some h \<Rightarrow> h)"

definition handle :: "(exn \<Rightarrow> http_error option) \<Rightarrow> ('w, exn, 'a) m \<Rightarrow> ('w, http_error, 'a) m" where
  "handle f p w = (case p w of (Inl e, w') \<Rightarrow> (Inl (to_http f e), w') | (Inr x, w') \<Rightarrow> (Inr x, w'))"

text \<open>A request whose parameters or body fail validation is answered by the framework with 422.\<close>

definition validated :: "'a option \<Rightarrow> ('w, http_error, 'a) m" where
  "validated r = (case r of None \<Rightarrow> raise (HTTPException 422 ''validation error'') | Some x \<Rightarrow> ret x)"


section \<open>Passwords and e-mail addresses\<close>

datatype argon_error = VerifyMismatchError | VerificationError | InvalidHash

text \<open>
  A value handed to \<open>jwt.encode\<close>: a text, or a \<open>datetime\<close>, which the library writes as whole seconds.
\<close>

datatype claim = TextClaim string | TimeClaim time

text \<open>
  The libraries: the salted hash and its verification, encoding and decoding of tokens (the reading
  of the clock, the token, the secret, the accepted algorithms, the required claims; \<open>Inl\<close> the text
  of a \<open>PyJWTError\<close>), the e-mail validator's normal form of an address, and the hash computed when
  the module is imported.
\<close>

record crypto =
  cr_hash :: "nat \<Rightarrow> string \<Rightarrow> string"
  cr_verify :: "string \<Rightarrow> string \<Rightarrow> argon_error + unit"
  cr_encode :: "(string \<times> claim) list \<Rightarrow> string \<Rightarrow> string \<Rightarrow> string"
  cr_decode :: "time \<Rightarrow> string \<Rightarrow> string \<Rightarrow> string list \<Rightarrow> string list \<Rightarrow> string + jdict"
  cr_email :: "string \<Rightarrow> string option"
  cr_dummy_hash :: string

definition hash_password :: "crypto \<Rightarrow> string \<Rightarrow> string app" where
  "hash_password cr plain = readM (\<lambda>n. cr_hash cr n plain)"

definition verify_password :: "crypto \<Rightarrow> string \<Rightarrow> string \<Rightarrow> bool" where
  "verify_password cr plain hashed = (case cr_verify cr hashed plain of Inl _ \<Rightarrow> False | Inr _ \<Rightarrow> True)"

text \<open>\<open>str.lower\<close>, \<open>str.isalpha\<close> and \<open>str.isdigit\<close> on the characters below 256.\<close>

definition lower_char :: "char \<Rightarrow> char" where
  "lower_char c = (let n = of_char c :: nat in
     if (65 \<le> n \<and> n \<le> 90) \<or> (192 \<le> n \<and> n \<le> 222 \<and> n \<noteq> 215) then char_of (n + 32) else c)"

definition alpha_char :: "char \<Rightarrow> bool" where
  "alpha_char c = (let n = of_char c :: nat in
     (65 \<le> n \<and> n \<le> 90) \<or> (97 \<le> n \<and> n \<le> 122) \<or> n \<in> {170, 181, 186}
     \<or> (192 \<le> n \<and> n \<noteq> 215 \<and> n \<noteq> 247))"

definition digit_char :: "char \<Rightarrow> bool" where
  "digit_char c = (let n = of_char c :: nat in (48 \<le> n \<and> n \<le> 57) \<or> n \<in> {178, 179, 185})"

definition is_alpha :: "string \<Rightarrow> bool" where
  "is_alpha s \<longleftrightarrow> s \<noteq> [] \<and> list_all alpha_char s"

definition is_digit :: "string \<Rightarrow> bool" where
  "is_digit s \<longleftrightarrow> s \<noteq> [] \<and> list_all digit_char s"

definition normalize_email :: "string \<Rightarrow> string" where
  "normalize_email email = map lower_char (strip email)"


section \<open>Tokens\<close>

definition jwt_secret :: "settings \<Rightarrow> exn + string" where
  "jwt_secret st = (case s_jwt_secret_key st of
       None \<Rightarrow> Inl (PyExc ''AssertionError'' []) | Some k \<Rightarrow> Inr k)"

definition token_payload :: "uuid \<Rightarrow> string \<Rightarrow> token_type \<Rightarrow> time \<Rightarrow> duration \<Rightarrow> uuid \<Rightarrow> (string \<times> claim) list" where
  "token_payload subject role ttype now expires_delta jti =
     [(''sub'', TextClaim subject), (''role'', TextClaim role), (''type'', TextClaim (token_type_value ttype)),
      (''iat'', TimeClaim now), (''exp'', TimeClaim (now + expires_delta)), (''jti'', TextClaim jti)]"

definition create_token :: "env \<Rightarrow> crypto \<Rightarrow> uuid \<Rightarrow> string \<Rightarrow> token_type \<Rightarrow> duration \<Rightarrow> string app" where
  "create_token ev cr subject role ttype expires_delta =
     bindM (readM (e_now ev)) (\<lambda>now.
     bindM (readM (e_uuid ev)) (\<lambda>jti.
     bindM (liftE (jwt_secret (e_settings ev))) (\<lambda>secret.
     ret (cr_encode cr (token_payload subject role ttype now expires_delta jti) secret
            (s_jwt_algorithm (e_settings ev))))))"

definition minutes :: "int \<Rightarrow> duration" where
  "minutes n = n * 60000000"

definition days :: "int \<Rightarrow> duration" where
  "days n = n * 86400000000"

definition create_access_token :: "env \<Rightarrow> crypto \<Rightarrow> uuid \<Rightarrow> string \<Rightarrow> string app" where
  "create_access_token ev cr subject role =
     create_token ev cr subject role ACCESS (minutes (s_access_token_expire_minutes (e_settings ev)))"

definition create_refresh_token :: "env \<Rightarrow> crypto \<Rightarrow> uuid \<Rightarrow> string \<Rightarrow> string app" where
  "create_refresh_token ev cr subject role =
     create_token ev cr subject role REFRESH (days (s_refresh_token_expire_days (e_settings ev)))"

definition token_error :: "string \<Rightarrow> exn" where
  "token_error msg = PyExc ''TokenError'' msg"

definition REQUIRED_CLAIMS :: "string list" where
  "REQUIRED_CLAIMS = [''sub'', ''role'', ''type'', ''iat'', ''exp'', ''jti'']"

definition decode_token :: "env \<Rightarrow> crypto \<Rightarrow> string \<Rightarrow> token_type \<Rightarrow> jdict app" where
  "decode_token ev cr token expected =
     bindM (liftE (jwt_secret (e_settings ev))) (\<lambda>secret.
     bindM (readM (e_now ev)) (\<lambda>now.
     case cr_decode cr now token secret [s_jwt_algorithm (e_settings ev)] REQUIRED_CLAIMS of
       Inl _ \<Rightarrow> raise (token_error ''invalid or expired token'')
     | Inr payload \<Rightarrow>
         if dict_get payload ''type'' \<noteq> JStr (token_type_value expected)
         then raise (token_error (''expected a '' @ token_type_value expected @ '' token''))
         else ret payload))"

text \<open>\<open>uuid.UUID(str(payload['sub']))\<close>.\<close>

definition subject_of :: "jdict \<Rightarrow> exn + uuid" where
  "subject_of payload = (case map_of payload ''sub'' of
       None \<Rightarrow> Inl (PyExc ''KeyError'' (repr_str ''sub''))
     | Some v \<Rightarrow> (case parse_uuid (py_str v) of
           None \<Rightarrow> Inl (PyExc ''ValueError'' ''badly formed hexadecimal UUID string'') | Some u \<Rightarrow> Inr u))"


section \<open>app/services/user_service.py\<close>

definition put_user :: "user \<Rightarrow> unit app" where
  "put_user u = modifyM (\<lambda>w. w\<lparr>users := row_put u_id u (users w)\<rparr>)"

record user_register =
  ur_email :: string
  ur_password :: string
  ur_full_name :: string

text \<open>
  The unique index \<open>ix_users_email\<close> and the primary key: a commit of a new row that repeats either is
  rejected with an \<open>IntegrityError\<close> whose text names the violated constraint.
\<close>

definition unique_violation :: "string \<Rightarrow> exn" where
  "unique_violation constraint =
     PyExc ''IntegrityError''
       (''duplicate key value violates unique constraint '' @ [CHR 0x22] @ constraint @ [CHR 0x22])"

definition commit_user :: "(nat \<Rightarrow> exn option) \<Rightarrow> user \<Rightarrow> unit app" where
  "commit_user commit u =
     bindM (getM users) (\<lambda>us.
     bindM (readM commit) (\<lambda>r.
     case (if list_ex (\<lambda>v. u_email v = u_email u) us then Some (unique_violation ''ix_users_email'')
           else if list_ex (\<lambda>v. u_id v = u_id u) us then Some (unique_violation ''pk_users'') else r) of
       Some e \<Rightarrow> raise e | None \<Rightarrow> put_user u))"

definition new_user :: "uuid \<Rightarrow> string \<Rightarrow> user_register \<Rightarrow> user" where
  "new_user uid hashed data =
     \<lparr>u_id = uid, u_email = normalize_email (ur_email data), u_hashed_password = hashed,
      u_full_name = ur_full_name data, u_role = VIEWER, u_status = US_ACTIVE, u_is_verified = False,
      u_last_login_at = None\<rparr>"

definition email_conflict :: "exn \<Rightarrow> bool" where
  "email_conflict e \<longleftrightarrow> is_integrity_error e
     \<and> (contains_text ''ix_users_email'' (exn_str e) \<or> contains_text ''users_email'' (exn_str e))"

definition register_user :: "env \<Rightarrow> crypto \<Rightarrow> (nat \<Rightarrow> exn option) \<Rightarrow> user_register \<Rightarrow> user app" where
  "register_user ev cr commit data =
     bindM (hash_password cr (ur_password data)) (\<lambda>hashed.
     bindM (readM (e_uuid ev)) (\<lambda>uid.
     let u = new_user uid hashed data in
     seqM (catchM (commit_user commit u) (\<lambda>e.
             raise (if email_conflict e then Domain (DuplicateEmailError (ur_email data)) else e)))
       (ret u)))"

definition get_user_by_id :: "uuid \<Rightarrow> user app" where
  "get_user_by_id uid =
     bindM (getM (\<lambda>w. row_get u_id uid (users w))) (\<lambda>r. case r of
         None \<Rightarrow> raise (Domain (UserNotFoundError uid)) | Some u \<Rightarrow> ret u)"

definition get_user_by_email :: "string \<Rightarrow> user option app" where
  "get_user_by_email email = getM (\<lambda>w. find (\<lambda>u. u_email u = normalize_email email) (users w))"

definition authenticate_user :: "crypto \<Rightarrow> string \<Rightarrow> string \<Rightarrow> user app" where
  "authenticate_user cr email password =
     bindM (get_user_by_email email) (\<lambda>r. case r of
         None \<Rightarrow>
           (let _ = verify_password cr password (cr_dummy_hash cr) in raise (Domain InvalidCredentialsError))
       | Some u \<Rightarrow>
           if \<not> verify_password cr password (u_hashed_password u) then raise (Domain InvalidCredentialsError)
           else if u_status u \<noteq> US_ACTIVE then raise (Domain InvalidCredentialsError)
           else ret u)"

definition record_login :: "env \<Rightarrow> (nat \<Rightarrow> exn option) \<Rightarrow> user \<Rightarrow> user app" where
  "record_login ev commit u =
     bindM (readM (e_now ev)) (\<lambda>now.
     let v = u\<lparr>u_last_login_at := Some now\<rparr> in
     bindM (readM commit) (\<lambda>r. case r of Some e \<Rightarrow> raise e | None \<Rightarrow> seqM (put_user v) (ret v)))"


section \<open>app/api/deps.py\<close>

definition credentials_error :: http_error where
  "credentials_error = HTTPException 401 ''could not validate credentials''"

definition python_error :: "string set \<Rightarrow> exn \<Rightarrow> bool" where
  "python_error names e = (case e of PyExc n _ \<Rightarrow> n \<in> names | _ \<Rightarrow> False)"

text \<open>The credentials are the bearer token that the framework took from the request's header.\<close>

definition get_current_user :: "env \<Rightarrow> crypto \<Rightarrow> string \<Rightarrow> user endpoint" where
  "get_current_user ev cr credentials =
     bindM (handle (\<lambda>e. if python_error {''TokenError''} e then Some credentials_error else None)
              (decode_token ev cr credentials ACCESS)) (\<lambda>payload.
     bindM (handle (\<lambda>e. if python_error {''KeyError'', ''ValueError''} e then Some credentials_error else None)
              (liftE (subject_of payload))) (\<lambda>uid.
     handle (\<lambda>e. case e of Domain (UserNotFoundError _) \<Rightarrow> Some credentials_error | _ \<Rightarrow> None)
       (get_user_by_id uid)))"

definition require_active_user :: "env \<Rightarrow> crypto \<Rightarrow> string \<Rightarrow> user endpoint" where
  "require_active_user ev cr credentials =
     bindM (get_current_user ev cr credentials) (\<lambda>u.
       if u_status u \<noteq> US_ACTIVE then raise (HTTPException 403 ''account is not active'') else ret u)"

definition require_roles :: "user_role set \<Rightarrow> env \<Rightarrow> crypto \<Rightarrow> string \<Rightarrow> user endpoint" where
  "require_roles allowed ev cr credentials =
     bindM (require_active_user ev cr credentials) (\<lambda>u.
       if u_role u \<notin> allowed then raise (HTTPException 403 ''insufficient role for this action'') else ret u)"


section \<open>app/schemas/user.py and app/api/v1/auth.py\<close>

definition enforce_password_policy :: "settings \<Rightarrow> string \<Rightarrow> bool" where
  "enforce_password_policy st v \<longleftrightarrow>
     s_min_password_length st \<le> int (length v) \<and> \<not> (is_alpha v \<or> is_digit v)"

definition text_field :: "nat \<Rightarrow> nat \<Rightarrow> string \<Rightarrow> bool" where
  "text_field least most s \<longleftrightarrow> least \<le> length s \<and> length s \<le> most"

definition valid_user_register :: "settings \<Rightarrow> crypto \<Rightarrow> user_register \<Rightarrow> user_register option" where
  "valid_user_register st cr r =
     (case cr_email cr (ur_email r) of
        None \<Rightarrow> None
      | Some email \<Rightarrow>
          if text_field 1 256 (ur_password r) \<and> enforce_password_policy st (ur_password r)
             \<and> text_field 1 255 (ur_full_name r)
          then Some (r\<lparr>ur_email := email\<rparr>) else None)"

definition valid_user_login :: "crypto \<Rightarrow> string \<times> string \<Rightarrow> (string \<times> string) option" where
  "valid_user_login cr p =
     (case cr_email cr (fst p) of
        None \<Rightarrow> None | Some email \<Rightarrow> if text_field 1 256 (snd p) then Some (email, snd p) else None)"

record user_read =
  rd_id :: uuid
  rd_email :: string
  rd_full_name :: string
  rd_role :: user_role
  rd_status :: user_status
  rd_is_verified :: bool
  rd_last_login_at :: "time option"

definition user_read_of :: "user \<Rightarrow> user_read" where
  "user_read_of u =
     \<lparr>rd_id = u_id u, rd_email = u_email u, rd_full_name = u_full_name u, rd_role = u_role u,
      rd_status = u_status u, rd_is_verified = u_is_verified u, rd_last_login_at = u_last_login_at u\<rparr>"

record token_pair =
  tp_access_token :: string
  tp_refresh_token :: string

definition token_pair_for :: "env \<Rightarrow> crypto \<Rightarrow> user \<Rightarrow> token_pair app" where
  "token_pair_for ev cr u =
     bindM (create_access_token ev cr (u_id u) (user_role_value (u_role u))) (\<lambda>a.
     bindM (create_refresh_token ev cr (u_id u) (user_role_value (u_role u))) (\<lambda>r.
     ret \<lparr>tp_access_token = a, tp_refresh_token = r\<rparr>))"

definition register :: "env \<Rightarrow> crypto \<Rightarrow> (nat \<Rightarrow> exn option) \<Rightarrow> user_register \<Rightarrow> user_read endpoint" where
  "register ev cr commit payload =
     bindM (validated (valid_user_register (e_settings ev) cr payload)) (\<lambda>data.
     bindM (handle (\<lambda>e. case e of Domain (DuplicateEmailError _) \<Rightarrow> Some (HTTPException 409 (exn_str e)) | _ \<Rightarrow> None)
              (register_user ev cr commit data)) (\<lambda>u.
     ret (user_read_of u)))"

definition invalid_credentials :: http_error where
  "invalid_credentials = HTTPException 401 ''invalid credentials''"

definition login :: "env \<Rightarrow> crypto \<Rightarrow> (nat \<Rightarrow> exn option) \<Rightarrow> string \<times> string \<Rightarrow> token_pair endpoint" where
  "login ev cr commit payload =
     bindM (validated (valid_user_login cr payload)) (\<lambda>p.
     bindM (handle (\<lambda>e. case e of Domain InvalidCredentialsError \<Rightarrow> Some invalid_credentials | _ \<Rightarrow> None)
              (authenticate_user cr (fst p) (snd p))) (\<lambda>u.
     bindM (handle (\<lambda>e. None) (record_login ev commit u)) (\<lambda>v.
     handle (\<lambda>e. None) (token_pair_for ev cr v))))"

definition invalid_refresh :: http_error where
  "invalid_refresh = HTTPException 401 ''invalid refresh token''"

definition refresh :: "env \<Rightarrow> crypto \<Rightarrow> string \<Rightarrow> token_pair endpoint" where
  "refresh ev cr token =
     bindM (validated (if token = [] then None else Some token)) (\<lambda>t.
     bindM (handle (\<lambda>e. if python_error {''TokenError''} e then Some invalid_refresh else None)
              (decode_token ev cr t REFRESH)) (\<lambda>claims.
     bindM (handle (\<lambda>e. case e of Domain (UserNotFoundError _) \<Rightarrow> Some invalid_refresh
                         | _ \<Rightarrow> if python_error {''ValueError''} e then Some invalid_refresh else None)
              (bindM (liftE (subject_of claims)) get_user_by_id)) (\<lambda>u.
     if u_status u \<noteq> US_ACTIVE then raise invalid_refresh
     else handle (\<lambda>e. None) (token_pair_for ev cr u))))"

definition me :: "env \<Rightarrow> crypto \<Rightarrow> string \<Rightarrow> user_read endpoint" where
  "me ev cr credentials = bindM (get_current_user ev cr credentials) (\<lambda>u. ret (user_read_of u))"

section \<open>What the guards admit\<close>

lemma handle_run [run]:
  "p w = (Inr x, w') \<Longrightarrow> handle f p w = (Inr x, w')"
  "p w = (Inl e, w') \<Longrightarrow> handle f p w = (Inl (to_http f e), w')"
  by (simp_all add: handle_def)

lemma validated_run [run]:
  "validated None w = (Inl (HTTPException 422 ''validation error''), w)"
  "validated (Some x) = ret x"
  by (simp_all add: validated_def run)

text \<open>A program that leaves every table as it was.\<close>

definition reads_only :: "(world, 'e, 'a) m \<Rightarrow> bool" where
  "reads_only p \<longleftrightarrow> (\<forall>w. \<exists>n. snd (p w) = w\<lparr>tick := n\<rparr>)"

lemma reads_onlyD: "reads_only p \<Longrightarrow> p w = (r, w') \<Longrightarrow> \<exists>n. w' = w\<lparr>tick := n\<rparr>"
  unfolding reads_only_def by (metis snd_conv)

lemma same_tables [simp]: "\<exists>n. (w :: world) = w\<lparr>tick := n\<rparr>"
  by (rule exI [of _ "tick w"]) simp

lemma reads_only_basic [simp, intro]:
  "reads_only (ret x)" "reads_only (raise e)" "reads_only (getM f)" "reads_only (liftE r)" "reads_only (readM g)"
  by (auto simp: reads_only_def monad)

lemma reads_only_validated [simp, intro]: "reads_only (validated r)"
  by (cases r) (auto simp: validated_def)

lemma reads_only_bindM:
  assumes p: "reads_only p" and f: "\<And>x. reads_only (f x)"
  shows "reads_only (bindM p f)"
  unfolding reads_only_def
proof
  fix w
  obtain r w1 where w1: "p w = (r, w1)" by (cases "p w")
  obtain n where n: "w1 = w\<lparr>tick := n\<rparr>" using reads_onlyD [OF p w1] by blast
  show "\<exists>m. snd (bindM p f w) = w\<lparr>tick := m\<rparr>"
  proof (cases r)
    case (Inl e)
    then show ?thesis using w1 n by (auto simp: bindM_def)
  next
    case (Inr x)
    obtain m where "snd (f x w1) = w1\<lparr>tick := m\<rparr>" using f [of x] unfolding reads_only_def by blast
    then show ?thesis using w1 n Inr by (auto simp: bindM_def)
  qed
qed

lemma reads_only_handle: "reads_only p \<Longrightarrow> reads_only (handle f p)"
  unfolding reads_only_def handle_def by (auto split: prod.splits sum.splits) (metis snd_conv)+

text \<open>
  The contract of an authorization dependency: it changes nothing, and a request it does not admit is
  answered 401 or 403 (or the process runs without a signing key).
\<close>

definition unauthorized :: "http_error \<Rightarrow> bool" where
  "unauthorized h \<longleftrightarrow> status_of h \<in> {401, 403} \<or> h = Unhandled (PyExc ''AssertionError'' [])"

locale auth_guard =
  fixes dep :: "user endpoint"
  assumes reads: "reads_only dep"
    and rejects: "dep w = (Inl h, w') \<Longrightarrow> unauthorized h"
begin

lemma guarded_rejects:
  "dep w = (Inl h, w1) \<Longrightarrow> bindM dep f w = (Inl h, w1) \<and> unauthorized h \<and> (\<exists>n. w1 = w\<lparr>tick := n\<rparr>)"
  using reads_onlyD [OF reads] rejects by (fastforce simp: run)

lemma guarded_cases:
  assumes "bindM dep f w = (r, w')"
  obtains (rejected) h n where "dep w = (Inl h, w')" "r = Inl h" "unauthorized h" "w' = w\<lparr>tick := n\<rparr>"
  | (admitted) u n where "dep w = (Inr u, w\<lparr>tick := n\<rparr>)" "f u (w\<lparr>tick := n\<rparr>) = (r, w')"
proof -
  obtain d w1 where d: "dep w = (d, w1)" by (cases "dep w")
  obtain n where n: "w1 = w\<lparr>tick := n\<rparr>" using reads_onlyD [OF reads d] by blast
  show thesis
  proof (cases d)
    case (Inl h)
    then show ?thesis using rejected [of h n] assms d n guarded_rejects [of w h w1 f] by simp
  next
    case (Inr u)
    then show ?thesis using admitted [of u n] assms d n by (simp add: run)
  qed
qed

lemma guarded_reads_only: "(\<And>u. reads_only (f u)) \<Longrightarrow> reads_only (bindM dep f)"
  by (rule reads_only_bindM [OF reads])

end

lemma to_http_unauthorized:
  "f e = Some credentials_error \<Longrightarrow> unauthorized (to_http f e)"
  by (simp add: to_http_def credentials_error_def unauthorized_def)

lemma reads_only_decode: "reads_only (decode_token ev cr tok ty)"
  unfolding decode_token_def
  by (auto intro!: reads_only_bindM split: sum.splits)

lemma reads_only_user: "reads_only (get_user_by_id uid)"
  unfolding get_user_by_id_def by (auto intro!: reads_only_bindM split: option.splits)

lemma reads_only_current: "reads_only (get_current_user ev cr tok)"
  unfolding get_current_user_def
  by (intro reads_only_bindM reads_only_handle reads_only_decode reads_only_user reads_only_basic)

lemma get_user_run [run]:
  "get_user_by_id uid w = (case row_get u_id uid (users w) of
       None \<Rightarrow> (Inl (Domain (UserNotFoundError uid)), w) | Some u \<Rightarrow> (Inr u, w))"
  by (simp add: get_user_by_id_def run split: option.split)

lemma jwt_secret_cases:
  "jwt_secret st = (case s_jwt_secret_key st of None \<Rightarrow> Inl (PyExc ''AssertionError'' []) | Some k \<Rightarrow> Inr k)"
  by (simp add: jwt_secret_def)

text \<open>The subject a token proves at a time: its claims decode, its type is the expected one.\<close>

definition proven_subject :: "env \<Rightarrow> crypto \<Rightarrow> string \<Rightarrow> token_type \<Rightarrow> time \<Rightarrow> string \<Rightarrow> exn + uuid" where
  "proven_subject ev cr secret expected now token =
     (case cr_decode cr now token secret [s_jwt_algorithm (e_settings ev)] REQUIRED_CLAIMS of
        Inl _ \<Rightarrow> Inl (token_error ''invalid or expired token'')
      | Inr p \<Rightarrow>
          if dict_get p ''type'' \<noteq> JStr (token_type_value expected)
          then Inl (token_error (''expected a '' @ token_type_value expected @ '' token''))
          else subject_of p)"

lemma decode_token_run:
  assumes "s_jwt_secret_key (e_settings ev) = Some k"
  shows "bindM (decode_token ev cr tok ty) (\<lambda>p. liftE (subject_of p)) w =
    (proven_subject ev cr k ty (e_now ev (tick w)) tok, w\<lparr>tick := Suc (tick w)\<rparr>)"
  using assms
  by (simp add: decode_token_def jwt_secret_cases run bindM_assoc proven_subject_def split: sum.split)
    (simp add: liftE_def bindM_def raise_def ret_def)

lemma current_user_run:
  assumes k: "s_jwt_secret_key (e_settings ev) = Some k"
  shows "get_current_user ev cr tok w =
    ((case proven_subject ev cr k ACCESS (e_now ev (tick w)) tok of
        Inl _ \<Rightarrow> Inl credentials_error
      | Inr uid \<Rightarrow> (case row_get u_id uid (users w) of None \<Rightarrow> Inl credentials_error | Some u \<Rightarrow> Inr u)),
     w\<lparr>tick := Suc (tick w)\<rparr>)"
proof -
  let ?d = "cr_decode cr (e_now ev (tick w)) tok k [s_jwt_algorithm (e_settings ev)] REQUIRED_CLAIMS"
  let ?w = "w\<lparr>tick := Suc (tick w)\<rparr>"
  have d: "decode_token ev cr tok ACCESS w = (case ?d of
      Inl _ \<Rightarrow> (Inl (token_error ''invalid or expired token''), ?w)
    | Inr p \<Rightarrow> if dict_get p ''type'' \<noteq> JStr ''access'' then (Inl (token_error ''expected a access token''), ?w)
               else (Inr p, ?w))"
    using k by (simp add: decode_token_def jwt_secret_cases run split: sum.split)
  have t: "to_http (\<lambda>e. if python_error {''TokenError''} e then Some credentials_error else None) (token_error m)
      = credentials_error" for m by (simp add: to_http_def python_error_def token_error_def)
  show ?thesis
  proof (cases ?d)
    case (Inl m)
    then show ?thesis using d t by (simp add: get_current_user_def run proven_subject_def)
  next
    case (Inr p)
    have s: "subject_of p = Inl e \<Longrightarrow>
        to_http (\<lambda>e. if python_error {''KeyError'', ''ValueError''} e then Some credentials_error else None) e
          = credentials_error" for e
      by (auto simp: subject_of_def to_http_def python_error_def split: option.splits)
    have u: "handle (\<lambda>e. case e of Domain (UserNotFoundError _) \<Rightarrow> Some credentials_error | _ \<Rightarrow> None)
        (get_user_by_id uid) ?w
      = ((case row_get u_id uid (users w) of None \<Rightarrow> Inl credentials_error | Some u \<Rightarrow> Inr u), ?w)" for uid
      by (simp add: handle_def get_user_run to_http_def split: option.split)
    show ?thesis
    proof (cases "dict_get p ''type'' = JStr ''access''")
      case False
      then show ?thesis using d t Inr by (simp add: get_current_user_def run proven_subject_def)
    next
      case True
      then have g: "get_current_user ev cr tok w =
          bindM (handle (\<lambda>e. if python_error {''KeyError'', ''ValueError''} e then Some credentials_error else None)
              (liftE (subject_of p))) (\<lambda>uid.
            handle (\<lambda>e. case e of Domain (UserNotFoundError _) \<Rightarrow> Some credentials_error | _ \<Rightarrow> None)
              (get_user_by_id uid)) ?w"
        using d Inr by (simp add: get_current_user_def run)
      show ?thesis
      proof (cases "subject_of p")
        case (Inl e)
        then show ?thesis using g True Inr s [OF Inl] by (simp add: handle_def liftE_def bindM_def proven_subject_def)
      next
        case i: (Inr uid)
        then show ?thesis using g True Inr u [of uid] by (simp add: handle_def liftE_def bindM_def proven_subject_def)
      qed
    qed
  qed
qed

lemma current_user_no_secret:
  "s_jwt_secret_key (e_settings ev) = None \<Longrightarrow>
   get_current_user ev cr tok w = (Inl (Unhandled (PyExc ''AssertionError'' [])), w)"
  by (simp add: get_current_user_def decode_token_def jwt_secret_cases run to_http_def python_error_def)

lemma current_user_rejects: "get_current_user ev cr tok w = (Inl h, w') \<Longrightarrow> unauthorized h"
  by (cases "s_jwt_secret_key (e_settings ev)")
    (auto simp: current_user_no_secret current_user_run unauthorized_def credentials_error_def
      split: sum.splits option.splits)

lemma active_user_rejects: "require_active_user ev cr tok w = (Inl h, w') \<Longrightarrow> unauthorized h"
  unfolding require_active_user_def
  by (cases "get_current_user ev cr tok w")
    (auto simp: bindM_def raise_def ret_def unauthorized_def dest: current_user_rejects
      split: sum.splits if_splits)

lemma roles_rejects: "require_roles allowed ev cr tok w = (Inl h, w') \<Longrightarrow> unauthorized h"
  unfolding require_roles_def
  by (cases "require_active_user ev cr tok w")
    (auto simp: bindM_def raise_def ret_def unauthorized_def dest: active_user_rejects
      split: sum.splits if_splits)

lemma reads_only_active: "reads_only (require_active_user ev cr tok)"
  unfolding require_active_user_def by (intro reads_only_bindM reads_only_current) simp

lemma reads_only_roles: "reads_only (require_roles allowed ev cr tok)"
  unfolding require_roles_def by (intro reads_only_bindM reads_only_active) simp

interpretation signed_in: auth_guard "get_current_user ev cr tok" for ev cr tok
  by unfold_locales (rule reads_only_current, erule current_user_rejects)

interpretation active: auth_guard "require_active_user ev cr tok" for ev cr tok
  by unfold_locales (rule reads_only_active, erule active_user_rejects)

interpretation role_guard: auth_guard "require_roles allowed ev cr tok" for allowed ev cr tok
  by unfold_locales (rule reads_only_roles, erule roles_rejects)

lemma roles_run:
  assumes "s_jwt_secret_key (e_settings ev) = Some k"
  shows "require_roles allowed ev cr tok w =
    ((case proven_subject ev cr k ACCESS (e_now ev (tick w)) tok of
        Inl _ \<Rightarrow> Inl credentials_error
      | Inr uid \<Rightarrow> (case row_get u_id uid (users w) of
            None \<Rightarrow> Inl credentials_error
          | Some u \<Rightarrow> if u_status u \<noteq> US_ACTIVE then Inl (HTTPException 403 ''account is not active'')
              else if u_role u \<notin> allowed then Inl (HTTPException 403 ''insufficient role for this action'')
              else Inr u)),
     w\<lparr>tick := Suc (tick w)\<rparr>)"
  using current_user_run [OF assms, of cr tok w]
  by (auto simp: require_roles_def require_active_user_def bindM_def raise_def ret_def
      split: sum.split option.split)

lemma subject_of_iff:
  "subject_of p = Inr uid \<longleftrightarrow> (\<exists>v. map_of p ''sub'' = Some v \<and> parse_uuid (py_str v) = Some uid)"
  by (auto simp: subject_of_def split: option.splits)

section \<open>A concrete signing scheme\<close>

text \<open>
  What the documentation of the JWT library promises of the calls made here: a token decodes, with
  the secret and the algorithm it was encoded with, to its claims, until its expiry; after that, or
  when a required claim is missing, decoding fails. A token is never the empty text.
\<close>

definition whole_second :: "time \<Rightarrow> time" where
  "whole_second t = t div 1000000 * 1000000"

fun claim_json :: "claim \<Rightarrow> json" where
  "claim_json (TextClaim s) = JStr s"
| "claim_json (TimeClaim t) = JInt (t div 1000000)"

fun claim_timely :: "time \<Rightarrow> string \<times> claim \<Rightarrow> bool" where
  "claim_timely now (k, TimeClaim t) =
     ((k = ''iat'' \<longrightarrow> whole_second t \<le> now) \<and> (k = ''exp'' \<longrightarrow> now < whole_second t))"
| "claim_timely now (k, TextClaim _) = True"

definition acceptable :: "time \<Rightarrow> (string \<times> claim) list \<Rightarrow> string list \<Rightarrow> bool" where
  "acceptable now payload required \<longleftrightarrow>
     set required \<subseteq> fst ` set payload \<and> list_all (claim_timely now) payload"

definition jwt_laws :: "crypto \<Rightarrow> bool" where
  "jwt_laws cr \<longleftrightarrow> (\<forall>payload secret alg. cr_encode cr payload secret alg \<noteq> [])
   \<and> (\<forall>now payload secret alg required. distinct (map fst payload) \<longrightarrow>
     (if acceptable now payload required
      then cr_decode cr now (cr_encode cr payload secret alg) secret [alg] required
             = Inr (map (map_prod id claim_json) payload)
      else \<exists>m. cr_decode cr now (cr_encode cr payload secret alg) secret [alg] required = Inl m))"

definition argon_laws :: "crypto \<Rightarrow> bool" where
  "argon_laws cr \<longleftrightarrow> (\<forall>n p q. cr_verify cr (cr_hash cr n p) q = (if q = p then Inr () else Inl VerifyMismatchError))"

text \<open>An instance of both: tokens that carry secret, algorithm and claims with their lengths in unary.\<close>

definition tally :: "nat \<Rightarrow> string" where
  "tally n = replicate n CHR ''x'' @ ''.''"

definition read_tally :: "string \<Rightarrow> nat \<times> string" where
  "read_tally s = (let n = length (takeWhile (\<lambda>c. c = CHR ''x'') s) in (n, drop (Suc n) s))"

definition pack_text :: "string \<Rightarrow> string" where
  "pack_text s = tally (length s) @ s"

definition unpack_text :: "string \<Rightarrow> string \<times> string" where
  "unpack_text s = (case read_tally s of (n, r) \<Rightarrow> (take n r, drop n r))"

fun pack_claim :: "string \<times> claim \<Rightarrow> string" where
  "pack_claim (k, TextClaim s) = pack_text k @ ''s'' @ pack_text s"
| "pack_claim (k, TimeClaim t) = pack_text k @ (if t < 0 then ''-'' else ''+'') @ tally (nat \<bar>t\<bar>)"

definition unpack_claim :: "string \<Rightarrow> (string \<times> claim) \<times> string" where
  "unpack_claim s =
     (case unpack_text s of (k, r) \<Rightarrow>
        if take 1 r = ''s'' then (case unpack_text (tl r) of (v, r') \<Rightarrow> ((k, TextClaim v), r'))
        else (case read_tally (tl r) of (n, r') \<Rightarrow>
           ((k, TimeClaim (if take 1 r = ''-'' then - int n else int n)), r')))"

fun unpack_claims :: "nat \<Rightarrow> string \<Rightarrow> (string \<times> claim) list" where
  "unpack_claims 0 s = []"
| "unpack_claims (Suc n) s = (case unpack_claim s of (c, r) \<Rightarrow> c # unpack_claims n r)"

definition demo_encode :: "(string \<times> claim) list \<Rightarrow> string \<Rightarrow> string \<Rightarrow> string" where
  "demo_encode payload secret alg =
     pack_text secret @ pack_text alg @ tally (length payload) @ concat (map pack_claim payload)"

definition demo_decode :: "time \<Rightarrow> string \<Rightarrow> string \<Rightarrow> string list \<Rightarrow> string list \<Rightarrow> string + jdict" where
  "demo_decode now token secret algs required =
     (case unpack_text token of (s, r) \<Rightarrow> case unpack_text r of (a, r') \<Rightarrow> case read_tally r' of (n, r'') \<Rightarrow>
        let payload = unpack_claims n r'' in
        if s = secret \<and> a \<in> set algs \<and> acceptable now payload required
        then Inr (map (map_prod id claim_json) payload) else Inl ''invalid token'')"

definition demo_crypto :: crypto where
  "demo_crypto =
     \<lparr>cr_hash = (\<lambda>n p. CHR ''$'' # p), cr_verify = (\<lambda>h p. if h = CHR ''$'' # p then Inr () else Inl VerifyMismatchError),
      cr_encode = demo_encode, cr_decode = demo_decode, cr_email = Some, cr_dummy_hash = ''$''\<rparr>"

lemma read_tally_tally [simp]: "read_tally (tally n @ r) = (n, r)"
proof -
  have "takeWhile (\<lambda>c. c = CHR ''x'') (replicate n CHR ''x'' @ CHR ''.'' # r) = replicate n CHR ''x''"
    by (induction n) simp_all
  then show ?thesis by (simp add: read_tally_def tally_def)
qed

lemma unpack_pack_text [simp]: "unpack_text (pack_text s @ r) = (s, r)"
  by (simp add: unpack_text_def pack_text_def)

lemma unpack_pack_claim [simp]: "unpack_claim (pack_claim c @ r) = (c, r)"
  by (cases c rule: pack_claim.cases) (auto simp: unpack_claim_def)

lemma unpack_pack_claims: "unpack_claims (length cs) (concat (map pack_claim cs)) = cs"
proof (induction cs)
  case (Cons c cs)
  then show ?case by simp
qed simp

lemma pack_text_nonempty: "pack_text s \<noteq> []"
  by (simp add: pack_text_def tally_def)

lemma demo_jwt_laws: "jwt_laws demo_crypto"
  by (auto simp: jwt_laws_def demo_crypto_def demo_encode_def demo_decode_def unpack_pack_claims Let_def
      pack_text_nonempty)

lemma demo_argon_laws: "argon_laws demo_crypto"
  by (simp add: argon_laws_def demo_crypto_def)

section \<open>What login and refresh issue\<close>

lemma create_token_run [run]:
  assumes "s_jwt_secret_key (e_settings ev) = Some k"
  shows "create_token ev cr sub role ty d w =
    (Inr (cr_encode cr (token_payload sub role ty (e_now ev (tick w)) d (e_uuid ev (Suc (tick w)))) k
       (s_jwt_algorithm (e_settings ev))), w\<lparr>tick := Suc (Suc (tick w))\<rparr>)"
  using assms by (simp add: create_token_def run jwt_secret_cases)

definition issued :: "env \<Rightarrow> crypto \<Rightarrow> string \<Rightarrow> user \<Rightarrow> token_type \<Rightarrow> nat \<Rightarrow> string" where
  "issued ev cr k u ty n =
     cr_encode cr (token_payload (u_id u) (user_role_value (u_role u)) ty (e_now ev n)
         (case ty of ACCESS \<Rightarrow> minutes (s_access_token_expire_minutes (e_settings ev))
                   | REFRESH \<Rightarrow> days (s_refresh_token_expire_days (e_settings ev)))
         (e_uuid ev (Suc n))) k (s_jwt_algorithm (e_settings ev))"

definition issued_pair :: "env \<Rightarrow> crypto \<Rightarrow> string \<Rightarrow> user \<Rightarrow> nat \<Rightarrow> token_pair" where
  "issued_pair ev cr k u n =
     \<lparr>tp_access_token = issued ev cr k u ACCESS n, tp_refresh_token = issued ev cr k u REFRESH (n + 2)\<rparr>"

lemma token_pair_run:
  assumes "s_jwt_secret_key (e_settings ev) = Some k"
  shows "token_pair_for ev cr u w = (Inr (issued_pair ev cr k u (tick w)), w\<lparr>tick := tick w + 4\<rparr>)"
  using assms
  by (simp add: token_pair_for_def create_access_token_def create_refresh_token_def run create_token_run
      issued_pair_def issued_def)

text \<open>The account that an address and a password open.\<close>

definition opens :: "crypto \<Rightarrow> string \<Rightarrow> string \<Rightarrow> user list \<Rightarrow> user option" where
  "opens cr email password us =
     (case find (\<lambda>u. u_email u = normalize_email email) us of
        None \<Rightarrow> None
      | Some u \<Rightarrow> if verify_password cr password (u_hashed_password u) \<and> u_status u = US_ACTIVE
                  then Some u else None)"

lemma authenticate_run:
  "authenticate_user cr email password w =
     ((case opens cr email password (users w) of None \<Rightarrow> Inl (Domain InvalidCredentialsError) | Some u \<Rightarrow> Inr u), w)"
  by (simp add: authenticate_user_def get_user_by_email_def run opens_def split: option.split)

lemma record_login_run:
  "record_login ev commit u w =
     (case commit (Suc (tick w)) of
        Some e \<Rightarrow> (Inl e, w\<lparr>tick := tick w + 2\<rparr>)
      | None \<Rightarrow> (let v = u\<lparr>u_last_login_at := Some (e_now ev (tick w))\<rparr> in
          (Inr v, w\<lparr>tick := tick w + 2, users := row_put u_id v (users w)\<rparr>)))"
  by (simp add: record_login_def put_user_def run Let_def split: option.split)

lemma login_run:
  assumes "valid_user_login cr (email, password) = Some (e, p)" and k: "s_jwt_secret_key (e_settings ev) = Some k"
  shows "login ev cr commit (email, password) w =
    (case opens cr e p (users w) of
       None \<Rightarrow> (Inl invalid_credentials, w)
     | Some u \<Rightarrow> (case commit (Suc (tick w)) of
           Some x \<Rightarrow> (Inl (Unhandled x), w\<lparr>tick := tick w + 2\<rparr>)
         | None \<Rightarrow> (let v = u\<lparr>u_last_login_at := Some (e_now ev (tick w))\<rparr> in
             (Inr (issued_pair ev cr k v (tick w + 2)), w\<lparr>tick := tick w + 6, users := row_put u_id v (users w)\<rparr>))))"
  using assms
  by (simp add: login_def run authenticate_run record_login_run token_pair_run to_http_def Let_def
      split: option.split)

text \<open>A token issued for a user proves that user, as the type it was issued for and no other.\<close>

lemma proven_issued:
  assumes laws: "jwt_laws cr" and c: "canonical_uuid (u_id u)"
    and t: "whole_second (e_now ev n) \<le> now"
      "now < whole_second (e_now ev n + (case ty of ACCESS \<Rightarrow> minutes (s_access_token_expire_minutes (e_settings ev))
                   | REFRESH \<Rightarrow> days (s_refresh_token_expire_days (e_settings ev))))"
  shows "proven_subject ev cr k ty now (issued ev cr k u ty n) = Inr (u_id u)"
proof -
  let ?d = "case ty of ACCESS \<Rightarrow> minutes (s_access_token_expire_minutes (e_settings ev))
                   | REFRESH \<Rightarrow> days (s_refresh_token_expire_days (e_settings ev))"
  let ?p = "token_payload (u_id u) (user_role_value (u_role u)) ty (e_now ev n) ?d (e_uuid ev (Suc n))"
  have "distinct (map fst ?p)" "acceptable now ?p REQUIRED_CLAIMS"
    using t by (simp_all add: token_payload_def acceptable_def REQUIRED_CLAIMS_def)
  then have "cr_decode cr now (issued ev cr k u ty n) k [s_jwt_algorithm (e_settings ev)] REQUIRED_CLAIMS
      = Inr (map (map_prod id claim_json) ?p)"
    using laws unfolding jwt_laws_def issued_def by auto
  then show ?thesis
    using parse_uuid_canonical [OF c]
    by (simp add: proven_subject_def token_payload_def dict_get_def subject_of_def py_str_def)
qed

lemma issued_other_type:
  assumes laws: "jwt_laws cr" and ty: "ty \<noteq> ty'"
  shows "\<exists>m. proven_subject ev cr k ty' now (issued ev cr k u ty n) = Inl (token_error m)"
proof -
  let ?d = "case ty of ACCESS \<Rightarrow> minutes (s_access_token_expire_minutes (e_settings ev))
                   | REFRESH \<Rightarrow> days (s_refresh_token_expire_days (e_settings ev))"
  let ?p = "token_payload (u_id u) (user_role_value (u_role u)) ty (e_now ev n) ?d (e_uuid ev (Suc n))"
  have "distinct (map fst ?p)" by (simp add: token_payload_def)
  with laws consider
      "cr_decode cr now (issued ev cr k u ty n) k [s_jwt_algorithm (e_settings ev)] REQUIRED_CLAIMS
        = Inr (map (map_prod id claim_json) ?p)"
    | m where "cr_decode cr now (issued ev cr k u ty n) k [s_jwt_algorithm (e_settings ev)] REQUIRED_CLAIMS = Inl m"
    unfolding jwt_laws_def issued_def by metis
  then show ?thesis
  proof cases
    case 1
    then show ?thesis using ty by (auto simp: proven_subject_def token_payload_def dict_get_def)
  next
    case 2
    then show ?thesis by (auto simp: proven_subject_def)
  qed
qed

lemma token_subject:
  "proven_subject ev cr k ty now tok = Inr uid \<longleftrightarrow>
     (\<exists>p. cr_decode cr now tok k [s_jwt_algorithm (e_settings ev)] REQUIRED_CLAIMS = Inr p
        \<and> dict_get p ''type'' = JStr (token_type_value ty) \<and> subject_of p = Inr uid)"
  by (auto simp: proven_subject_def split: sum.splits if_splits)

section \<open>Accounts over sequences of requests\<close>

lemma map_row_put_same:
  "row_get key (key r) t = Some s \<Longrightarrow> f r = f s \<Longrightarrow> map f (row_put key r t) = map f t"
  by (induction t) (auto split: if_splits)

definition accounts_ok :: "user list \<Rightarrow> bool" where
  "accounts_ok us \<longleftrightarrow> distinct (map u_id us) \<and> distinct (map u_email us)"

text \<open>
  From one account table to a later one: every account is still there with nothing but its last login
  changed, and every other account is a new one with the least role.
\<close>

definition only_logins :: "user \<Rightarrow> user \<Rightarrow> bool" where
  "only_logins u v \<longleftrightarrow> v\<lparr>u_last_login_at := None\<rparr> = u\<lparr>u_last_login_at := None\<rparr>"

definition accounts_grow :: "user list \<Rightarrow> user list \<Rightarrow> bool" where
  "accounts_grow us us' \<longleftrightarrow>
     (\<forall>u\<in>set us. \<exists>v\<in>set us'. only_logins u v)
   \<and> (\<forall>v\<in>set us'. (\<exists>u\<in>set us. only_logins u v) \<or> (u_role v = VIEWER \<and> u_id v \<notin> u_id ` set us))"

lemma only_logins_id: "only_logins u v \<Longrightarrow> u_id v = u_id u \<and> u_role v = u_role u"
  by (cases u; cases v) (auto simp: only_logins_def)

lemma only_logins_refl [simp]: "only_logins u u"
  by (simp add: only_logins_def)

lemma only_logins_trans: "only_logins u v \<Longrightarrow> only_logins v x \<Longrightarrow> only_logins u x"
  by (simp add: only_logins_def)

lemma accounts_grow_refl [simp]: "accounts_grow us us"
  unfolding accounts_grow_def using only_logins_refl by blast

lemma accounts_growD:
  "accounts_grow us vs \<Longrightarrow> u \<in> set us \<Longrightarrow> \<exists>v\<in>set vs. only_logins u v"
  "accounts_grow us vs \<Longrightarrow> v \<in> set vs \<Longrightarrow>
     (\<exists>u\<in>set us. only_logins u v) \<or> (u_role v = VIEWER \<and> u_id v \<notin> u_id ` set us)"
  by (simp_all add: accounts_grow_def)

lemma accounts_grow_trans:
  assumes a: "accounts_grow us vs" and b: "accounts_grow vs ws"
  shows "accounts_grow us ws"
  unfolding accounts_grow_def
proof (intro conjI ballI)
  fix u assume "u \<in> set us"
  then obtain v where "v \<in> set vs" "only_logins u v" using accounts_growD(1) [OF a] by blast
  moreover then obtain x where "x \<in> set ws" "only_logins v x" using accounts_growD(1) [OF b] by blast
  ultimately show "\<exists>x\<in>set ws. only_logins u x" using only_logins_trans [of u v x] by blast
next
  fix x assume "x \<in> set ws"
  then consider v where "v \<in> set vs" "only_logins v x" | "u_role x = VIEWER" "u_id x \<notin> u_id ` set vs"
    using accounts_growD(2) [OF b] by blast
  then show "(\<exists>u\<in>set us. only_logins u x) \<or> (u_role x = VIEWER \<and> u_id x \<notin> u_id ` set us)"
  proof cases
    case 1
    from 1(1) consider u where "u \<in> set us" "only_logins u v" | "u_role v = VIEWER" "u_id v \<notin> u_id ` set us"
      using accounts_growD(2) [OF a] by blast
    then show ?thesis
    proof cases
      case old: 1
      then show ?thesis using only_logins_trans [OF old(2) 1(2)] by blast
    next
      case 2
      then show ?thesis using only_logins_id [OF 1(2)] by simp
    qed
  next
    case 2
    have "u_id u \<in> u_id ` set vs" if m: "u \<in> set us" for u
    proof -
      obtain v where v: "v \<in> set vs" "only_logins u v" using accounts_growD(1) [OF a m] by blast
      have "u_id v \<in> u_id ` set vs" using v(1) by (rule imageI)
      then show ?thesis using only_logins_id [OF v(2)] by simp
    qed
    with 2 show ?thesis by auto
  qed
qed

lemma accounts_new:
  assumes "accounts_ok us" "u_id u \<notin> u_id ` set us" "u_email u \<notin> u_email ` set us" "u_role u = VIEWER"
  shows "accounts_ok (row_put u_id u us) \<and> accounts_grow us (row_put u_id u us)"
proof -
  have "accounts_grow us (us @ [u])"
    unfolding accounts_grow_def using assms(2,4) only_logins_refl by fastforce
  with assms show ?thesis by (auto simp: row_put_fresh accounts_ok_def)
qed

lemma accounts_login:
  assumes ok: "accounts_ok us" and u: "u \<in> set us"
  shows "accounts_ok (row_put u_id (u\<lparr>u_last_login_at := t\<rparr>) us)
    \<and> accounts_grow us (row_put u_id (u\<lparr>u_last_login_at := t\<rparr>) us)"
proof -
  let ?v = "u\<lparr>u_last_login_at := t\<rparr>"
  have d: "distinct (map u_id us)" using ok by (simp add: accounts_ok_def)
  have g: "row_get u_id (u_id ?v) us = Some u" using row_get_mem [OF d u] by simp
  have "map u_id (row_put u_id ?v us) = map u_id us" "map u_email (row_put u_id ?v us) = map u_email us"
    by (rule map_row_put_same [OF g]; simp)+
  moreover have l: "only_logins u ?v" by (simp add: only_logins_def)
  moreover have "accounts_grow us (row_put u_id ?v us)"
    unfolding accounts_grow_def
  proof (intro conjI ballI)
    fix x assume x: "x \<in> set us"
    show "\<exists>v\<in>set (row_put u_id ?v us). only_logins x v"
    proof (cases "u_id x = u_id u")
      case True
      then have "x = u" using d x u by (metis row_get_mem option.inject)
      with l show ?thesis using row_put_mem [of ?v u_id us] by blast
    next
      case False
      with x have "x \<in> set (row_put u_id ?v us)" using mem_row_put [OF d, of x ?v] by auto
      then show ?thesis using only_logins_refl by blast
    qed
  next
    fix v assume "v \<in> set (row_put u_id ?v us)"
    then have "v = ?v \<or> v \<in> set us" using mem_row_put [OF d, of v ?v] by blast
    with l u show "(\<exists>x\<in>set us. only_logins x v) \<or> (u_role v = VIEWER \<and> u_id v \<notin> u_id ` set us)"
      using only_logins_refl by blast
  qed
  ultimately show ?thesis using ok by (simp add: accounts_ok_def)
qed

datatype auth_request = Register user_register | Login string string | Refresh string | Me string

fun auth_step :: "env \<Rightarrow> crypto \<Rightarrow> (nat \<Rightarrow> exn option) \<Rightarrow> auth_request \<Rightarrow> world \<Rightarrow> world" where
  "auth_step ev cr commit (Register data) w = snd (register ev cr commit data w)"
| "auth_step ev cr commit (Login email password) w = snd (login ev cr commit (email, password) w)"
| "auth_step ev cr commit (Refresh token) w = snd (refresh ev cr token w)"
| "auth_step ev cr commit (Me token) w = snd (me ev cr token w)"

lemma register_cases:
  obtains (unchanged) h n where "register ev cr commit data w = (Inl h, w\<lparr>tick := n\<rparr>)"
  | (created) d u n where "register ev cr commit data w = (Inr (user_read_of u), w\<lparr>tick := n, users := row_put u_id u (users w)\<rparr>)"
      "valid_user_register (e_settings ev) cr data = Some d"
      "u = new_user (e_uuid ev (Suc (tick w))) (cr_hash cr (tick w) (ur_password d)) d"
      "u_email u \<notin> u_email ` set (users w)" "u_id u \<notin> u_id ` set (users w)"
proof (cases "valid_user_register (e_settings ev) cr data")
  case None
  then show ?thesis using unchanged [of _ "tick w"] by (simp add: register_def run)
next
  case (Some d)
  let ?u = "new_user (e_uuid ev (Suc (tick w))) (cr_hash cr (tick w) (ur_password d)) d"
  let ?w = "w\<lparr>tick := tick w + 3\<rparr>"
  have reg: "register_user ev cr commit d w =
    (case (if list_ex (\<lambda>v. u_email v = u_email ?u) (users w) then Some (unique_violation ''ix_users_email'')
           else if list_ex (\<lambda>v. u_id v = u_id ?u) (users w) then Some (unique_violation ''pk_users'')
           else commit (Suc (Suc (tick w)))) of
       Some e \<Rightarrow> (Inl (if email_conflict e then Domain (DuplicateEmailError (ur_email d)) else e), ?w)
     | None \<Rightarrow> (Inr ?u, ?w\<lparr>users := row_put u_id ?u (users w)\<rparr>))"
    by (simp add: register_user_def hash_password_def run commit_user_def put_user_def seqM_def catchM_def
        bindM_def Let_def raise_def modifyM_def ret_def getM_def readM_def
        split: option.split)
  show ?thesis
  proof (cases "register_user ev cr commit d w")
    case (Pair r w')
    show ?thesis
    proof (cases r)
      case (Inl e)
      with Pair reg have "w' = ?w" by (auto split: option.splits if_splits)
      then show ?thesis using unchanged [of _ "tick w + 3"] Pair Inl Some by (simp add: register_def run)
    next
      case (Inr u)
      with Pair reg have "u = ?u \<and> w' = ?w\<lparr>users := row_put u_id ?u (users w)\<rparr>
          \<and> \<not> list_ex (\<lambda>v. u_email v = u_email ?u) (users w) \<and> \<not> list_ex (\<lambda>v. u_id v = u_id ?u) (users w)"
        by (auto split: option.splits if_splits)
      moreover from this have "u_email ?u \<notin> u_email ` set (users w)" "u_id ?u \<notin> u_id ` set (users w)"
        unfolding list_ex_iff by (blast dest: sym)+
      ultimately show ?thesis using created [of ?u "tick w + 3" d] Pair Inr Some
        by (simp add: register_def run)
    qed
  qed
qed

lemma reads_only_token_pair: "reads_only (token_pair_for ev cr u)"
  unfolding token_pair_for_def create_access_token_def create_refresh_token_def create_token_def
  by (intro reads_only_bindM reads_only_basic)

lemma reads_only_refresh: "reads_only (refresh ev cr token)"
  unfolding refresh_def
  by (auto intro!: reads_only_bindM reads_only_handle reads_only_decode reads_only_user reads_only_token_pair)

lemma reads_only_me: "reads_only (me ev cr token)"
  unfolding me_def by (rule signed_in.guarded_reads_only) simp

lemma login_cases:
  obtains (unchanged) r n where "login ev cr commit p w = (r, w\<lparr>tick := n\<rparr>)"
  | (logged) r n u t where "login ev cr commit p w
        = (r, w\<lparr>tick := n, users := row_put u_id (u\<lparr>u_last_login_at := Some t\<rparr>) (users w)\<rparr>)"
      "u \<in> set (users w)"
proof (cases "valid_user_login cr p")
  case None
  then show ?thesis using unchanged [of _ "tick w"] by (simp add: login_def run)
next
  case (Some q)
  show ?thesis
  proof (cases "opens cr (fst q) (snd q) (users w)")
    case None
    then show ?thesis using Some unchanged [of _ "tick w"] by (simp add: login_def run authenticate_run)
  next
    case u: (Some u)
    have m: "u \<in> set (users w)"
      using u by (auto simp: opens_def find_Some_iff in_set_conv_nth split: option.splits if_splits)
    let ?v = "u\<lparr>u_last_login_at := Some (e_now ev (tick w))\<rparr>"
    show ?thesis
    proof (cases "commit (Suc (tick w))")
      case c: (Some e)
      then show ?thesis using Some u unchanged [of _ "tick w + 2"]
        by (simp add: login_def run authenticate_run record_login_run)
    next
      case None
      let ?w = "w\<lparr>tick := tick w + 2, users := row_put u_id ?v (users w)\<rparr>"
      obtain r w' where r: "handle (\<lambda>e. None) (token_pair_for ev cr ?v) ?w = (r, w')"
        by (cases "handle (\<lambda>e. None) (token_pair_for ev cr ?v) ?w :: (http_error + token_pair) \<times> world")
      obtain n where n: "w' = ?w\<lparr>tick := n\<rparr>"
        using reads_onlyD [OF reads_only_handle [OF reads_only_token_pair] r] by blast
      have "login ev cr commit p w = (r, ?w\<lparr>tick := n\<rparr>)"
        using Some u None r n by (simp add: login_def run authenticate_run record_login_run Let_def)
      then have "login ev cr commit p w = (r, w\<lparr>tick := n, users := row_put u_id ?v (users w)\<rparr>)" by simp
      then show ?thesis using m by (rule logged)
    qed
  qed
qed

lemma auth_step_accounts:
  assumes ok: "accounts_ok (users w)"
  shows "accounts_ok (users (auth_step ev cr commit r w))
    \<and> accounts_grow (users w) (users (auth_step ev cr commit r w))"
proof (cases r)
  case (Register data)
  then show ?thesis
    using ok accounts_new
    by (cases rule: register_cases [of ev cr commit data w]) (auto simp: new_user_def)
next
  case (Login email password)
  then show ?thesis
    using ok accounts_login [OF ok] by (cases rule: login_cases [of ev cr commit "(email, password)" w]) auto
next
  case (Refresh token)
  then show ?thesis
    using ok reads_only_refresh [of ev cr token] unfolding reads_only_def by (auto dest!: spec [of _ w])
next
  case (Me token)
  then show ?thesis
    using ok reads_only_me [of ev cr token] unfolding reads_only_def by (auto dest!: spec [of _ w])
qed

section \<open>Properties\<close>

text \<open>
  C9: \<open>require_roles\<close> admits a request exactly if its token decodes under the server's secret and
  algorithm, is an access token, and its subject is the identifier of an account that is in the database
  now, is active and has an allowed role; the role claim of the token plays no part. Every other request
  is answered 401 or 403, and the check writes nothing.
\<close>

theorem authorization_is_enforced:
  assumes secret: "s_jwt_secret_key (e_settings ev) = Some k"
  shows "(require_roles allowed ev cr tok w = (Inr u, w') \<longleftrightarrow>
      w' = w\<lparr>tick := Suc (tick w)\<rparr> \<and> row_get u_id (u_id u) (users w) = Some u
      \<and> u_status u = US_ACTIVE \<and> u_role u \<in> allowed
      \<and> (\<exists>p v. cr_decode cr (e_now ev (tick w)) tok k [s_jwt_algorithm (e_settings ev)] REQUIRED_CLAIMS = Inr p
           \<and> dict_get p ''type'' = JStr ''access'' \<and> map_of p ''sub'' = Some v
           \<and> parse_uuid (py_str v) = Some (u_id u)))
    \<and> (require_roles allowed ev cr tok w = (Inl h, w') \<longrightarrow>
         status_of h \<in> {401, 403} \<and> w' = w\<lparr>tick := Suc (tick w)\<rparr>)"
proof -
  let ?s = "proven_subject ev cr k ACCESS (e_now ev (tick w)) tok"
  have "?s = Inr uid \<longleftrightarrow> (\<exists>p v. cr_decode cr (e_now ev (tick w)) tok k [s_jwt_algorithm (e_settings ev)] REQUIRED_CLAIMS = Inr p
           \<and> dict_get p ''type'' = JStr ''access'' \<and> map_of p ''sub'' = Some v
           \<and> parse_uuid (py_str v) = Some uid)" for uid
    by (auto simp: token_subject subject_of_iff)
  note subject = this [symmetric]
  have key: "row_get u_id uid (users w) = Some x \<Longrightarrow> uid = u_id x" for uid x
    using row_get_SomeD by metis
  show ?thesis
    unfolding roles_run [OF secret] subject
    by (auto simp: credentials_error_def split: sum.splits option.splits if_splits dest: key)
qed

definition auth_env :: env where
  "auth_env = demo_env\<lparr>e_settings := default_settings\<lparr>s_jwt_secret_key := Some ''k''\<rparr>\<rparr>"

definition operator :: user where
  "operator = \<lparr>u_id = ''00000000-0000-4000-8000-000000000001'', u_email = ''op@example.com'',
     u_hashed_password = ''$secret-word-1'', u_full_name = ''Op'', u_role = OPERATOR, u_status = US_ACTIVE,
     u_is_verified = False, u_last_login_at = None\<rparr>"

definition staff_world :: world where
  "staff_world = empty_world\<lparr>users := [operator], tick := 9\<rparr>"

lemma operator_canonical: "canonical_uuid (u_id operator)"
  by (simp add: operator_def canonical_uuid_def uuid_text_def lower_hex_def Let_def)

lemma auth_env_fields [simp]:
  "s_jwt_secret_key (e_settings auth_env) = Some ''k''"
  "s_jwt_algorithm (e_settings auth_env) = ''HS256''"
  "e_now auth_env n = int n * 1000000"
  "s_access_token_expire_minutes (e_settings auth_env) = 15"
  "s_refresh_token_expire_days (e_settings auth_env) = 30"
  by (simp_all add: auth_env_def demo_env_def default_settings_def)

theorem authorization_is_enforced_witness:
  "require_roles {OPERATOR, ADMIN} auth_env demo_crypto (issued auth_env demo_crypto ''k'' operator ACCESS 3) staff_world
     = (Inr operator, staff_world\<lparr>tick := 10\<rparr>)"
proof -
  have "proven_subject auth_env demo_crypto ''k'' ACCESS 9000000 (issued auth_env demo_crypto ''k'' operator ACCESS 3)
      = Inr (u_id operator)"
    by (rule proven_issued [OF demo_jwt_laws operator_canonical]) (simp_all add: whole_second_def minutes_def)
  then have "\<exists>p v. cr_decode demo_crypto 9000000 (issued auth_env demo_crypto ''k'' operator ACCESS 3) ''k'' [''HS256''] REQUIRED_CLAIMS = Inr p
      \<and> dict_get p ''type'' = JStr ''access'' \<and> map_of p ''sub'' = Some v \<and> parse_uuid (py_str v) = Some (u_id operator)"
    by (auto simp: token_subject subject_of_iff)
  then show ?thesis
    using authorization_is_enforced [of auth_env "''k''" "{OPERATOR, ADMIN}" demo_crypto _ staff_world operator]
    by (simp add: staff_world_def operator_def)
qed

lemma whole_second_le: "whole_second t \<le> t"
proof -
  have "t div 1000000 * 1000000 + t mod 1000000 = t" by (rule div_mult_mod_eq)
  then show ?thesis unfolding whole_second_def using pos_mod_sign [of 1000000 t] by linarith
qed

lemma refresh_run:
  assumes k: "s_jwt_secret_key (e_settings ev) = Some k" and ne: "tok \<noteq> []"
    and s: "proven_subject ev cr k REFRESH (e_now ev (tick v)) tok = s"
  shows "(\<exists>m. s = Inl (token_error m)) \<Longrightarrow> refresh ev cr tok v = (Inl invalid_refresh, v\<lparr>tick := Suc (tick v)\<rparr>)"
    and "s = Inr uid \<Longrightarrow> row_get u_id uid (users v) = Some u \<Longrightarrow> u_status u = US_ACTIVE \<Longrightarrow>
      refresh ev cr tok v = (Inr (issued_pair ev cr k u (Suc (tick v))), v\<lparr>tick := tick v + 5\<rparr>)"
proof -
  let ?d = "cr_decode cr (e_now ev (tick v)) tok k [s_jwt_algorithm (e_settings ev)] REQUIRED_CLAIMS"
  let ?v = "v\<lparr>tick := Suc (tick v)\<rparr>"
  have d: "decode_token ev cr tok REFRESH v = (case ?d of
      Inl _ \<Rightarrow> (Inl (token_error ''invalid or expired token''), ?v)
    | Inr p \<Rightarrow> if dict_get p ''type'' \<noteq> JStr ''refresh'' then (Inl (token_error ''expected a refresh token''), ?v)
               else (Inr p, ?v))"
    using k by (simp add: decode_token_def jwt_secret_cases run split: sum.split)
  have t: "to_http (\<lambda>e. if python_error {''TokenError''} e then Some invalid_refresh else None) (token_error m)
      = invalid_refresh" for m by (simp add: to_http_def python_error_def token_error_def)
  show "refresh ev cr tok v = (Inl invalid_refresh, ?v)" if "\<exists>m. s = Inl (token_error m)"
  proof -
    have "\<nexists>p. ?d = Inr p \<and> dict_get p ''type'' = JStr ''refresh''"
    proof
      assume "\<exists>p. ?d = Inr p \<and> dict_get p ''type'' = JStr ''refresh''"
      then obtain p where "?d = Inr p" "dict_get p ''type'' = JStr ''refresh''" by blast
      then have "subject_of p = s" using s by (simp add: proven_subject_def)
      with that show False by (auto simp: subject_of_def token_error_def split: option.splits)
    qed
    then have "\<exists>m. decode_token ev cr tok REFRESH v = (Inl (token_error m), ?v)"
      unfolding d by (cases ?d) (simp_all, blast+)
    then obtain m where "decode_token ev cr tok REFRESH v = (Inl (token_error m), ?v)" ..
    then have "handle (\<lambda>e. if python_error {''TokenError''} e then Some invalid_refresh else None)
        (decode_token ev cr tok REFRESH) v = (Inl invalid_refresh, ?v)"
      by (simp only: handle_run(2) t)
    then show ?thesis using ne by (simp add: refresh_def validated_run bindM_fail)
  qed
  show "refresh ev cr tok v = (Inr (issued_pair ev cr k u (Suc (tick v))), v\<lparr>tick := tick v + 5\<rparr>)"
    if "s = Inr uid" "row_get u_id uid (users v) = Some u" "u_status u = US_ACTIVE"
  proof -
    obtain p where "?d = Inr p" "dict_get p ''type'' = JStr ''refresh''" "subject_of p = Inr uid"
      using s \<open>s = Inr uid\<close> by (auto simp: token_subject)
    then show ?thesis
      using d ne that(2,3) by (simp add: refresh_def run token_pair_run [OF k])
  qed
qed


definition demo_login :: "(http_error + token_pair) \<times> world" where
  "demo_login = login auth_env demo_crypto (\<lambda>_. None) (''op@example.com'', ''secret-word-1'') staff_world"

lemma demo_login_returns: "\<exists>pair. fst demo_login = Inr pair"
proof -
  have v: "valid_user_login demo_crypto (''op@example.com'', ''secret-word-1'') = Some (''op@example.com'', ''secret-word-1'')"
    by (simp add: valid_user_login_def demo_crypto_def text_field_def)
  have "normalize_email ''op@example.com'' = ''op@example.com''"
    by (simp add: normalize_email_def strip_def py_space_def lower_char_def)
  then have "opens demo_crypto ''op@example.com'' ''secret-word-1'' (users staff_world) = Some operator"
    by (simp add: opens_def staff_world_def operator_def verify_password_def demo_crypto_def)
  then show ?thesis
    unfolding demo_login_def login_run [OF v auth_env_fields(1)] by (simp add: Let_def)
qed


text \<open>
  C27: No sequence of requests to the authentication endpoints breaks the account table: identifiers and
  e-mail addresses stay unique, every account stays what it was except for its last login, and an account
  that appears has the least role.
\<close>

theorem auth_requests_keep_accounts:
  assumes "accounts_ok (users w)"
  shows "accounts_ok (users (fold (auth_step ev cr commit) requests w))
    \<and> accounts_grow (users w) (users (fold (auth_step ev cr commit) requests w))"
  using assms
proof (induction requests arbitrary: w)
  case (Cons r rs)
  then show ?case
    using auth_step_accounts [OF Cons.prems, of ev cr commit r] accounts_grow_trans by fastforce
qed simp

theorem auth_requests_keep_accounts_witness:
  "accounts_grow (users staff_world)
     (users (fold (auth_step auth_env demo_crypto (\<lambda>_. None))
        [Register \<lparr>ur_email = ''new@example.com'', ur_password = ''secret-word-2'', ur_full_name = ''New''\<rparr>,
         Login ''op@example.com'' ''secret-word-1''] staff_world))"
  using auth_requests_keep_accounts [of staff_world]
  by (simp add: staff_world_def accounts_ok_def del: fold.simps auth_step.simps)

end
