(* ===== verification/Products.thy ===== *)
theory Products
  imports Auth
begin

text \<open>
  The product catalog: \<open>app/schemas/product.py\<close>, \<open>app/services/product_service.py\<close> and the endpoints of
  \<open>app/api/v1/products.py\<close>, with the constraints of the \<open>products\<close> table that a commit can violate.
\<close>

section \<open>Requests\<close>

record product_create =
  pc_slug :: string
  pc_title :: string
  pc_description :: "string option"
  pc_type :: product_type
  pc_price_cents :: int
  pc_currency :: string
  pc_metadata :: jdict

text \<open>
  A field of a partial update: \<open>None\<close> when the client left it out, \<open>Some None\<close> when it sent \<open>null\<close>.
\<close>

record product_update =
  pu_title :: "string option option"
  pu_description :: "string option option"
  pu_status :: "product_status option option"
  pu_price_cents :: "int option option"
  pu_currency :: "string option option"
  pu_metadata :: "jdict option option"

definition slug_char :: "char \<Rightarrow> bool" where
  "slug_char c = (let n = of_char c :: nat in (97 \<le> n \<and> n \<le> 122) \<or> (48 \<le> n \<and> n \<le> 57))"

text \<open>The pattern \<open>^[a-z0-9]+(-[a-z0-9]+)*$\<close>.\<close>

definition slug_pattern :: "string \<Rightarrow> bool" where
  "slug_pattern s \<longleftrightarrow> list_all (\<lambda>p. p \<noteq> [] \<and> list_all slug_char p) (split_on CHR ''-'' s)"

definition upper_char :: "char \<Rightarrow> bool" where
  "upper_char c = (let n = of_char c :: nat in (65 \<le> n \<and> n \<le> 90) \<or> (192 \<le> n \<and> n \<le> 222 \<and> n \<noteq> 215))"

text \<open>\<open>v.isalpha() and v.isupper()\<close>: on letters below 256 the second says that every one is a capital.\<close>

definition currency_code :: "string \<Rightarrow> bool" where
  "currency_code v \<longleftrightarrow> is_alpha v \<and> list_all upper_char v"

definition opt_field :: "('a \<Rightarrow> bool) \<Rightarrow> 'a option option \<Rightarrow> bool" where
  "opt_field ok f = (case f of Some (Some x) \<Rightarrow> ok x | _ \<Rightarrow> True)"

definition valid_product_create :: "product_create \<Rightarrow> bool" where
  "valid_product_create d \<longleftrightarrow>
     text_field 1 255 (pc_slug d) \<and> slug_pattern (pc_slug d) \<and> text_field 1 255 (pc_title d)
     \<and> opt_field (text_field 0 10000) (Some (pc_description d)) \<and> 0 \<le> pc_price_cents d
     \<and> text_field 3 3 (pc_currency d) \<and> currency_code (pc_currency d)"

definition valid_product_update :: "product_update \<Rightarrow> bool" where
  "valid_product_update d \<longleftrightarrow>
     opt_field (text_field 1 255) (pu_title d) \<and> opt_field (text_field 0 10000) (pu_description d)
     \<and> opt_field (\<lambda>n. 0 \<le> n) (pu_price_cents d)
     \<and> opt_field (\<lambda>c. text_field 3 3 c \<and> currency_code c) (pu_currency d)"


section \<open>app/services/product_service.py\<close>

definition put_product :: "product \<Rightarrow> unit app" where
  "put_product p = modifyM (\<lambda>w. w\<lparr>products := row_put p_id p (products w)\<rparr>)"

text \<open>
  What the database refuses of a row: a price that does not fit the 32-bit column (\<open>Integer\<close>, rejected
  when the parameter is bound), a slug or identifier that another row has.
\<close>

definition int32_error :: exn where
  "int32_error = PyExc ''DBAPIError'' ''invalid input for query argument: value out of int32 range''"

definition fits_int32 :: "int \<Rightarrow> bool" where
  "fits_int32 n \<longleftrightarrow> - 2147483648 \<le> n \<and> n \<le> 2147483647"

definition create_conflict :: "product \<Rightarrow> product list \<Rightarrow> exn option" where
  "create_conflict p ps =
     (if \<not> fits_int32 (p_price_cents p) then Some int32_error
      else if list_ex (\<lambda>q. p_slug q = p_slug p) ps then Some (unique_violation ''ix_products_slug'')
      else if list_ex (\<lambda>q. p_id q = p_id p) ps then Some (unique_violation ''pk_products'') else None)"

definition new_product :: "uuid \<Rightarrow> product_create \<Rightarrow> time \<Rightarrow> product" where
  "new_product pid d now =
     \<lparr>p_id = pid, p_slug = pc_slug d, p_title = pc_title d, p_description = pc_description d,
      p_type = pc_type d, p_status = PS_DRAFT, p_version = ''v1.0'', p_price_cents = pc_price_cents d,
      p_currency = pc_currency d, p_metadata = JObj (pc_metadata d), p_created_at = now\<rparr>"

definition slug_conflict :: "exn \<Rightarrow> bool" where
  "slug_conflict e \<longleftrightarrow> is_integrity_error e
     \<and> (contains_text ''ix_products_slug'' (exn_str e) \<or> contains_text ''products_slug'' (exn_str e))"

definition create_product :: "env \<Rightarrow> (nat \<Rightarrow> exn option) \<Rightarrow> product_create \<Rightarrow> product app" where
  "create_product ev commit d =
     bindM (readM (e_uuid ev)) (\<lambda>pid. bindM (readM (e_now ev)) (\<lambda>now. bindM (readM commit) (\<lambda>r.
     let p = new_product pid d now in
     bindM (getM products) (\<lambda>ps.
     case (case create_conflict p ps of Some e \<Rightarrow> Some e | None \<Rightarrow> r) of
       Some e \<Rightarrow> raise (if slug_conflict e then Domain (DuplicateSlugError (pc_slug d)) else e)
     | None \<Rightarrow> seqM (put_product p) (ret p)))))"

definition get_product :: "uuid \<Rightarrow> product app" where
  "get_product pid =
     bindM (getM (\<lambda>w. row_get p_id pid (products w))) (\<lambda>r. case r of
         None \<Rightarrow> raise (Domain (ProductNotFoundError pid)) | Some p \<Rightarrow> ret p)"

definition list_products :: "int \<Rightarrow> int \<Rightarrow> (product list \<times> nat) app" where
  "list_products limit offset =
     getM (\<lambda>w. (page_of limit offset (order_by (\<lambda>p. - p_created_at p) (products w)), length (products w)))"

text \<open>
  Assigning the fields the client sent. \<open>null\<close> in a column that is \<open>NOT NULL\<close> is refused by the
  database (\<open>Inl\<close>: the column); the JSON column stores it as the JSON value \<open>null\<close>.
\<close>

definition assign :: "string \<Rightarrow> 'a option option \<Rightarrow> ('a \<Rightarrow> product \<Rightarrow> product) \<Rightarrow> product \<Rightarrow> string + product" where
  "assign column f upd p = (case f of
       None \<Rightarrow> Inr p | Some None \<Rightarrow> Inl column | Some (Some x) \<Rightarrow> Inr (upd x p))"

definition apply_update :: "product_update \<Rightarrow> product \<Rightarrow> string + product" where
  "apply_update d p =
     bindE (assign ''title'' (pu_title d) (\<lambda>x q. q\<lparr>p_title := x\<rparr>) p) (\<lambda>p.
     bindE (assign ''status'' (pu_status d) (\<lambda>x q. q\<lparr>p_status := x\<rparr>) p) (\<lambda>p.
     bindE (assign ''price_cents'' (pu_price_cents d) (\<lambda>x q. q\<lparr>p_price_cents := x\<rparr>) p) (\<lambda>p.
     bindE (assign ''currency'' (pu_currency d) (\<lambda>x q. q\<lparr>p_currency := x\<rparr>) p) (\<lambda>p.
     Inr (p\<lparr>p_description := (case pu_description d of None \<Rightarrow> p_description p | Some x \<Rightarrow> x),
            p_metadata := (case pu_metadata d of None \<Rightarrow> p_metadata p | Some None \<Rightarrow> JNull
                             | Some (Some m) \<Rightarrow> JObj m)\<rparr>)))))"

definition not_null_violation :: "string \<Rightarrow> exn" where
  "not_null_violation column =
     PyExc ''IntegrityError'' (''null value in column '' @ repr_str column @ '' violates not-null constraint'')"

definition update_conflict :: "product_update \<Rightarrow> string + product \<Rightarrow> exn option" where
  "update_conflict d r =
     (if \<not> opt_field fits_int32 (pu_price_cents d) then Some int32_error
      else (case r of Inl column \<Rightarrow> Some (not_null_violation column) | Inr _ \<Rightarrow> None))"

definition update_product :: "(nat \<Rightarrow> exn option) \<Rightarrow> uuid \<Rightarrow> product_update \<Rightarrow> product app" where
  "update_product commit pid d =
     bindM (get_product pid) (\<lambda>p. bindM (readM commit) (\<lambda>r.
     let q = apply_update d p in
     case (case update_conflict d q of Some e \<Rightarrow> Some e | None \<Rightarrow> r) of
       Some e \<Rightarrow> raise e
     | None \<Rightarrow> seqM (put_product (projr q)) (ret (projr q))))"


section \<open>app/api/v1/products.py\<close>

text \<open>
  The read schema has the row's columns; its metadata must be an object, or building the response
  raises.
\<close>

definition product_read :: "product \<Rightarrow> exn + product" where
  "product_read p = (case p_metadata p of
       JObj _ \<Rightarrow> Inr p
     | _ \<Rightarrow> Inl (PyExc ''ValidationError'' ''1 validation error for ProductRead: metadata_json''))"

record 'a page =
  pg_items :: "'a list"
  pg_total :: nat
  pg_limit :: int
  pg_offset :: int

definition can_write :: "user_role set" where
  "can_write = {OPERATOR, ADMIN}"

definition can_read :: "user_role set" where
  "can_read = {VIEWER, OPERATOR, ADMIN}"

definition checked :: "('a \<Rightarrow> bool) \<Rightarrow> 'a \<Rightarrow> ('w, http_error, 'a) m" where
  "checked ok x = validated (if ok x then Some x else None)"

definition paging :: "int \<Rightarrow> int \<Rightarrow> ('w, http_error, int \<times> int) m" where
  "paging limit offset = checked (\<lambda>(l, f). 1 \<le> l \<and> l \<le> 100 \<and> 0 \<le> f) (limit, offset)"

definition unmapped :: "exn \<Rightarrow> http_error option" where
  "unmapped e = None"

definition product_not_found :: "exn \<Rightarrow> http_error option" where
  "product_not_found e = (case e of Domain (ProductNotFoundError _) \<Rightarrow> Some (HTTPException 404 (exn_str e)) | _ \<Rightarrow> None)"

definition duplicate_slug :: "exn \<Rightarrow> http_error option" where
  "duplicate_slug e = (case e of Domain (DuplicateSlugError _) \<Rightarrow> Some (HTTPException 409 (exn_str e)) | _ \<Rightarrow> None)"

definition post_product :: "env \<Rightarrow> crypto \<Rightarrow> (nat \<Rightarrow> exn option) \<Rightarrow> string \<Rightarrow> product_create \<Rightarrow> product endpoint" where
  "post_product ev cr commit token payload =
     bindM (require_roles can_write ev cr token) (\<lambda>_.
     bindM (checked valid_product_create payload) (\<lambda>d.
     bindM (handle duplicate_slug (create_product ev commit d)) (\<lambda>p.
     handle unmapped (liftE (product_read p)))))"

definition read_product :: "env \<Rightarrow> crypto \<Rightarrow> string \<Rightarrow> uuid \<Rightarrow> product endpoint" where
  "read_product ev cr token pid =
     bindM (require_roles can_read ev cr token) (\<lambda>_.
     bindM (handle product_not_found (get_product pid)) (\<lambda>p.
     handle unmapped (liftE (product_read p))))"

definition read_products :: "env \<Rightarrow> crypto \<Rightarrow> string \<Rightarrow> int \<Rightarrow> int \<Rightarrow> product page endpoint" where
  "read_products ev cr token limit offset =
     bindM (require_roles can_read ev cr token) (\<lambda>_.
     bindM (paging limit offset) (\<lambda>_.
     bindM (handle unmapped (list_products limit offset)) (\<lambda>(items, total).
     bindM (handle unmapped (liftE (mapE product_read items))) (\<lambda>rs.
     ret \<lparr>pg_items = rs, pg_total = total, pg_limit = limit, pg_offset = offset\<rparr>))))"

definition patch_product ::
  "env \<Rightarrow> crypto \<Rightarrow> (nat \<Rightarrow> exn option) \<Rightarrow> string \<Rightarrow> uuid \<Rightarrow> product_update \<Rightarrow> product endpoint" where
  "patch_product ev cr commit token pid payload =
     bindM (require_roles can_write ev cr token) (\<lambda>_.
     bindM (checked valid_product_update payload) (\<lambda>d.
     bindM (handle product_not_found (update_product commit pid d)) (\<lambda>p.
     handle unmapped (liftE (product_read p)))))"

section \<open>The catalog over sequences of requests\<close>

definition product_ok :: "product \<Rightarrow> bool" where
  "product_ok p \<longleftrightarrow> slug_pattern (p_slug p) \<and> text_field 1 255 (p_slug p) \<and> text_field 1 255 (p_title p)
     \<and> 0 \<le> p_price_cents p \<and> fits_int32 (p_price_cents p)
     \<and> text_field 3 3 (p_currency p) \<and> currency_code (p_currency p)"

definition catalog_ok :: "product list \<Rightarrow> bool" where
  "catalog_ok ps \<longleftrightarrow> distinct (map p_id ps) \<and> distinct (map p_slug ps) \<and> list_all product_ok ps"

text \<open>The columns that are fixed when a product is created.\<close>

definition same_product :: "product \<Rightarrow> product \<Rightarrow> bool" where
  "same_product p q \<longleftrightarrow> p_id q = p_id p \<and> p_slug q = p_slug p \<and> p_type q = p_type p
     \<and> p_version q = p_version p \<and> p_created_at q = p_created_at p"

definition catalog_evolves :: "product list \<Rightarrow> product list \<Rightarrow> bool" where
  "catalog_evolves ps qs \<longleftrightarrow> (\<forall>p\<in>set ps. \<exists>q\<in>set qs. same_product p q)"

lemma same_product_refl [simp]: "same_product p p"
  by (simp add: same_product_def)

lemma catalog_evolves_refl [simp]: "catalog_evolves ps ps"
  unfolding catalog_evolves_def using same_product_refl by blast

lemma catalog_evolves_trans: "catalog_evolves ps qs \<Longrightarrow> catalog_evolves qs rs \<Longrightarrow> catalog_evolves ps rs"
  unfolding catalog_evolves_def same_product_def by metis

lemma catalog_add:
  assumes "catalog_ok ps" "product_ok p" "p_id p \<notin> p_id ` set ps" "p_slug p \<notin> p_slug ` set ps"
  shows "catalog_ok (row_put p_id p ps) \<and> catalog_evolves ps (row_put p_id p ps)"
proof -
  have "catalog_evolves ps (ps @ [p])"
    unfolding catalog_evolves_def 
  proof
    fix x assume "x \<in> set ps"
    then show "\<exists>q\<in>set (ps @ [p]). same_product x q" by (intro bexI [of _ x]) simp_all
  qed
  with assms show ?thesis by (auto simp: row_put_fresh catalog_ok_def)
qed

lemma catalog_change:
  assumes ok: "catalog_ok ps" and p: "row_get p_id pid ps = Some p" and q: "product_ok q" "same_product p q"
  shows "catalog_ok (row_put p_id q ps) \<and> catalog_evolves ps (row_put p_id q ps)"
proof -
  have d: "distinct (map p_id ps)" using ok by (simp add: catalog_ok_def)
  have pid: "p_id p = pid" "p \<in> set ps" using row_get_SomeD [OF p] by auto
  have g: "row_get p_id (p_id q) ps = Some p" using p pid q(2) by (simp add: same_product_def)
  have "map p_id (row_put p_id q ps) = map p_id ps" "map p_slug (row_put p_id q ps) = map p_slug ps"
    by (rule map_row_put_same [OF g]; use q(2) in \<open>simp add: same_product_def\<close>)+
  moreover have "list_all product_ok (row_put p_id q ps)"
    using ok q(1) set_row_put [of p_id q ps] by (auto simp: catalog_ok_def list_all_iff)
  moreover have "\<exists>y\<in>set (row_put p_id q ps). same_product x y" if x: "x \<in> set ps" for x
  proof (cases "p_id x = p_id q")
    case True
    then have "row_get p_id (p_id q) ps = Some x" using row_get_mem [OF d x] by simp
    then have "x = p" using g by simp
    then show ?thesis using q(2) row_put_mem [of q p_id ps] by blast
  next
    case False
    then have "x \<in> set (row_put p_id q ps)" using x mem_row_put [OF d] by blast
    then show ?thesis using same_product_refl by blast
  qed
  ultimately show ?thesis using ok by (simp add: catalog_ok_def catalog_evolves_def)
qed

lemma assign_Inr_iff:
  "assign c f upd p = Inr q \<longleftrightarrow> (f = None \<and> q = p) \<or> (\<exists>x. f = Some (Some x) \<and> q = upd x p)"
  by (auto simp: assign_def split: option.splits)

lemma bindE_Inr_iff: "bindE r f = Inr y \<longleftrightarrow> (\<exists>x. r = Inr x \<and> f x = Inr y)"
  by (cases r) simp_all

lemma apply_update_ok:
  assumes ok: "product_ok p" and d: "valid_product_update d" and q: "apply_update d p = Inr q"
    and price: "opt_field fits_int32 (pu_price_cents d)"
  shows "product_ok q \<and> same_product p q"
  using assms
  by (auto simp: apply_update_def bindE_Inr_iff assign_Inr_iff product_ok_def same_product_def
      valid_product_update_def opt_field_def)

lemma create_product_run:
  "create_product ev commit d w =
    (let p = new_product (e_uuid ev (tick w)) d (e_now ev (Suc (tick w))); w' = w\<lparr>tick := tick w + 3\<rparr> in
     case (case create_conflict p (products w) of Some e \<Rightarrow> Some e | None \<Rightarrow> commit (tick w + 2)) of
       Some e \<Rightarrow> (Inl (if slug_conflict e then Domain (DuplicateSlugError (pc_slug d)) else e), w')
     | None \<Rightarrow> (Inr p, w'\<lparr>products := row_put p_id p (products w)\<rparr>))"
  by (simp add: create_product_def run put_product_def Let_def split: option.split)

lemma update_product_run:
  "update_product commit pid d w =
    (case row_get p_id pid (products w) of
       None \<Rightarrow> (Inl (Domain (ProductNotFoundError pid)), w)
     | Some p \<Rightarrow>
         (let q = apply_update d p; w' = w\<lparr>tick := Suc (tick w)\<rparr> in
          case (case update_conflict d q of Some e \<Rightarrow> Some e | None \<Rightarrow> commit (tick w)) of
            Some e \<Rightarrow> (Inl e, w')
          | None \<Rightarrow> (Inr (projr q), w'\<lparr>products := row_put p_id (projr q) (products w)\<rparr>)))"
  by (simp add: update_product_def get_product_def run put_product_def Let_def split: option.split)

lemma create_conflict_None:
  "create_conflict p ps = None \<longleftrightarrow> fits_int32 (p_price_cents p) \<and> p_slug p \<notin> p_slug ` set ps \<and> p_id p \<notin> p_id ` set ps"
proof -
  have ex: "list_ex (\<lambda>q. f q = f p) ps \<longleftrightarrow> f p \<in> f ` set ps" for f :: "product \<Rightarrow> string"
    unfolding list_ex_iff image_iff by metis
  show ?thesis using ex [of p_slug] ex [of p_id] by (simp add: create_conflict_def)
qed

lemma created_product_ok:
  assumes "valid_product_create d" "create_conflict (new_product pid d now) ps = None" "catalog_ok ps"
  shows "catalog_ok (row_put p_id (new_product pid d now) ps)
    \<and> catalog_evolves ps (row_put p_id (new_product pid d now) ps)"
  using assms
  by (intro catalog_add)
    (auto simp: create_conflict_None new_product_def product_ok_def valid_product_create_def)

text \<open>What a request does to the product table, whatever it answers.\<close>

lemma reads_only_product_queries: "reads_only (get_product pid)" "reads_only (list_products l f)"
  by (auto simp: get_product_def list_products_def intro!: reads_only_bindM split: option.splits)

lemma reads_only_checked: "reads_only (checked ok x)" "reads_only (paging l f)"
  by (simp_all add: checked_def paging_def)

lemma reads_only_product_reads:
  "reads_only (read_product ev cr tok pid)" "reads_only (read_products ev cr tok l f)"
  unfolding read_product_def read_products_def
  by (auto intro!: role_guard.guarded_reads_only reads_only_bindM reads_only_handle reads_only_product_queries
      reads_only_checked split: prod.splits)

lemma then_reads_only:
  assumes "\<And>x. reads_only (g x)"
  shows "products (snd (bindM p g w)) = products (snd (p w))"
proof (cases "p w")
  case (Pair r v)
  show ?thesis
  proof (cases r)
    case (Inr x)
    obtain n where "snd (g x v) = v\<lparr>tick := n\<rparr>" using assms [of x] unfolding reads_only_def by blast
    then show ?thesis using Pair Inr by (simp add: bindM_def)
  qed (use Pair in \<open>simp add: bindM_def\<close>)
qed

lemma checked_run [run]:
  "ok x \<Longrightarrow> checked ok x = ret x"
  "\<not> ok x \<Longrightarrow> bindM (checked ok x) f w = (Inl (HTTPException 422 ''validation error''), w)"
  by (simp_all add: checked_def run)

lemma handle_state: "snd (handle f p w) = snd (p w)"
  by (simp add: handle_def split: prod.splits sum.splits)

lemma post_product_catalog:
  assumes ok: "catalog_ok (products w)"
  shows "catalog_ok (products (snd (post_product ev cr commit tok d w)))
    \<and> catalog_evolves (products w) (products (snd (post_product ev cr commit tok d w)))"
proof -
  obtain r w' where run: "post_product ev cr commit tok d w = (r, w')" by (cases "post_product ev cr commit tok d w")
  from run [unfolded post_product_def] show ?thesis
  proof (cases rule: role_guard.guarded_cases)
    case (rejected h n)
    then show ?thesis using ok run by simp
  next
    case (admitted u n)
    show ?thesis
    proof (cases "valid_product_create d")
      case False
      then have "w' = w\<lparr>tick := n\<rparr>" using admitted(2) by (simp add: checked_run(2))
      then show ?thesis using ok run by simp
    next
      case True
      let ?w = "w\<lparr>tick := n\<rparr>"
      have "products w' = products (snd (create_product ev commit d ?w))"
        using admitted(2) True
          then_reads_only [of "\<lambda>p. handle unmapped (liftE (product_read p))" "handle duplicate_slug (create_product ev commit d)" ?w]
        by (simp add: checked_run(1) handle_state reads_only_handle)
      moreover have "catalog_ok (products (snd (create_product ev commit d ?w)))
          \<and> catalog_evolves (products w) (products (snd (create_product ev commit d ?w)))"
        using ok created_product_ok [OF True _ ok]
        by (auto simp: create_product_run Let_def split: option.splits)
      ultimately show ?thesis using run by simp
    qed
  qed
qed

lemma patch_product_catalog:
  assumes ok: "catalog_ok (products w)"
  shows "catalog_ok (products (snd (patch_product ev cr commit tok pid d w)))
    \<and> catalog_evolves (products w) (products (snd (patch_product ev cr commit tok pid d w)))"
proof -
  obtain r w' where run: "patch_product ev cr commit tok pid d w = (r, w')"
    by (cases "patch_product ev cr commit tok pid d w")
  from run [unfolded patch_product_def] show ?thesis
  proof (cases rule: role_guard.guarded_cases)
    case (rejected h n)
    then show ?thesis using ok run by simp
  next
    case (admitted u n)
    show ?thesis
    proof (cases "valid_product_update d")
      case False
      then have "w' = w\<lparr>tick := n\<rparr>" using admitted(2) by (simp add: checked_run(2))
      then show ?thesis using ok run by simp
    next
      case True
      let ?w = "w\<lparr>tick := n\<rparr>"
      let ?upd = "products (snd (update_product commit pid d ?w))"
      have "products w' = ?upd"
        using admitted(2) True
          then_reads_only [of "\<lambda>p. handle unmapped (liftE (product_read p))" "handle product_not_found (update_product commit pid d)" ?w]
        by (simp add: checked_run(1) handle_state reads_only_handle)
      moreover have "catalog_ok ?upd \<and> catalog_evolves (products w) ?upd"
      proof (cases "row_get p_id pid (products w)")
        case None
        then show ?thesis using ok by (simp add: update_product_run)
      next
        case (Some p)
        show ?thesis
        proof (cases "update_conflict d (apply_update d p)")
          case None
          then obtain q where q: "apply_update d p = Inr q" "opt_field fits_int32 (pu_price_cents d)"
            by (auto simp: update_conflict_def split: if_splits sum.splits)
          have "product_ok p" using ok row_get_SomeD [OF Some] by (auto simp: catalog_ok_def list_all_iff)
          with q have "product_ok q \<and> same_product p q" using apply_update_ok True by blast
          then have "catalog_ok (row_put p_id q (products w)) \<and> catalog_evolves (products w) (row_put p_id q (products w))"
            using catalog_change [OF ok Some] by blast
          then show ?thesis using Some None q ok by (simp add: update_product_run Let_def split: option.split)
        qed (use Some ok in \<open>simp add: update_product_run Let_def\<close>)
      qed
      ultimately show ?thesis using run by simp
    qed
  qed
qed

datatype product_request =
    PostProduct product_create | ReadProduct uuid | ReadProducts int int | PatchProduct uuid product_update

fun product_step ::
  "env \<Rightarrow> crypto \<Rightarrow> (nat \<Rightarrow> exn option) \<Rightarrow> string \<times> product_request \<Rightarrow> world \<Rightarrow> world" where
  "product_step ev cr commit (tok, PostProduct d) w = snd (post_product ev cr commit tok d w)"
| "product_step ev cr commit (tok, ReadProduct pid) w = snd (read_product ev cr tok pid w)"
| "product_step ev cr commit (tok, ReadProducts l f) w = snd (read_products ev cr tok l f w)"
| "product_step ev cr commit (tok, PatchProduct pid d) w = snd (patch_product ev cr commit tok pid d w)"

lemma reads_only_products: "reads_only p \<Longrightarrow> products (snd (p w)) = products w"
  unfolding reads_only_def by (auto dest!: spec [of _ w])

lemma product_step_catalog:
  assumes "catalog_ok (products w)"
  shows "catalog_ok (products (product_step ev cr commit rq w))
    \<and> catalog_evolves (products w) (products (product_step ev cr commit rq w))"
  using assms post_product_catalog [OF assms] patch_product_catalog [OF assms]
  by (cases "(ev, cr, commit, rq, w)" rule: product_step.cases)
    (simp_all add: reads_only_products reads_only_product_reads)


definition demo_catalog :: world where
  "demo_catalog = staff_world\<lparr>products := [demo_product\<lparr>p_id := ''p9'', p_slug := ''icon-pack-2''\<rparr>]\<rparr>"

definition demo_patch :: product_update where
  "demo_patch = \<lparr>pu_title = Some (Some ''Icons''), pu_description = Some None, pu_status = None,
     pu_price_cents = Some (Some 900), pu_currency = None, pu_metadata = None\<rparr>"

lemma demo_catalog_ok: "catalog_ok (products demo_catalog)"
  by (simp add: demo_catalog_def catalog_ok_def product_ok_def demo_product_def slug_pattern_def slug_char_def
      text_field_def fits_int32_def currency_code_def is_alpha_def alpha_char_def upper_char_def)


text \<open>
  \<open>metadata_json\<close> may be set to \<open>null\<close> by an update: the row is committed and from then on building a
  response from it raises, in the update itself, in reading the product and in every page that has it.
\<close>

lemma null_metadata_is_committed:
  assumes "row_get p_id pid (products w) = Some p" and "commit (tick w) = None"
    and "pu_metadata d = Some None" and "update_conflict d (apply_update d p) = None"
  shows "\<exists>q. update_product commit pid d w = (Inr q, w\<lparr>tick := Suc (tick w), products := row_put p_id q (products w)\<rparr>)
    \<and> (\<exists>m. product_read q = Inl (PyExc ''ValidationError'' m))
    \<and> (\<forall>items. q \<in> set items \<longrightarrow> (\<exists>m. mapE product_read items = Inl (PyExc ''ValidationError'' m)))"
proof -
  obtain q where q: "apply_update d p = Inr q"
    using assms(4) by (auto simp: update_conflict_def split: if_splits sum.splits)
  then have "p_metadata q = JNull"
    using assms(3) by (auto simp: apply_update_def bindE_Inr_iff)
  then have bad: "\<exists>m. product_read q = Inl (PyExc ''ValidationError'' m)" by (simp add: product_read_def)
  have "\<exists>m. mapE product_read items = Inl (PyExc ''ValidationError'' m)" if "q \<in> set items" for items
    using that
  proof (induction items)
    case (Cons x xs)
    show ?case
    proof (cases "product_read x")
      case (Inl e)
      then show ?thesis by (auto simp: product_read_def split: json.splits)
    next
      case (Inr y)
      then have "q \<in> set xs" using Cons.prems bad by auto
      then show ?thesis using Cons.IH Inr by auto
    qed
  qed simp
  then show ?thesis using assms(1,2,4) q bad by (auto simp: update_product_run Let_def)
qed

end
