(* ===== verification/S3.thy ===== *)
theory S3
  imports Storage Config JsonText
begin

text \<open>
  The S3 backend of \<open>app/storage/s3.py\<close> over a client parameter, and the selection of a backend in
  \<open>app/storage/factory.py\<close>. The client is boto3's: its five calls act on a state of the remote service
  and give a response or one of the two error classes the backend catches.
\<close>

section \<open>The client\<close>

text \<open>\<open>ClientError\<close> carries the service's response object and its text, \<open>BotoCoreError\<close> a text.\<close>

datatype s3_error = ClientError jdict string | BotoCoreError string

fun s3_error_str :: "s3_error \<Rightarrow> string" where
  "s3_error_str (ClientError _ m) = m"
| "s3_error_str (BotoCoreError m) = m"

type_synonym ('s, 'a) s3_call = "'s \<Rightarrow> (s3_error + 'a) \<times> 's"

record 's s3_client =
  put_object :: "string \<Rightarrow> string \<Rightarrow> bytes \<Rightarrow> string option \<Rightarrow> ('s, jdict) s3_call"
  get_object :: "string \<Rightarrow> string \<Rightarrow> ('s, bytes) s3_call"
  delete_object :: "string \<Rightarrow> string \<Rightarrow> ('s, unit) s3_call"
  head_object :: "string \<Rightarrow> string \<Rightarrow> ('s, jdict) s3_call"
  presigned_url :: "string \<Rightarrow> string \<Rightarrow> int \<Rightarrow> ('s, string) s3_call"

record 's s3_backend =
  s3_client :: "'s s3_client"
  s3_bucket :: string

text \<open>\<open>try\<close> a call and translate its error.\<close>

definition s3_try :: "(s3_error \<Rightarrow> exn) \<Rightarrow> ('s, 'a) s3_call \<Rightarrow> ('s, 'a) store" where
  "s3_try f call s = (case call s of (Inl e, s') \<Rightarrow> (Inl (f e), s') | (Inr x, s') \<Rightarrow> (Inr x, s'))"


section \<open>app/storage/s3.py\<close>

definition is_not_found :: "s3_error \<Rightarrow> bool" where
  "is_not_found e = (case e of
       ClientError response _ \<Rightarrow>
         (case dict_get_default response ''Error'' (JObj []) of
            JObj err \<Rightarrow> dict_get_default err ''Code'' (JStr []) \<in> {JStr ''404'', JStr ''NoSuchKey'', JStr ''NotFound''}
          | _ \<Rightarrow> False)
     | BotoCoreError _ \<Rightarrow> False)"

definition not_found_or_unavailable :: "string \<Rightarrow> s3_error \<Rightarrow> exn" where
  "not_found_or_unavailable key e =
     (if is_not_found e then Storage (StorageNotFound key) else Storage (StorageUnavailable (s3_error_str e)))"

definition etag_of :: "jdict \<Rightarrow> string option" where
  "etag_of response =
     (let t = strip_chars {CHR 0x22} (py_str (dict_get_default response ''ETag'' (JStr [])))
      in if t = [] then None else Some t)"

definition s3_store :: "'s s3_backend \<Rightarrow> string \<Rightarrow> bytes \<Rightarrow> string option \<Rightarrow> ('s, storage_metadata) store" where
  "s3_store b key content content_type =
     bindM (s3_try (\<lambda>e. Storage (StorageWriteFailed key (s3_error_str e)))
              (put_object (s3_client b) (s3_bucket b) key content
                 (if falsy_opt content_type then None else content_type))) (\<lambda>response.
     ret \<lparr>sm_key = key, sm_size = length content, sm_content_type = content_type, sm_etag = etag_of response\<rparr>)"

definition s3_open :: "'s s3_backend \<Rightarrow> string \<Rightarrow> ('s, bytes) store" where
  "s3_open b key = s3_try (not_found_or_unavailable key) (get_object (s3_client b) (s3_bucket b) key)"

definition s3_delete :: "'s s3_backend \<Rightarrow> string \<Rightarrow> ('s, unit) store" where
  "s3_delete b key =
     s3_try (\<lambda>e. Storage (StorageDeleteFailed key (s3_error_str e))) (delete_object (s3_client b) (s3_bucket b) key)"

definition s3_exists :: "'s s3_backend \<Rightarrow> string \<Rightarrow> ('s, bool) store" where
  "s3_exists b key s =
     (case head_object (s3_client b) (s3_bucket b) key s of
        (Inr _, s') \<Rightarrow> (Inr True, s')
      | (Inl e, s') \<Rightarrow>
          if is_not_found e then (Inr False, s') else (Inl (Storage (StorageUnavailable (s3_error_str e))), s'))"

definition s3_metadata :: "'s s3_backend \<Rightarrow> string \<Rightarrow> ('s, storage_metadata) store" where
  "s3_metadata b key =
     bindM (s3_try (not_found_or_unavailable key) (head_object (s3_client b) (s3_bucket b) key)) (\<lambda>response.
     ret \<lparr>sm_key = key, sm_size = nat (int_of (dict_get_default response ''ContentLength'' (JInt 0))),
          sm_content_type = opt_str (dict_get response ''ContentType''), sm_etag = etag_of response\<rparr>)"

definition s3_download_url :: "'s s3_backend \<Rightarrow> string \<Rightarrow> int \<Rightarrow> ('s, string option) store" where
  "s3_download_url b key expires_in =
     bindM (s3_exists b key) (\<lambda>present.
       if \<not> present then raise (Storage (StorageNotFound key))
       else bindM (s3_try (\<lambda>e. Storage (StorageUnavailable (s3_error_str e)))
                     (presigned_url (s3_client b) (s3_bucket b) key expires_in)) (\<lambda>url. ret (Some url)))"

definition s3_storage :: "'s s3_backend \<Rightarrow> 's storage" where
  "s3_storage b =
     \<lparr>sb_store = s3_store b, sb_open = s3_open b, sb_delete = s3_delete b, sb_exists = s3_exists b,
      sb_metadata = s3_metadata b, sb_download_url = s3_download_url b\<rparr>"


section \<open>app/storage/factory.py\<close>

text \<open>The arguments of the S3 client's constructor, which either builds a client or raises with a text.\<close>

record s3_config =
  sc_endpoint_url :: string
  sc_region :: string
  sc_access_key_id :: string
  sc_secret_access_key :: string
  sc_use_ssl :: bool
  sc_addressing_style :: string

definition s3_init ::
  "(s3_config \<Rightarrow> string + 's s3_client) \<Rightarrow> string \<Rightarrow> string \<Rightarrow> string \<Rightarrow> string \<Rightarrow> string \<Rightarrow> bool \<Rightarrow> bool \<Rightarrow> exn + 's s3_backend" where
  "s3_init boto endpoint_url bucket region access_key_id secret_access_key use_ssl force_path_style =
     (case boto \<lparr>sc_endpoint_url = endpoint_url, sc_region = region, sc_access_key_id = access_key_id,
               sc_secret_access_key = secret_access_key, sc_use_ssl = use_ssl,
               sc_addressing_style = (if force_path_style then ''path'' else ''auto'')\<rparr> of
        Inl m \<Rightarrow> Inl (Storage (StorageUnavailable (''could not construct S3 client: '' @ m)))
      | Inr c \<Rightarrow> Inr \<lparr>s3_client = c, s3_bucket = bucket\<rparr>)"

definition assert_some :: "'a option \<Rightarrow> exn + 'a" where
  "assert_some v = (case v of None \<Rightarrow> Inl (PyExc ''AssertionError'' []) | Some x \<Rightarrow> Inr x)"

text \<open>
  \<open>get_storage_backend\<close>: the S3 backend when it is selected, else the local backend on its root
  directory (\<open>local\<close> is its constructor).
\<close>

definition get_storage_backend ::
  "(s3_config \<Rightarrow> string + 's s3_client) \<Rightarrow> (string \<Rightarrow> exn + 's storage) \<Rightarrow> settings \<Rightarrow> exn + 's storage" where
  "get_storage_backend boto local st =
     (if s_storage_backend st = ''s3''
      then bindE (assert_some (s_s3_endpoint_url st)) (\<lambda>endpoint.
           bindE (assert_some (s_s3_bucket st)) (\<lambda>bucket.
           bindE (assert_some (s_s3_region st)) (\<lambda>region.
           bindE (assert_some (s_s3_access_key_id st)) (\<lambda>access.
           bindE (assert_some (s_s3_secret_access_key st)) (\<lambda>secret.
           bindE (s3_init boto endpoint bucket region access secret (s_s3_use_ssl st) (s_s3_force_path_style st)) (\<lambda>b.
           Inr (s3_storage b)))))))
      else local (s_storage_local_root st))"


section \<open>The objects of a bucket\<close>

text \<open>
  The documented behaviour of the service that the backend relies on. A call that succeeded took effect
  and later calls see it; a \<open>put\<close> or \<open>delete\<close> that failed may or may not have taken effect; reading an
  object that is not there fails, and only then with a code that means it is not there. \<open>objects\<close> gives
  the contents of the bucket.
\<close>

definition keeps_objects :: "('s \<Rightarrow> string \<Rightarrow> bytes option) \<Rightarrow> 's \<Rightarrow> 's \<Rightarrow> bool" where
  "keeps_objects objects s s' \<longleftrightarrow> (\<forall>j. objects s' j = objects s j)"

definition others_kept :: "('s \<Rightarrow> string \<Rightarrow> bytes option) \<Rightarrow> string \<Rightarrow> 's \<Rightarrow> 's \<Rightarrow> bool" where
  "others_kept objects k s s' \<longleftrightarrow> (\<forall>j. j \<noteq> k \<longrightarrow> objects s' j = objects s j)"

definition s3_put_law :: "'s s3_backend \<Rightarrow> ('s \<Rightarrow> string \<Rightarrow> bytes option) \<Rightarrow> bool" where
  "s3_put_law b objects \<longleftrightarrow> (\<forall>k c t s r s'. put_object (s3_client b) (s3_bucket b) k c t s = (r, s') \<longrightarrow>
     others_kept objects k s s'
     \<and> (case r of Inr _ \<Rightarrow> objects s' k = Some c | Inl _ \<Rightarrow> objects s' k \<in> {objects s k, Some c}))"

definition s3_delete_law :: "'s s3_backend \<Rightarrow> ('s \<Rightarrow> string \<Rightarrow> bytes option) \<Rightarrow> bool" where
  "s3_delete_law b objects \<longleftrightarrow> (\<forall>k s r s'. delete_object (s3_client b) (s3_bucket b) k s = (r, s') \<longrightarrow>
     others_kept objects k s s'
     \<and> (case r of Inr _ \<Rightarrow> objects s' k = None | Inl _ \<Rightarrow> objects s' k \<in> {objects s k, None}))"



definition s3_read_law :: "'s s3_backend \<Rightarrow> ('s \<Rightarrow> string \<Rightarrow> bytes option) \<Rightarrow> bool" where
  "s3_read_law b objects \<longleftrightarrow>
     (\<forall>k s r s'. get_object (s3_client b) (s3_bucket b) k s = (r, s') \<longrightarrow>
        keeps_objects objects s s' \<and> (case r of Inr c \<Rightarrow> objects s k = Some c | Inl e \<Rightarrow> is_not_found e \<longrightarrow> objects s k = None))
   \<and> (\<forall>k s r s'. head_object (s3_client b) (s3_bucket b) k s = (r, s') \<longrightarrow>
        keeps_objects objects s s' \<and> (case r of Inr _ \<Rightarrow> objects s k \<noteq> None | Inl e \<Rightarrow> is_not_found e \<longrightarrow> objects s k = None))
   \<and> (\<forall>k n s r s'. presigned_url (s3_client b) (s3_bucket b) k n s = (r, s') \<longrightarrow> keeps_objects objects s s')"

definition s3_laws :: "'s s3_backend \<Rightarrow> ('s \<Rightarrow> string \<Rightarrow> bytes option) \<Rightarrow> bool" where
  "s3_laws b objects \<longleftrightarrow> s3_put_law b objects \<and> s3_delete_law b objects \<and> s3_read_law b objects"

section \<open>The backend is an object store\<close>

lemma s3_try_cases:
  assumes "s3_try f call s = (r, s')"
  obtains (error) e where "call s = (Inl e, s')" "r = Inl (f e)" | (ok) x where "call s = (Inr x, s')" "r = Inr x"
  using assms by (auto simp: s3_try_def split: prod.splits sum.splits)

lemma not_found_error:
  "is_storage_error (not_found_or_unavailable k e)"
  "not_found_or_unavailable k e = Storage (StorageNotFound k) \<longleftrightarrow> is_not_found e"
  by (simp_all add: not_found_or_unavailable_def is_storage_error_def)

lemma s3_store_effect:
  assumes laws: "s3_laws b objects" and run: "s3_store b k c t s = (r, s')"
  shows "others_kept objects k s s' \<and> (case r of
      Inr md \<Rightarrow> objects s' k = Some c \<and> sm_size md = length c
    | Inl e \<Rightarrow> objects s' k \<in> {objects s k, Some c} \<and> is_storage_error e)"
proof -
  let ?call = "put_object (s3_client b) (s3_bucket b) k c (if falsy_opt t then None else t)"
  obtain q s1 where q: "?call s = (q, s1)" by (cases "?call s")
  have "others_kept objects k s s1
      \<and> (case q of Inr _ \<Rightarrow> objects s1 k = Some c | Inl _ \<Rightarrow> objects s1 k \<in> {objects s k, Some c})"
    using laws q unfolding s3_laws_def s3_put_law_def by blast
  then show ?thesis
    using run q by (cases q) (auto simp: s3_store_def s3_try_def bindM_def ret_def is_storage_error_def)
qed

lemma s3_delete_effect:
  assumes laws: "s3_laws b objects" and run: "s3_delete b k s = (r, s')"
  shows "others_kept objects k s s' \<and> (case r of
      Inr _ \<Rightarrow> objects s' k = None
    | Inl e \<Rightarrow> objects s' k \<in> {objects s k, None} \<and> is_storage_error e)"
proof -
  let ?call = "delete_object (s3_client b) (s3_bucket b) k"
  obtain q s1 where q: "?call s = (q, s1)" by (cases "?call s")
  have "others_kept objects k s s1
      \<and> (case q of Inr _ \<Rightarrow> objects s1 k = None | Inl _ \<Rightarrow> objects s1 k \<in> {objects s k, None})"
    using laws q unfolding s3_laws_def s3_delete_law_def by blast
  then show ?thesis
    using run q by (cases q) (auto simp: s3_delete_def s3_try_def is_storage_error_def)
qed

lemma s3_open_effect:
  assumes laws: "s3_laws b objects" and run: "s3_open b k s = (r, s')"
  shows "keeps_objects objects s s' \<and> (case r of
      Inr c \<Rightarrow> objects s k = Some c
    | Inl e \<Rightarrow> is_storage_error e \<and> (e = Storage (StorageNotFound k) \<longrightarrow> objects s k = None))"
proof -
  let ?call = "get_object (s3_client b) (s3_bucket b) k"
  obtain q s1 where q: "?call s = (q, s1)" by (cases "?call s")
  have "keeps_objects objects s s1
      \<and> (case q of Inr c \<Rightarrow> objects s k = Some c | Inl e \<Rightarrow> is_not_found e \<longrightarrow> objects s k = None)"
    using laws q unfolding s3_laws_def s3_read_law_def by blast
  then show ?thesis
    using run q by (cases q) (auto simp: s3_open_def s3_try_def not_found_error)
qed

lemma s3_exists_effect:
  assumes laws: "s3_laws b objects" and run: "s3_exists b k s = (r, s')"
  shows "keeps_objects objects s s' \<and> (case r of
      Inr present \<Rightarrow> present = (objects s k \<noteq> None) | Inl e \<Rightarrow> is_storage_error e \<and> e \<noteq> Storage (StorageNotFound k))"
proof -
  let ?call = "head_object (s3_client b) (s3_bucket b) k"
  obtain q s1 where q: "?call s = (q, s1)" by (cases "?call s")
  have "keeps_objects objects s s1
      \<and> (case q of Inr _ \<Rightarrow> objects s k \<noteq> None | Inl e \<Rightarrow> is_not_found e \<longrightarrow> objects s k = None)"
    using laws q unfolding s3_laws_def s3_read_law_def by blast
  then show ?thesis
    using run q by (cases q) (auto simp: s3_exists_def is_storage_error_def split: if_splits)
qed

lemma s3_url_effect:
  assumes laws: "s3_laws b objects" and run: "s3_download_url b k n s = (r, s')"
  shows "keeps_objects objects s s' \<and> (case r of
      Inr url \<Rightarrow> url \<noteq> None \<and> objects s k \<noteq> None
    | Inl e \<Rightarrow> is_storage_error e \<and> (e = Storage (StorageNotFound k) \<longrightarrow> objects s k = None))"
proof -
  obtain q s1 where q: "s3_exists b k s = (q, s1)" by (cases "s3_exists b k s")
  note ex = s3_exists_effect [OF laws q]
  let ?call = "presigned_url (s3_client b) (s3_bucket b) k n"
  obtain u s2 where u: "?call s1 = (u, s2)" by (cases "?call s1")
  have k2: "keeps_objects objects s1 s2" using laws u unfolding s3_laws_def s3_read_law_def by blast
  show ?thesis
  proof (cases q)
    case (Inl e)
    then show ?thesis using run q ex by (auto simp: s3_download_url_def bindM_def)
  next
    case (Inr present)
    then show ?thesis
      using run q ex k2 u
      by (cases present; cases u)
        (auto simp: s3_download_url_def bindM_def s3_try_def raise_def ret_def is_storage_error_def keeps_objects_def)
  qed
qed


text \<open>A bucket in memory.\<close>

definition no_such_key :: s3_error where
  "no_such_key = ClientError [(''Error'', JObj [(''Code'', JStr ''NoSuchKey'')])] ''not found''"

definition demo_s3 :: "(string \<Rightarrow> bytes option) s3_backend" where
  "demo_s3 = \<lparr>s3_client = \<lparr>put_object = (\<lambda>_ k c _ s. (Inr [(''ETag'', JStr [CHR 0x22, CHR ''e'', CHR 0x22])], s(k := Some c))),
       get_object = (\<lambda>_ k s. (case s k of None \<Rightarrow> (Inl no_such_key, s) | Some c \<Rightarrow> (Inr c, s))),
       delete_object = (\<lambda>_ k s. (Inr (), s(k := None))),
       head_object = (\<lambda>_ k s. (case s k of None \<Rightarrow> (Inl no_such_key, s)
                                | Some c \<Rightarrow> (Inr [(''ContentLength'', JInt (int (length c)))], s))),
       presigned_url = (\<lambda>_ k _ s. (Inr (''https://bucket/'' @ k), s))\<rparr>, s3_bucket = ''bucket''\<rparr>"

lemma demo_s3_laws: "s3_laws demo_s3 (\<lambda>s. s)"
  by (auto simp: s3_laws_def s3_put_law_def s3_delete_law_def s3_read_law_def demo_s3_def others_kept_def
      keeps_objects_def split: option.splits)


text \<open>Validated settings never fail an assertion of the factory.\<close>

lemma validated_settings_select_backend:
  assumes v: "validate_s3_settings_when_selected st = Inr st'" and r: "get_storage_backend boto local st = Inl e"
  shows "(s_storage_backend st = ''s3'' \<longrightarrow> (\<exists>m. e = Storage (StorageUnavailable m)))
    \<and> (s_storage_backend st \<noteq> ''s3'' \<longrightarrow> local (s_storage_local_root st) = Inl e)"
  using assms
  by (auto simp: validate_s3_settings_when_selected_def get_storage_backend_def assert_some_def s3_init_def
      falsy_opt_def Let_def split: if_splits option.splits sum.splits)

end
