(* ===== verification/Dispatch.thy ===== *)
theory Dispatch
  imports JobService
begin

text \<open>
  \<open>app/worker/dispatch.py\<close>: what a worker does with a job it has claimed, from the job's type and
  input to the executor that runs it, and from what the executor returned or raised to the final state
  of the job. The worker keeps one session, and the job object it claimed, for the whole call.
\<close>

section \<open>The job object of the session\<close>

text \<open>Committing a change of the session's job object writes the changed columns to its row.\<close>

definition save_job :: "job \<Rightarrow> job \<Rightarrow> unit app" where
  "save_job j j' =
     bindM (getM (\<lambda>w. row_get j_id (j_id j) (jobs w))) (\<lambda>r. case r of
         None \<Rightarrow> raise (PyExc ''StaleDataError'' ''UPDATE statement expected to update 1 row(s); 0 were matched.'')
       | Some stored \<Rightarrow> put_job (flush_changed j j' stored))"

definition finish_job :: "env \<Rightarrow> (time \<Rightarrow> job \<Rightarrow> exn + job) \<Rightarrow> job \<Rightarrow> unit app" where
  "finish_job ev change j = bindM (readM (e_now ev)) (\<lambda>now. bindM (liftE (change now j)) (save_job j))"

definition fail_job :: "env \<Rightarrow> job \<Rightarrow> exn \<Rightarrow> unit app" where
  "fail_job ev j e = finish_job ev (\<lambda>now. mark_failed now (exn_name e) (exn_str e)) j"

definition retry_or_fail :: "env \<Rightarrow> job \<Rightarrow> exn \<Rightarrow> unit app" where
  "retry_or_fail ev j e =
     finish_job ev (\<lambda>now j. bindE (mark_failed_or_retry now (exn_name e) (exn_str e)
       (s_job_retry_backoff_base_seconds (e_settings ev)) j) (\<lambda>(_, j'). Inr j')) j"

text \<open>
  The check the workflow executor makes between steps. \<open>db.get\<close> of an object that the session holds
  and that has not expired returns that object without a query, and committing does not expire objects
  (\<open>expire_on_commit=False\<close>, \<open>app/database/session.py\<close>); so what is read is the object as claimed.
\<close>

definition cancellation_check :: "job \<Rightarrow> bool app" where
  "cancellation_check j = getM (\<lambda>_. j_cancel_requested_at j \<noteq> None)"


section \<open>Running the job\<close>

definition continue_with :: "('w, exn, 'a) m \<Rightarrow> (exn + 'a \<Rightarrow> ('w, exn, 'b) m) \<Rightarrow> ('w, exn, 'b) m" where
  "continue_with p k w = (case p w of (r, w') \<Rightarrow> k r w')"

definition job_user_input :: "job \<Rightarrow> string" where
  "job_user_input j = py_str (dict_get_default (j_input j) ''user_input'' (JStr []))"

definition job_context :: "job \<Rightarrow> jdict option" where
  "job_context j = (case dict_get (j_input j) ''context'' of JObj d \<Rightarrow> Some d | _ \<Rightarrow> None)"

text \<open>\<open>_DOMAIN_ERROR_TYPES\<close>.\<close>

definition domain_error_type :: "exn \<Rightarrow> bool" where
  "domain_error_type e = (case e of LLM _ \<Rightarrow> True | Runtime _ \<Rightarrow> True | Workflow _ \<Rightarrow> True | _ \<Rightarrow> False)"

definition no_target :: exn where
  "no_target = PyExc ''AssertionError'' []"

definition process_agent_run_job :: "env \<Rightarrow> job \<Rightarrow> unit app" where
  "process_agent_run_job ev j = (case j_target j of
       None \<Rightarrow> raise no_target
     | Some rid \<Rightarrow>
         bindM (getM (\<lambda>w. row_get ar_id rid (agent_runs w))) (\<lambda>found. case found of
             None \<Rightarrow> finish_job ev mark_completed j
           | Some run \<Rightarrow>
               if ar_status run \<noteq> AR_QUEUED then
                 (if ar_status run = AR_CANCELLED then finish_job ev mark_cancelled j
                  else finish_job ev mark_completed j)
               else
                 continue_with (execute_run ev run (job_user_input j) (job_context j)) (\<lambda>r. case r of
                     Inr _ \<Rightarrow> finish_job ev mark_completed j
                   | Inl e \<Rightarrow> if domain_error_type e then fail_job ev j e else retry_or_fail ev j e)))"

definition is_cancellation :: "exn \<Rightarrow> bool" where
  "is_cancellation e = (case e of
     Workflow we \<Rightarrow> (case we of WorkflowRunCancelledDuringExecutionError _ \<Rightarrow> True | _ \<Rightarrow> False) | _ \<Rightarrow> False)"

definition process_workflow_run_job :: "env \<Rightarrow> job \<Rightarrow> unit app" where
  "process_workflow_run_job ev j = (case j_target j of
       None \<Rightarrow> raise no_target
     | Some rid \<Rightarrow>
         bindM (getM (\<lambda>w. row_get wr_id rid (workflow_runs w))) (\<lambda>found. case found of
             None \<Rightarrow> finish_job ev mark_completed j
           | Some run \<Rightarrow>
               if wr_status run \<noteq> WR_QUEUED then
                 (if wr_status run = WR_CANCELLED then finish_job ev mark_cancelled j
                  else finish_job ev mark_completed j)
               else
                 continue_with (execute_workflow_run ev run (job_user_input j) (job_context j)
                     (Some (cancellation_check j))) (\<lambda>r. case r of
                     Inr _ \<Rightarrow> finish_job ev mark_completed j
                   | Inl e \<Rightarrow> if is_cancellation e then finish_job ev mark_cancelled j
                              else if domain_error_type e then fail_job ev j e else retry_or_fail ev j e)))"

text \<open>\<open>_INGESTION_DOMAIN_ERROR_TYPES\<close> and \<open>LLMError\<close>.\<close>

definition ingestion_error_type :: "exn \<Rightarrow> bool" where
  "ingestion_error_type e = (case e of
       LLM _ \<Rightarrow> True
     | Domain d \<Rightarrow> (case d of AssetNotFoundError _ \<Rightarrow> True | AssetDeletedError _ \<Rightarrow> True
         | AssetNotIngestableError _ _ \<Rightarrow> True | AssetAlreadyIngestedError _ \<Rightarrow> True
         | AssetStorageOperationFailedError _ \<Rightarrow> True | IngestionExtractionFailedError _ _ \<Rightarrow> True
         | EmptyExtractedTextError _ \<Rightarrow> True | IngestionEmbeddingMismatchError _ _ _ \<Rightarrow> True | _ \<Rightarrow> False)
     | _ \<Rightarrow> False)"

definition job_str :: "job \<Rightarrow> string \<Rightarrow> string option" where
  "job_str j key = (case dict_get (j_input j) key of JStr s \<Rightarrow> Some s | _ \<Rightarrow> None)"

definition job_int :: "job \<Rightarrow> string \<Rightarrow> int \<Rightarrow> int" where
  "job_int j key fallback =
     (let raw = dict_get_default (j_input j) key (JInt fallback) in if is_int raw then int_of raw else fallback)"

definition ingest_job_asset ::
  "env \<Rightarrow> pdf_reader \<Rightarrow> (nat \<Rightarrow> exn option) \<Rightarrow> 's storage \<Rightarrow> uuid \<Rightarrow> job \<Rightarrow> ('s, ingestion_result) svc" where
  "ingest_job_asset ev reader commit be aid j =
     ingest_asset ev reader commit be aid (py_str (dict_get_default (j_input j) ''embedding_model'' (JStr [])))
       (job_str j ''embedding_provider'') (job_int j ''chunk_size'' 1000) (job_int j ''chunk_overlap'' 200)"

text \<open>
  Whether the ingestion comes to a commit that fails. The rollback that ends such a transaction expires
  every object of the session, the job object too; after \<open>IntegrityError\<close> the service itself rolls
  back, after any other failure of the flush the session stays unusable.
\<close>

definition commit_fails ::
  "env \<Rightarrow> pdf_reader \<Rightarrow> (nat \<Rightarrow> exn option) \<Rightarrow> 's storage \<Rightarrow> uuid \<Rightarrow> job \<Rightarrow> world \<times> 's \<Rightarrow> bool" where
  "commit_fails ev reader commit be aid j ws =
     (case prepare_chunks ev reader be aid (py_str (dict_get_default (j_input j) ''embedding_model'' (JStr [])))
         (job_str j ''embedding_provider'') (job_int j ''chunk_size'' 1000) (job_int j ''chunk_overlap'' 200) ws of
        (Inl _, _) \<Rightarrow> False
      | (Inr _, ws') \<Rightarrow> commit (tick (fst ws')) \<noteq> None)"

text \<open>Reading an attribute of the expired job object, as every handler does first.\<close>

definition expired_access :: "exn \<Rightarrow> exn" where
  "expired_access e = (case e of
       Domain _ \<Rightarrow> PyExc ''MissingGreenlet'' ''greenlet_spawn has not been called; await_only() cannot be called here.''
     | _ \<Rightarrow> PyExc ''PendingRollbackError'' ''This transaction has been rolled back due to a previous exception during flush.'')"

definition process_asset_ingestion_job ::
  "env \<Rightarrow> pdf_reader \<Rightarrow> (nat \<Rightarrow> exn option) \<Rightarrow> 's storage \<Rightarrow> job \<Rightarrow> ('s, unit) svc" where
  "process_asset_ingestion_job ev reader commit be j = (case j_target j of
       None \<Rightarrow> raise no_target
     | Some aid \<Rightarrow>
         bindM (in_db (getM (has_chunks aid))) (\<lambda>ingested.
         if ingested then in_db (finish_job ev mark_completed j)
         else
           bindM (getM (commit_fails ev reader commit be aid j)) (\<lambda>expired.
           continue_with (ingest_job_asset ev reader commit be aid j) (\<lambda>r. case r of
               Inr _ \<Rightarrow> in_db (finish_job ev mark_completed j)
             | Inl e \<Rightarrow> if expired then raise (expired_access e)
                        else in_db (if ingestion_error_type e then fail_job ev j e else retry_or_fail ev j e)))))"

definition unknown_job_type :: "job \<Rightarrow> string" where
  "unknown_job_type j = ''Unknown job_type '' @ repr_str (j_type j)"

definition process_claimed_job ::
  "env \<Rightarrow> pdf_reader \<Rightarrow> (nat \<Rightarrow> exn option) \<Rightarrow> 's storage \<Rightarrow> job \<Rightarrow> ('s, unit) svc" where
  "process_claimed_job ev reader commit be j =
     (if j_type j = AGENT_RUN_JOB_TYPE then in_db (process_agent_run_job ev j)
      else if j_type j = WORKFLOW_RUN_JOB_TYPE then in_db (process_workflow_run_job ev j)
      else if j_type j = ASSET_INGESTION_JOB_TYPE then process_asset_ingestion_job ev reader commit be j
      else in_db (finish_job ev (\<lambda>now. mark_failed now ''UnknownJobType'' (unknown_job_type j)) j))"

section \<open>What reaches the jobs table\<close>

abbreviation keeps_jobs :: "job list \<Rightarrow> 'a app \<Rightarrow> bool" where
  "keeps_jobs J \<equiv> keeps (\<lambda>w. jobs w = J)"

lemma keeps_jobsD: "keeps_jobs J p \<Longrightarrow> jobs w = J \<Longrightarrow> jobs (snd (p w)) = J"
  by (simp add: keeps_def)

lemma keeps_jobs_basic [intro]:
  "keeps_jobs J (readM f)" "keeps_jobs J (put_workflow_run a)" "keeps_jobs J (put_step_run b)"
  "keeps_jobs J (put_agent_run c)" "keeps_jobs J (settle_pending rid st now)"
  by (simp_all add: keeps_def monad settle_pending_def)

lemma keeps_jobs_fail_workflow_run: "keeps_jobs J (fail_workflow_run ev x e d)"
  "keeps_jobs J (cancel_running_workflow ev x d)"
  unfolding fail_workflow_run_def cancel_running_workflow_def by (intro keeps_rules; auto)+

lemma keeps_jobs_fail_step: "keeps_jobs J (fail_step ev x started s0 st k e)"
  unfolding fail_step_def by (auto intro!: keeps_rules keeps_jobs_fail_workflow_run)

lemma keeps_jobs_attempt_step:
  assumes "lawful_registry (e_providers ev)"
  shows "keeps_jobs J (attempt_step ev x started s0 spec owner i ctx)"
proof -
  have "keeps_jobs J (\<lambda>w. case try_step ev s spec owner i ctx w of
              (Inl e, k, s', w') \<Rightarrow> fail_step ev x started s' st k e w'
            | (Inr agent_run, k, s', w') \<Rightarrow>
                bindM (readM (e_mono ev)) (\<lambda>t. bindM (readM (e_now ev)) (\<lambda>now'.
                seqM (put_step_run (completed_step s' agent_run (t - st) now'))
                  (ret agent_run))) w')" for s st
    unfolding keeps_def
  proof (intro allI impI)
    fix w :: world assume w: "jobs w = J"
    obtain r k s' w' where t: "try_step ev s spec owner i ctx w = (r, k, s', w')" by (metis prod_cases4)
    have J: "jobs w' = J" using try_step_tables [OF assms t refl] w by simp
    have 1: "keeps_jobs J (bindM (readM (e_mono ev)) (\<lambda>t. bindM (readM (e_now ev)) (\<lambda>now'.
                seqM (put_step_run (completed_step s' y (t - st) now')) (ret y))))" for y
      by (intro keeps_rules) auto
    show "jobs (snd (case try_step ev s spec owner i ctx w of
              (Inl e, k, s', w') \<Rightarrow> fail_step ev x started s' st k e w'
            | (Inr agent_run, k, s', w') \<Rightarrow>
                bindM (readM (e_mono ev)) (\<lambda>t. bindM (readM (e_now ev)) (\<lambda>now'.
                seqM (put_step_run (completed_step s' agent_run (t - st) now'))
                  (ret agent_run))) w')) = J"
      unfolding t using keeps_jobsD [OF 1 J] keeps_jobsD [OF keeps_jobs_fail_step J] by (cases r) simp_all
  qed
  then show ?thesis unfolding attempt_step_def Let_def by (auto intro!: keeps_rules)
qed

lemma keeps_jobs_run_steps:
  assumes "lawful_registry (e_providers ev)" and "\<And>c. check = Some c \<Longrightarrow> keeps_jobs J c"
  shows "keeps_jobs J (run_steps ev x started owner specs i ctx check outs prev fin rows)"
proof (induction rows arbitrary: outs prev fin)
  case (Cons s rest)
  have "keeps_jobs J (case check of None \<Rightarrow> ret False | Some c \<Rightarrow> c)" using assms(2) by (auto split: option.split)
  then show ?case
    using Cons by (auto intro!: keeps_rules keeps_jobs_fail_workflow_run keeps_jobs_attempt_step [OF assms(1)]
        split: option.split)
qed simp

lemma keeps_jobs_workflow_setup: "keeps_jobs J (workflow_setup x)"
  unfolding workflow_setup_def by (auto intro!: keeps_rules split: option.split)

lemma keeps_jobs_execute_workflow_run:
  assumes "lawful_registry (e_providers ev)" and "\<And>c. check = Some c \<Longrightarrow> keeps_jobs J c"
  shows "keeps_jobs J (execute_workflow_run ev x i ctx check)"
  unfolding execute_workflow_run_def Let_def
  by (auto intro!: keeps_rules keeps_jobs_run_steps [OF assms] keeps_jobs_workflow_setup
      keeps_jobs_fail_workflow_run)

section \<open>How a job ends\<close>

text \<open>The worker's job object is up to date: RUNNING like its row, with the error of an earlier attempt.\<close>

definition held :: "job \<Rightarrow> world \<Rightarrow> bool" where
  "held j w \<longleftrightarrow> j_status j = JS_RUNNING \<and> (\<exists>row. row_get j_id (j_id j) (jobs w) = Some row
     \<and> j_status row = JS_RUNNING \<and> j_error_code row = j_error_code j \<and> j_error_message row = j_error_message j
     \<and> j_attempt_count row = j_attempt_count j \<and> j_max_attempts row = j_max_attempts j \<and> j_target row = j_target j)"

text \<open>Only the job's row has changed: it now has this status and carries this error.\<close>

definition job_left :: "job \<Rightarrow> job_status \<Rightarrow> exn option \<Rightarrow> world \<Rightarrow> world \<Rightarrow> bool" where
  "job_left j st err w w' \<longleftrightarrow> w' = w\<lparr>jobs := jobs w', tick := tick w'\<rparr>
     \<and> (\<exists>row. jobs w' = row_put j_id row (jobs w) \<and> j_id row = j_id j \<and> j_status row = st
          \<and> j_attempt_count row = j_attempt_count j \<and> j_max_attempts row = j_max_attempts j
          \<and> j_target row = j_target j \<and> (\<forall>e. err = Some e \<longrightarrow> j_error_code row = Some (exn_name e) \<and> j_error_message row = Some (exn_str e)))"

lemma finish_job_run:
  assumes "row_get j_id (j_id j) (jobs w) = Some row" and "change (e_now ev (tick w)) j = Inr j'"
  shows "finish_job ev change j w = (Inr (),
     w\<lparr>tick := Suc (tick w), jobs := row_put j_id (flush_changed j j' row) (jobs w)\<rparr>)"
  using assms by (simp add: finish_job_def save_job_def run put_job_def)

lemma flush_changed_outcome [simp]:
  "j_status (flush_changed j j' row) = (if j_status j' \<noteq> j_status j then j_status j' else j_status row)"
  "j_error_code (flush_changed j j' row) = (if j_error_code j' \<noteq> j_error_code j then j_error_code j' else j_error_code row)"
  "j_error_message (flush_changed j j' row)
     = (if j_error_message j' \<noteq> j_error_message j then j_error_message j' else j_error_message row)"
  "j_attempt_count (flush_changed j j' row)
     = (if j_attempt_count j' \<noteq> j_attempt_count j then j_attempt_count j' else j_attempt_count row)"
  "j_max_attempts (flush_changed j j' row)
     = (if j_max_attempts j' \<noteq> j_max_attempts j then j_max_attempts j' else j_max_attempts row)"
  by (simp_all add: flush_changed_def changed_def)

lemma finish_job_left:
  assumes "held j w" and "change (e_now ev (tick w)) j = Inr j'" and "j_status j' \<noteq> JS_RUNNING"
    and "j_attempt_count j' = j_attempt_count j" and "j_max_attempts j' = j_max_attempts j"
    and "\<And>e. err = Some e \<Longrightarrow> j_error_code j' = Some (exn_name e) \<and> j_error_message j' = Some (exn_str e)"
  shows "\<exists>w'. finish_job ev change j w = (Inr (), w') \<and> job_left j (j_status j') err w w'"
proof -
  obtain row where r: "row_get j_id (j_id j) (jobs w) = Some row" "j_error_code row = j_error_code j"
      "j_error_message row = j_error_message j" "j_attempt_count row = j_attempt_count j"
      "j_max_attempts row = j_max_attempts j" "j_target row = j_target j" and s: "j_status j = JS_RUNNING"
    using assms(1) by (auto simp: held_def)
  have id: "j_id row = j_id j" using row_get_SomeD [OF r(1)] by simp
  show ?thesis
    using assms(3-6) r(2-6) s id
    by (auto simp: finish_job_run [OF r(1), of change, OF assms(2)] job_left_def)
qed

lemma job_ends:
  assumes "held j w"
  shows "\<exists>w'. finish_job ev mark_completed j w = (Inr (), w') \<and> job_left j JS_COMPLETED None w w'"
    and "\<exists>w'. finish_job ev mark_cancelled j w = (Inr (), w') \<and> job_left j JS_CANCELLED None w w'"
    and "\<exists>w'. finish_job ev (\<lambda>now. mark_failed now c m) j w = (Inr (), w') \<and> job_left j JS_FAILED None w w'"
    and "\<exists>w'. fail_job ev j e w = (Inr (), w') \<and> job_left j JS_FAILED (Some e) w w'"
    and "\<exists>w'. retry_or_fail ev j e w = (Inr (), w')
      \<and> job_left j (if j_attempt_count j < j_max_attempts j then JS_RETRYING else JS_FAILED) (Some e) w w'"
proof -
  have s: "j_status j = JS_RUNNING" using assms by (simp add: held_def)
  show "\<exists>w'. finish_job ev mark_completed j w = (Inr (), w') \<and> job_left j JS_COMPLETED None w w'"
    using finish_job_left [OF assms, of mark_completed ev _ None] s by (simp add: queue_defs)
  show "\<exists>w'. finish_job ev mark_cancelled j w = (Inr (), w') \<and> job_left j JS_CANCELLED None w w'"
    using finish_job_left [OF assms, of mark_cancelled ev _ None] s by (simp add: queue_defs)
  show "\<exists>w'. finish_job ev (\<lambda>now. mark_failed now c m) j w = (Inr (), w') \<and> job_left j JS_FAILED None w w'"
    using finish_job_left [OF assms, of "\<lambda>now. mark_failed now c m" ev _ None] s by (simp add: queue_defs)
  show "\<exists>w'. fail_job ev j e w = (Inr (), w') \<and> job_left j JS_FAILED (Some e) w w'"
    unfolding fail_job_def
    using finish_job_left [OF assms, of "\<lambda>now. mark_failed now (exn_name e) (exn_str e)" ev _ "Some e"] s
    by (simp add: queue_defs)
  show "\<exists>w'. retry_or_fail ev j e w = (Inr (), w')
      \<and> job_left j (if j_attempt_count j < j_max_attempts j then JS_RETRYING else JS_FAILED) (Some e) w w'"
    unfolding retry_or_fail_def
    using finish_job_left [OF assms, of "\<lambda>now j. bindE (mark_failed_or_retry now (exn_name e) (exn_str e)
       (s_job_retry_backoff_base_seconds (e_settings ev)) j) (\<lambda>(_, j'). Inr j')" ev _ "Some e"] s
    by (auto simp: queue_defs mark_failed_or_retry_def)
qed

lemma held_tables: "held j w \<Longrightarrow> jobs w' = jobs w \<Longrightarrow> held j w'"
  by (simp add: held_def)

text \<open>How the job of an agent run ends, given what the execution of the run returned or raised.\<close>

definition ends_after :: "job \<Rightarrow> exn + 'a \<Rightarrow> world \<Rightarrow> world \<Rightarrow> bool" where
  "ends_after j res w w' \<longleftrightarrow> (case res of
       Inr _ \<Rightarrow> job_left j JS_COMPLETED None w w'
     | Inl e \<Rightarrow> if is_cancellation e then job_left j JS_CANCELLED None w w'
         else if domain_error_type e then job_left j JS_FAILED (Some e) w w'
         else job_left j (if j_attempt_count j < j_max_attempts j then JS_RETRYING else JS_FAILED) (Some e) w w')"

lemma process_agent_run_job_outcome:
  assumes lawful: "lawful_registry (e_providers ev)" and h: "held j w" and t: "j_target j = Some rid"
    and go: "process_agent_run_job ev j w = (r, w')"
  shows "r = Inr () \<and> (case row_get ar_id rid (agent_runs w) of
      None \<Rightarrow> job_left j JS_COMPLETED None w w'
    | Some x \<Rightarrow>
        if ar_status x = AR_QUEUED then
          (\<exists>res w1. execute_run ev x (job_user_input j) (job_context j) w = (res, w1) \<and> jobs w1 = jobs w
             \<and> run_outcome rid w1 res \<and> ends_after j res w1 w')
        else job_left j (if ar_status x = AR_CANCELLED then JS_CANCELLED else JS_COMPLETED) None w w')"
proof (cases "row_get ar_id rid (agent_runs w)")
  case None
  then show ?thesis using go t job_ends(1) [OF h, of ev] by (auto simp: process_agent_run_job_def run)
next
  case (Some x)
  have id: "ar_id x = rid" using row_get_SomeD [OF Some] by simp
  show ?thesis
  proof (cases "ar_status x = AR_QUEUED")
    case False
    then show ?thesis using go t Some job_ends(1,2) [OF h, of ev]
      by (auto simp: process_agent_run_job_def run split: if_splits)
  next
    case True
    obtain res w1 where e: "execute_run ev x (job_user_input j) (job_context j) w = (res, w1)"
      by (cases "execute_run ev x (job_user_input j) (job_context j) w")
    have J: "jobs w1 = jobs w" using execute_run_tables [OF lawful e True] by simp
    have out: "run_outcome rid w1 res" using execute_run_outcome [OF lawful e True] id by simp
    note ends = job_ends [OF held_tables [OF h J], of ev]
    have rest: "(case res of Inr _ \<Rightarrow> finish_job ev mark_completed j
        | Inl e \<Rightarrow> if domain_error_type e then fail_job ev j e else retry_or_fail ev j e) w1 = (r, w')"
      using go t Some True e by (simp add: process_agent_run_job_def run continue_with_def)
    show ?thesis
    proof (cases res)
      case (Inr y)
      then show ?thesis using rest ends(1) e J out True Some by (auto simp: ends_after_def)
    next
      case (Inl ex)
      have "\<not> is_cancellation ex"
        using raises_onlyD [OF execute_run_raises [OF lawful] e [unfolded Inl]]
        by (auto simp: is_cancellation_def execution_error_def split: exn.splits)
      then show ?thesis using rest ends(4,5) [of ex] e J out True Some Inl
        by (auto simp: ends_after_def split: if_splits)
    qed
  qed
qed

lemma process_workflow_run_job_outcome:
  assumes lawful: "lawful_registry (e_providers ev)" and h: "held j w" and t: "j_target j = Some rid"
    and go: "process_workflow_run_job ev j w = (r, w')"
  shows "r = Inr () \<and> (case row_get wr_id rid (workflow_runs w) of
      None \<Rightarrow> job_left j JS_COMPLETED None w w'
    | Some x \<Rightarrow>
        if wr_status x = WR_QUEUED then
          (\<exists>res w1. execute_workflow_run ev x (job_user_input j) (job_context j) (Some (cancellation_check j)) w
               = (res, w1) \<and> jobs w1 = jobs w \<and> ends_after j res w1 w')
        else job_left j (if wr_status x = WR_CANCELLED then JS_CANCELLED else JS_COMPLETED) None w w')"
proof (cases "row_get wr_id rid (workflow_runs w)")
  case None
  then show ?thesis using go t job_ends(1) [OF h, of ev] by (auto simp: process_workflow_run_job_def run)
next
  case (Some x)
  show ?thesis
  proof (cases "wr_status x = WR_QUEUED")
    case False
    then show ?thesis using go t Some job_ends(1,2) [OF h, of ev]
      by (auto simp: process_workflow_run_job_def run split: if_splits)
  next
    case True
    let ?p = "execute_workflow_run ev x (job_user_input j) (job_context j) (Some (cancellation_check j))"
    obtain res w1 where e: "?p w = (res, w1)" by (cases "?p w")
    have "keeps_jobs (jobs w) ?p"
      by (rule keeps_jobs_execute_workflow_run [OF lawful]) (auto simp: cancellation_check_def)
    from keeps_jobsD [OF this refl] have J: "jobs w1 = jobs w" by (simp add: e)
    note ends = job_ends [OF held_tables [OF h J], of ev]
    have rest: "(case res of Inr _ \<Rightarrow> finish_job ev mark_completed j
        | Inl e \<Rightarrow> if is_cancellation e then finish_job ev mark_cancelled j
           else if domain_error_type e then fail_job ev j e else retry_or_fail ev j e) w1 = (r, w')"
      using go t Some True e by (simp add: process_workflow_run_job_def run continue_with_def)
    show ?thesis
    proof (cases res)
      case (Inr y)
      then show ?thesis using rest ends(1) e J True Some by (auto simp: ends_after_def)
    next
      case (Inl ex)
      then show ?thesis using rest ends(2) ends(4,5) [of ex] e J True Some
        by (auto simp: ends_after_def split: if_splits)
    qed
  qed
qed

definition chunks_added :: "uuid \<Rightarrow> world \<Rightarrow> world \<Rightarrow> bool" where
  "chunks_added aid w w' \<longleftrightarrow> (\<exists>rows. chunks w' = chunks w @ rows \<and> rows \<noteq> [] \<and> (\<forall>c\<in>set rows. dc_asset_id c = aid))"

lemma ingested_rows: "ingested aid width overlap rows \<Longrightarrow> rows \<noteq> [] \<and> (\<forall>c\<in>set rows. dc_asset_id c = aid)"
proof -
  assume a: "ingested aid width overlap rows"
  then obtain t cs where cs: "chunk_text t width overlap = Inr cs" "t \<noteq> []" "map dc_index rows = map int [0..<length cs]"
    by (auto simp: ingested_def)
  have "cs \<noteq> []"
    using chunk_text_Inr [OF cs(1)] cs(2) chunk_loop.simps [of t "nat width" "nat (width - overlap)" 0 0]
    by (auto simp: Let_def)
  then have "rows \<noteq> []" using arg_cong [OF cs(3), of length] by auto
  then show ?thesis using a by (simp add: ingested_def)
qed

lemma ingest_job_asset_frame:
  assumes "lawful_registry (e_providers ev)" and "ingest_job_asset ev reader commit be aid j (w, s) = (r, (w', s'))"
  shows "jobs w' = jobs w \<and> (case r of Inl e \<Rightarrow> same_tables w w' | Inr _ \<Rightarrow> chunks_added aid w w')"
  using ingest_asset_outcome [OF assms(1) assms(2) [unfolded ingest_job_asset_def]]
  by (cases r) (auto simp: same_tables_eqs chunks_added_def dest: ingested_rows)

lemma ingestion_error_not_cancellation: "ingestion_error_type e \<Longrightarrow> \<not> is_cancellation e"
  by (auto simp: ingestion_error_type_def is_cancellation_def split: exn.splits)

text \<open>How an ingestion job ends, given what the ingestion returned or raised.\<close>

definition ingestion_ends :: "job \<Rightarrow> uuid \<Rightarrow> exn + 'a \<Rightarrow> world \<Rightarrow> world \<Rightarrow> world \<Rightarrow> bool" where
  "ingestion_ends j aid res w w1 w' \<longleftrightarrow> (case res of
       Inr _ \<Rightarrow> chunks_added aid w w1 \<and> job_left j JS_COMPLETED None w1 w'
     | Inl e \<Rightarrow> same_tables w w1 \<and> job_left j (if ingestion_error_type e then JS_FAILED
         else if j_attempt_count j < j_max_attempts j then JS_RETRYING else JS_FAILED) (Some e) w1 w')"

lemma process_asset_ingestion_job_outcome:
  assumes lawful: "lawful_registry (e_providers ev)" and h: "held j w" and t: "j_target j = Some aid"
    and go: "process_asset_ingestion_job ev reader commit be j (w, s) = (r, (w', s'))"
    and c: "has_chunks aid w \<or> \<not> commit_fails ev reader commit be aid j (w, s)"
  shows "r = Inr () \<and>
    (if has_chunks aid w then job_left j JS_COMPLETED None w w'
     else \<exists>res w1 s1. ingest_job_asset ev reader commit be aid j (w, s) = (res, (w1, s1)) \<and> jobs w1 = jobs w
       \<and> ingestion_ends j aid res w w1 w')"
proof (cases "has_chunks aid w")
  case True
  then show ?thesis using go t job_ends(1) [OF h, of ev]
    by (auto simp: process_asset_ingestion_job_def run in_db_run)
next
  case False
  obtain res w1 s1 where e: "ingest_job_asset ev reader commit be aid j (w, s) = (res, (w1, s1))"
    by (cases "ingest_job_asset ev reader commit be aid j (w, s)") auto
  note fr = ingest_job_asset_frame [OF lawful e]
  note ends = job_ends [OF held_tables [OF h conjunct1 [OF fr]], of ev]
  have rest: "(case res of Inr _ \<Rightarrow> in_db (finish_job ev mark_completed j)
     | Inl e \<Rightarrow> in_db (if ingestion_error_type e then fail_job ev j e else retry_or_fail ev j e)) (w1, s1) = (r, (w', s'))"
    using go t False c e by (auto simp: process_asset_ingestion_job_def run in_db_run continue_with_def split: sum.splits)
  show ?thesis
  proof (cases res)
    case (Inr y)
    then show ?thesis using rest ends(1) e fr False by (auto simp: in_db_run ingestion_ends_def)
  next
    case (Inl ex)
    then show ?thesis using rest ends(4,5) [of ex] e fr False
      by (auto simp: in_db_run ingestion_ends_def split: if_splits)
  qed
qed

text \<open>
  The only job touched is now in a terminal state, or waits for a retry and has attempts left.
\<close>

definition settles :: "job \<Rightarrow> world \<Rightarrow> world \<Rightarrow> bool" where
  "settles j w w' \<longleftrightarrow> (\<exists>row. jobs w' = row_put j_id row (jobs w) \<and> j_id row = j_id j
     \<and> j_attempt_count row = j_attempt_count j \<and> j_max_attempts row = j_max_attempts j \<and> j_target row = j_target j
     \<and> (job_terminal (j_status row) \<or> j_status row = JS_RETRYING \<and> j_attempt_count j < j_max_attempts j))"

lemma job_left_settles:
  "job_left j st err w1 w' \<Longrightarrow> jobs w1 = jobs w \<Longrightarrow>
     job_terminal st \<or> st = JS_RETRYING \<and> j_attempt_count j < j_max_attempts j \<Longrightarrow> settles j w w'"
  by (auto simp: settles_def job_left_def)

lemma ends_after_settles: "ends_after j res w1 w' \<Longrightarrow> jobs w1 = jobs w \<Longrightarrow> settles j w w'"
  by (cases res) (auto simp: ends_after_def elim!: job_left_settles split: if_splits)

lemma ingestion_ends_settles: "ingestion_ends j aid res w w1 w' \<Longrightarrow> jobs w1 = jobs w \<Longrightarrow> settles j w w'"
  by (cases res) (auto simp: ingestion_ends_def elim!: job_left_settles split: if_splits)

lemma process_claimed_job_settles:
  assumes lawful: "lawful_registry (e_providers ev)" and h: "held j w" and t: "j_target j = Some k"
    and c: "j_type j = ASSET_INGESTION_JOB_TYPE \<Longrightarrow> has_chunks k w \<or> \<not> commit_fails ev reader commit be k j (w, s)"
    and go: "process_claimed_job ev reader commit be j (w, s) = (r, (w', s'))"
  shows "r = Inr () \<and> settles j w w'"
proof -
  consider (agent) "j_type j = AGENT_RUN_JOB_TYPE" | (flow) "j_type j = WORKFLOW_RUN_JOB_TYPE"
    | (ingest) "j_type j = ASSET_INGESTION_JOB_TYPE"
    | (other) "j_type j \<notin> {AGENT_RUN_JOB_TYPE, WORKFLOW_RUN_JOB_TYPE, ASSET_INGESTION_JOB_TYPE}"
    by blast
  then show ?thesis
  proof cases
    case agent
    obtain x w1 where p: "process_agent_run_job ev j w = (x, w1)" by (cases "process_agent_run_job ev j w")
    then have "r = x" "w' = w1" using go agent by (simp_all add: process_claimed_job_def in_db_run)
    then show ?thesis using process_agent_run_job_outcome [OF lawful h t p]
      by (auto split: option.splits if_splits dest: job_left_settles ends_after_settles)
  next
    case flow
    obtain x w1 where p: "process_workflow_run_job ev j w = (x, w1)" by (cases "process_workflow_run_job ev j w")
    then have "r = x" "w' = w1" using go flow by (simp_all add: process_claimed_job_def in_db_run job_types)
    then show ?thesis using process_workflow_run_job_outcome [OF lawful h t p]
      by (auto split: option.splits if_splits dest: job_left_settles ends_after_settles)
  next
    case ingest
    have p: "process_asset_ingestion_job ev reader commit be j (w, s) = (r, (w', s'))"
      using go ingest by (simp add: process_claimed_job_def job_types)
    note out = process_asset_ingestion_job_outcome [OF lawful h t p c [OF ingest]]
    show ?thesis
    proof (cases "has_chunks k w")
      case True
      then show ?thesis using out by (auto dest: job_left_settles)
    next
      case False
      then show ?thesis using out
        by (auto dest: ingestion_ends_settles)
    qed
  next
    case other
    have "in_db (finish_job ev (\<lambda>now. mark_failed now ''UnknownJobType'' (unknown_job_type j)) j) (w, s) = (r, (w', s'))"
      using go other by (simp add: process_claimed_job_def)
    then show ?thesis using job_ends(3) [OF h, of ev "''UnknownJobType''" "unknown_job_type j"]
      by (auto simp: in_db_run dest: job_left_settles)
  qed
qed

lemma lost_commit_escapes:
  assumes "lawful_registry (e_providers ev)" and t: "j_target j = Some aid" and "j_type j = ASSET_INGESTION_JOB_TYPE"
    and n: "\<not> has_chunks aid w" and c: "commit_fails ev reader commit be aid j (w, s)"
    and go: "process_claimed_job ev reader commit be j (w, s) = (r, (w', s'))"
  shows "(\<exists>n m. r = Inl (PyExc n m)) \<and> same_tables w w'"
proof -
  obtain res w1 s1 where e: "ingest_job_asset ev reader commit be aid j (w, s) = (res, (w1, s1))"
    by (cases "ingest_job_asset ev reader commit be aid j (w, s)") auto
  note fr = ingest_job_asset_frame [OF assms(1) e]
  have "\<exists>x. res = Inl x"
    using c e by (auto simp: commit_fails_def ingest_job_asset_def ingest_asset_def bindM_def seqM_def in_db_def
        commit_chunks_run split: prod.splits sum.splits option.splits)
  then obtain x where x: "res = Inl x" by blast
  have "r = Inl (expired_access x)" "w' = w1"
    using go assms(3) t n c e x
    by (simp_all add: process_claimed_job_def process_asset_ingestion_job_def run in_db_run continue_with_def job_types)
  then show ?thesis using fr x by (auto simp: expired_access_def split: exn.split)
qed

lemma quiet_cancellation: "j_cancel_requested_at j = None \<Longrightarrow> cancellation_check j = ret False"
  by (rule ext) (simp add: cancellation_check_def monad)

lemma run_steps_unchecked:
  "run_steps ev x started owner specs i ctx (Some (ret False)) outs prev fin rows
     = run_steps ev x started owner specs i ctx None outs prev fin rows"
  by (induction rows arbitrary: outs prev fin) (simp_all split: option.split)

lemma execute_workflow_run_unchecked:
  "j_cancel_requested_at j = None \<Longrightarrow>
     execute_workflow_run ev x i ctx (Some (cancellation_check j)) = execute_workflow_run ev x i ctx None"
  unfolding execute_workflow_run_def by (simp only: quiet_cancellation run_steps_unchecked)

text \<open>A run that an earlier attempt left RUNNING is not looked at again: its job is marked completed.\<close>

lemma interrupted_run_is_abandoned:
  assumes "held j w" and "j_type j = AGENT_RUN_JOB_TYPE" and "j_target j = Some rid"
    and "row_get ar_id rid (agent_runs w) = Some x" and "ar_status x = AR_RUNNING"
  shows "\<exists>w'. process_claimed_job ev reader commit be j (w, s) = (Inr (), (w', s))
    \<and> job_left j JS_COMPLETED None w w' \<and> row_get ar_id rid (agent_runs w') = Some x"
proof -
  obtain w' where f: "finish_job ev mark_completed j w = (Inr (), w')" "job_left j JS_COMPLETED None w w'"
    using job_ends(1) [OF assms(1), of ev] by blast
  have "agent_runs w' = agent_runs w" using f(2) unfolding job_left_def by (cases w; cases w') simp
  then show ?thesis using f assms
    by (simp add: process_claimed_job_def process_agent_run_job_def in_db_run run)
qed


section \<open>Properties\<close>

definition demo_job :: job where
  "demo_job = claimed 0 ''worker-1'' 60 (new_job ''j1'' AGENT_RUN_JOB_TYPE ''r1'' (run_input ''hi'' None) 3 0)"

definition busy_world :: world where
  "busy_world = demo_world\<lparr>agent_runs := [demo_run], jobs := [demo_job]\<rparr>"

definition demo_processed :: "(exn + unit) \<times> world \<times> filesystem" where
  "demo_processed = process_claimed_job demo_env (\<lambda>_. Inl ''not a PDF'') (\<lambda>_. None) (local_storage demo_backend)
     demo_job (busy_world, demo_fs)"

lemma demo_job_held: "held demo_job busy_world"
  by (simp add: held_def busy_world_def demo_job_def)

lemma demo_job_fields: "j_type demo_job = AGENT_RUN_JOB_TYPE" "j_target demo_job = Some ''r1''" "j_id demo_job = ''j1''"
  by (simp_all add: demo_job_def)



text \<open>
  C2: The job of a queued agent run mirrors the run: the run is executed with the input its job carries;
  the job is completed when the execution returns and the run is COMPLETED, failed with the same error
  when the run is FAILED, and sent back to the queue (or failed when its attempts are used up) when the
  exception left the run RUNNING. The job of a run that is not queued ends without touching the run.
\<close>

theorem agent_job_mirrors_run:
  assumes "lawful_registry (e_providers ev)" and "held j w" and "j_target j = Some rid"
    and "j_type j = AGENT_RUN_JOB_TYPE" and "row_get ar_id rid (agent_runs w) = Some x"
    and "process_claimed_job ev reader commit be j (w, s) = (r, (w', s'))"
  shows "r = Inr () \<and> s' = s \<and>
     (if ar_status x = AR_QUEUED then
        (\<exists>res w1. execute_run ev x (job_user_input j) (job_context j) w = (res, w1) \<and> jobs w1 = jobs w
           \<and> run_outcome rid w1 res \<and> ends_after j res w1 w')
      else job_left j (if ar_status x = AR_CANCELLED then JS_CANCELLED else JS_COMPLETED) None w w')"
proof -
  obtain y w1 where p: "process_agent_run_job ev j w = (y, w1)" by (cases "process_agent_run_job ev j w")
  then have "r = y" "w' = w1" "s' = s" using assms(4,6) by (simp_all add: process_claimed_job_def in_db_run)
  then show ?thesis using process_agent_run_job_outcome [OF assms(1-3) p] assms(5) by simp
qed

lemma agent_job_mirrors_run_witness:
  "\<exists>res w1. execute_run demo_env demo_run ''hi'' None busy_world = (res, w1) \<and> run_outcome ''r1'' w1 res
     \<and> ends_after demo_job res w1 (fst (snd demo_processed))"
proof -
  obtain r w s where d: "demo_processed = (r, (w, s))" by (cases demo_processed) auto
  have x: "row_get ar_id ''r1'' (agent_runs busy_world) = Some demo_run" "ar_status demo_run = AR_QUEUED"
    by (simp_all add: busy_world_def demo_run_def)
  have "job_user_input demo_job = ''hi''" "job_context demo_job = None"
    by (simp_all add: demo_job_def claimed_def new_job_def run_input_def job_user_input_def job_context_def
        dict_get_default_def dict_get_def py_str_def)
  then show ?thesis
    using agent_job_mirrors_run [OF demo_env_lawful demo_job_held demo_job_fields(2,1) x(1) d [unfolded demo_processed_def]] x(2)
    by (auto simp: d)
qed



text \<open>
  When the commit of an ingestion job fails, as it does for the loser of a race, an exception
  escapes from the handling of the job, and its row stays as it was claimed, RUNNING.
\<close>

theorem lost_ingestion_commit_escapes:
  assumes "lawful_registry (e_providers ev)" and "j_target j = Some aid" and "j_type j = ASSET_INGESTION_JOB_TYPE"
    and "\<not> has_chunks aid w" and "commit_fails ev reader commit be aid j (w, s)"
    and "process_claimed_job ev reader commit be j (w, s) = (r, (w', s'))"
  shows "(\<exists>n m. r = Inl (PyExc n m)) \<and> same_tables w w'"
  using assms by (rule lost_commit_escapes)

definition ingestion_job :: job where
  "ingestion_job = claimed 0 ''worker-1'' 60 (new_job ''j2'' ASSET_INGESTION_JOB_TYPE ''a1''
     (ingestion_input ''m'' (Some ''fake'') 1000 200) 3 0)"

lemma lost_ingestion_commit_escapes_witness:
  "\<exists>n m. fst (process_claimed_job demo_env (\<lambda>_. Inl ''not a PDF'') (\<lambda>_. Some integrity_error)
     (local_storage demo_backend) ingestion_job (library_world, library_fs)) = Inl (PyExc n m)"
proof -
  let ?rd = "\<lambda>_. Inl ''not a PDF'' :: string + pdf_document"
  obtain res ws where "demo_ingestion = (Inr res, ws)" using demo_ingested by auto
  then have "\<exists>x ws1. prepare_chunks demo_env ?rd (local_storage demo_backend) ''a1'' ''m'' (Some ''fake'') 1000 200
      (library_world, library_fs) = (Inr x, ws1)"
    by (auto simp: demo_ingestion_def ingest_asset_def bindM_def split: prod.splits sum.splits)
  then have "commit_fails demo_env ?rd (\<lambda>_. Some integrity_error) (local_storage demo_backend) ''a1'' ingestion_job
      (library_world, library_fs)"
    by (auto simp: commit_fails_def ingestion_job_def claimed_def new_job_def ingestion_input_def job_str_def job_int_def
        dict_get_default_def dict_get_def py_str_def)
  moreover have "\<not> has_chunks ''a1'' library_world" by (simp add: has_chunks_def library_world_def empty_world_def)
  moreover have "j_target ingestion_job = Some ''a1''" "j_type ingestion_job = ASSET_INGESTION_JOB_TYPE"
    by (simp_all add: ingestion_job_def)
  moreover obtain r w s where go: "process_claimed_job demo_env ?rd (\<lambda>_. Some integrity_error)
     (local_storage demo_backend) ingestion_job (library_world, library_fs) = (r, (w, s))"
    by (cases "process_claimed_job demo_env ?rd (\<lambda>_. Some integrity_error)
     (local_storage demo_backend) ingestion_job (library_world, library_fs)") auto
  ultimately show ?thesis using lost_ingestion_commit_escapes [OF demo_env_lawful] by fastforce
qed

end
