(* ===== verification/Runner.thy ===== *)
theory Runner
  imports Dispatch
begin

text \<open>
  \<open>app/worker/runner.py\<close> and the check of \<open>app/worker/healthcheck.py\<close>: one worker process, its own
  heartbeat row, the claim and execution of one job, and the poll loop. The background task that renews
  the lease while a job runs is the operation \<open>heartbeat_tick\<close> here and a step of its own, interleaved
  with the others, in \<open>QueueSystem\<close>. Waiting changes no state and is left out; the shutdown event is
  read from an oracle before every iteration, and the loop runs for a given number of iterations.
\<close>

section \<open>Operations\<close>

definition default_worker_id :: "string option \<Rightarrow> string \<Rightarrow> string" where
  "default_worker_id environ hostname =
     (case environ of None \<Rightarrow> hostname | Some v \<Rightarrow> if v = [] then hostname else v)"

definition put_heartbeat :: "worker_heartbeat \<Rightarrow> unit app" where
  "put_heartbeat h = modifyM (\<lambda>w. w\<lparr>heartbeats := row_put hb_worker_id h (heartbeats w)\<rparr>)"

definition upsert_heartbeat :: "env \<Rightarrow> string \<Rightarrow> time \<Rightarrow> unit app" where
  "upsert_heartbeat ev worker started_at =
     bindM (readM (e_now ev)) (\<lambda>now.
     bindM (getM (\<lambda>w. row_get hb_worker_id worker (heartbeats w))) (\<lambda>existing.
     put_heartbeat (case existing of
         None \<Rightarrow> \<lparr>hb_worker_id = worker, hb_started_at = started_at, hb_last_heartbeat_at = now\<rparr>
       | Some h \<Rightarrow> h\<lparr>hb_last_heartbeat_at := now\<rparr>)))"

text \<open>One wake-up of \<open>_heartbeat_while_running\<close>; it says whether the task goes on.\<close>

definition heartbeat_tick :: "env \<Rightarrow> uuid \<Rightarrow> bool app" where
  "heartbeat_tick ev jid =
     bindM (getM (\<lambda>w. row_get j_id jid (jobs w))) (\<lambda>r. case r of
         None \<Rightarrow> ret False
       | Some j \<Rightarrow>
           if j_status j \<noteq> JS_RUNNING then ret False
           else bindM (readM (e_now ev)) (\<lambda>now.
                seqM (put_job (renew_lease now (s_job_lease_seconds (e_settings ev)) j)) (ret True)))"

definition claim_job :: "env \<Rightarrow> (uuid \<Rightarrow> bool) \<Rightarrow> string \<Rightarrow> job option app" where
  "claim_job ev locked worker =
     bindM (readM (e_now ev)) (\<lambda>now.
     bindM (getM jobs) (\<lambda>t.
     bindM (liftE (claim_next_job locked now worker (s_job_lease_seconds (e_settings ev)) t)) (\<lambda>(j, t').
     seqM (modifyM (\<lambda>w. w\<lparr>jobs := t'\<rparr>)) (ret j))))"

definition recover_jobs :: "env \<Rightarrow> (uuid \<Rightarrow> bool) \<Rightarrow> nat app" where
  "recover_jobs ev locked =
     bindM (readM (e_now ev)) (\<lambda>now.
     bindM (getM (\<lambda>w. recover_stale_jobs locked now (s_job_retry_backoff_base_seconds (e_settings ev)) (jobs w)))
       (\<lambda>(n, t'). seqM (modifyM (\<lambda>w. w\<lparr>jobs := t'\<rparr>)) (ret n)))"

definition process_one_job ::
  "env \<Rightarrow> pdf_reader \<Rightarrow> (nat \<Rightarrow> exn option) \<Rightarrow> (uuid \<Rightarrow> bool) \<Rightarrow> 's storage \<Rightarrow> string \<Rightarrow> ('s, bool) svc" where
  "process_one_job ev reader commit locked be worker =
     bindM (in_db (claim_job ev locked worker)) (\<lambda>claimed. case claimed of
         None \<Rightarrow> ret False
       | Some j \<Rightarrow> seqM (process_claimed_job ev reader commit be j) (ret True))"

definition recovery_interval :: "settings \<Rightarrow> duration" where
  "recovery_interval st = max (s_job_lease_seconds st) 30000000"

definition worker_iteration ::
  "env \<Rightarrow> pdf_reader \<Rightarrow> (nat \<Rightarrow> exn option) \<Rightarrow> (uuid \<Rightarrow> bool) \<Rightarrow> 's storage \<Rightarrow> string \<Rightarrow> time \<Rightarrow> time \<Rightarrow>
     ('s, time) svc" where
  "worker_iteration ev reader commit locked be worker started_at last_recovery =
     bindM (process_one_job ev reader commit locked be worker) (\<lambda>did_work.
     seqM (in_db (upsert_heartbeat ev worker started_at))
     (bindM (in_db (readM (e_now ev))) (\<lambda>now.
      if recovery_interval (e_settings ev) \<le> now - last_recovery
      then seqM (in_db (recover_jobs ev locked)) (ret now) else ret last_recovery)))"

text \<open>The loop says whether it has ended because of the shutdown event.\<close>

fun worker_loop ::
  "nat \<Rightarrow> env \<Rightarrow> pdf_reader \<Rightarrow> (nat \<Rightarrow> exn option) \<Rightarrow> (uuid \<Rightarrow> bool) \<Rightarrow> 's storage \<Rightarrow> string \<Rightarrow>
     (nat \<Rightarrow> bool) \<Rightarrow> time \<Rightarrow> time \<Rightarrow> ('s, bool) svc" where
  "worker_loop 0 ev reader commit locked be worker shutdown started_at last_recovery = ret False"
| "worker_loop (Suc n) ev reader commit locked be worker shutdown started_at last_recovery =
     bindM (in_db (readM shutdown)) (\<lambda>stop.
     if stop then ret True
     else bindM (worker_iteration ev reader commit locked be worker started_at last_recovery)
            (worker_loop n ev reader commit locked be worker shutdown started_at))"

definition run_worker ::
  "nat \<Rightarrow> env \<Rightarrow> pdf_reader \<Rightarrow> (nat \<Rightarrow> exn option) \<Rightarrow> (uuid \<Rightarrow> bool) \<Rightarrow> 's storage \<Rightarrow> string \<Rightarrow>
     (nat \<Rightarrow> bool) \<Rightarrow> ('s, bool) svc" where
  "run_worker n ev reader commit locked be worker shutdown =
     bindM (in_db (readM (e_now ev))) (\<lambda>started_at.
     seqM (in_db (upsert_heartbeat ev worker started_at))
     (seqM (in_db (recover_jobs ev locked))
     (bindM (in_db (readM (e_now ev))) (\<lambda>last_recovery.
      worker_loop n ev reader commit locked be worker shutdown started_at last_recovery))))"

text \<open>\<open>is_healthy\<close>, on the heartbeat rows when the database can be read.\<close>

definition is_healthy :: "settings \<Rightarrow> time \<Rightarrow> string \<Rightarrow> worker_heartbeat list option \<Rightarrow> bool" where
  "is_healthy st now worker db = (case db of
       None \<Rightarrow> False
     | Some t \<Rightarrow> (case row_get hb_worker_id worker t of
         None \<Rightarrow> False
       | Some h \<Rightarrow> now - hb_last_heartbeat_at h \<le> s_worker_heartbeat_stale_after_seconds st))"


section \<open>Progress\<close>

text \<open>
  How many more claims the queue can cost: a job that is waiting has the attempts left to it, and one
  more when it has used them up.
\<close>

definition claims_left :: "job \<Rightarrow> nat" where
  "claims_left j = (if job_terminal (j_status j) then 0 else Suc (nat (j_max_attempts j - j_attempt_count j)))"

definition work_left :: "job list \<Rightarrow> nat" where
  "work_left t = sum_list (map claims_left t)"

lemma work_left_row_put:
  assumes "row_get j_id (j_id r) t = Some old" and "claims_left r < claims_left old"
  shows "work_left (row_put j_id r t) < work_left t"
  using assms(1)
proof (induction t)
  case (Cons x xs)
  then show ?case using assms(2) by (auto simp: work_left_def split: if_splits)
qed simp

lemma row_put_twice: "j_id a = j_id b \<Longrightarrow> row_put j_id a (row_put j_id b t) = row_put j_id a t"
  by (induction t) auto

lemma claim_job_run:
  assumes "claim_job ev locked worker w = (r, w')" and "distinct (map j_id (jobs w))"
  shows "case r of
      Inl e \<Rightarrow> False
    | Inr None \<Rightarrow> w' = w\<lparr>tick := tick w'\<rparr> \<and> (\<forall>j\<in>set (jobs w). \<not> eligible locked (e_now ev (tick w)) j)
    | Inr (Some j') \<Rightarrow> (\<exists>j. row_get j_id (j_id j') (jobs w) = Some j \<and> eligible locked (e_now ev (tick w)) j
        \<and> j' = claimed (e_now ev (tick w)) worker (s_job_lease_seconds (e_settings ev)) j
        \<and> (\<forall>k\<in>set (jobs w). eligible locked (e_now ev (tick w)) k \<longrightarrow> j_created_at j \<le> j_created_at k)
        \<and> w' = w\<lparr>jobs := row_put j_id j' (jobs w), tick := tick w'\<rparr>)"
proof -
  let ?now = "e_now ev (tick w)" and ?l = "s_job_lease_seconds (e_settings ev)"
  obtain x t' where c: "claim_next_job locked ?now worker ?l (jobs w) = Inr (x, t')"
    by (cases "first_row (order_by j_created_at (filter (eligible locked ?now) (jobs w)))")
       (auto simp: claim_next_job_cases)
  have r: "r = Inr x" "w' = w\<lparr>tick := Suc (tick w), jobs := t'\<rparr>"
    using assms(1) c by (auto simp: claim_job_def run)
  show ?thesis
  proof (cases x)
    case None
    then show ?thesis using r c claim_next_job_None [of locked ?now worker ?l "jobs w" t'] by simp
  next
    case (Some j')
    obtain j where j: "j \<in> set (jobs w)" "eligible locked ?now j" "j' = claimed ?now worker ?l j"
      "t' = row_put j_id j' (jobs w)"
      "\<And>k. k \<in> set (jobs w) \<Longrightarrow> eligible locked ?now k \<Longrightarrow> j_created_at j \<le> j_created_at k"
      using claim_next_job_SomeD [OF c [unfolded Some]] by blast
    have "row_get j_id (j_id j') (jobs w) = Some j" using row_get_mem [OF assms(2) j(1)] j(3) by simp
    then show ?thesis using r Some j by auto
  qed
qed

lemma claimed_held:
  assumes "jobs w' = row_put j_id (claimed now wk l j) t"
  shows "held (claimed now wk l j) w'"
  using assms by (simp add: held_def row_get_put)

definition oldest_eligible :: "(uuid \<Rightarrow> bool) \<Rightarrow> time \<Rightarrow> job list \<Rightarrow> job \<Rightarrow> bool" where
  "oldest_eligible locked now t j \<longleftrightarrow> j \<in> set t \<and> eligible locked now j
     \<and> (\<forall>k\<in>set t. eligible locked now k \<longrightarrow> j_created_at j \<le> j_created_at k)"

lemma process_one_job_outcome:
  assumes lawful: "lawful_registry (e_providers ev)" and dis: "distinct (map j_id (jobs w))"
    and tgt: "\<forall>j\<in>set (jobs w). j_target j \<noteq> None" and commits: "commit = (\<lambda>_. None)"
    and go: "process_one_job ev reader commit locked be worker (w, s) = (r, (w', s'))"
  shows "case r of
      Inl e \<Rightarrow> False
    | Inr False \<Rightarrow> jobs w' = jobs w \<and> (\<forall>j\<in>set (jobs w). \<not> eligible locked (e_now ev (tick w)) j)
    | Inr True \<Rightarrow> work_left (jobs w') < work_left (jobs w)
        \<and> (\<exists>j row. oldest_eligible locked (e_now ev (tick w)) (jobs w) j \<and> jobs w' = row_put j_id row (jobs w) \<and> j_id row = j_id j
             \<and> j_attempt_count row = j_attempt_count j + 1 \<and> j_target row = j_target j
             \<and> (job_terminal (j_status row) \<or> j_status row = JS_RETRYING))"
proof -
  let ?now = "e_now ev (tick w)"
  obtain c w1 where c: "claim_job ev locked worker w = (c, w1)" by (cases "claim_job ev locked worker w")
  note cl = claim_job_run [OF c dis]
  then obtain x where x: "c = Inr x" by (cases c) auto
  show ?thesis
  proof (cases x)
    case None
    have "r = Inr False" "w' = w1" using go c x None by (auto simp: process_one_job_def run in_db_run)
    then show ?thesis using cl x None by (cases w; cases w1) simp
  next
    case (Some j')
    then obtain j where j: "row_get j_id (j_id j') (jobs w) = Some j" "eligible locked ?now j"
      "j' = claimed ?now worker (s_job_lease_seconds (e_settings ev)) j"
      "\<forall>k\<in>set (jobs w). eligible locked ?now k \<longrightarrow> j_created_at j \<le> j_created_at k"
      "w1 = w\<lparr>jobs := row_put j_id j' (jobs w), tick := tick w1\<rparr>"
      using cl x by auto
    have J1: "jobs w1 = row_put j_id j' (jobs w)" using j(5) by (cases w; cases w1) simp
    have h: "held j' w1" unfolding j(3) by (rule claimed_held) (simp add: J1 j(3))
    have mem: "j \<in> set (jobs w)" "j_id j = j_id j'" using row_get_SomeD [OF j(1)] by auto
    then obtain k where t: "j_target j' = Some k" using tgt j(3) by auto
    obtain pr w2 s2 where p: "process_claimed_job ev reader commit be j' (w1, s) = (pr, (w2, s2))"
      by (cases "process_claimed_job ev reader commit be j' (w1, s)") auto
    have "\<not> commit_fails ev reader commit be k j' (w1, s)"
      by (auto simp: commit_fails_def commits split: prod.split sum.split)
    then have st: "pr = Inr ()" "settles j' w1 w2"
      using process_claimed_job_settles [OF lawful h t _ p] by blast+
    have r: "r = Inr True" "w' = w2" using go c x Some p st(1) by (auto simp: process_one_job_def run in_db_run)
    obtain row where row: "jobs w2 = row_put j_id row (jobs w1)" "j_id row = j_id j'"
      "j_attempt_count row = j_attempt_count j + 1" "j_max_attempts row = j_max_attempts j"
      "job_terminal (j_status row) \<or> j_status row = JS_RETRYING \<and> j_attempt_count j + 1 < j_max_attempts j"
      "j_target row = j_target j"
      using st(2) by (auto simp: settles_def j(3))
    have w': "jobs w' = row_put j_id row (jobs w)" using row(1,2) r(2) by (simp add: J1 row_put_twice)
    have "\<not> job_terminal (j_status j)" using j(2) by (auto simp: eligible_def)
    then have "claims_left row < claims_left j" using row(3-5) by (auto simp: claims_left_def)
    then have "work_left (jobs w') < work_left (jobs w)"
      unfolding w' by (rule work_left_row_put [rotated]) (simp add: row(2) j(1))
    moreover have "oldest_eligible locked ?now (jobs w) j" using mem(1) j(2,4) by (simp add: oldest_eligible_def)
    moreover have "job_terminal (j_status row) \<or> j_status row = JS_RETRYING" using row(5) by blast
    ultimately show ?thesis unfolding r(1) sum.case bool.case using w' row(2,3,6) mem(2)
      by (intro conjI exI [of _ j] exI [of _ row]) simp_all
  qed
qed


section \<open>The poll loop\<close>

text \<open>What the worker relies on in the jobs table: distinct ids, and every job has its target.\<close>

definition well_formed_jobs :: "job list \<Rightarrow> bool" where
  "well_formed_jobs t \<longleftrightarrow> distinct (map j_id t) \<and> (\<forall>j\<in>set t. j_target j \<noteq> None)"

lemma well_formed_row_put:
  "well_formed_jobs t \<Longrightarrow> j_target r \<noteq> None \<Longrightarrow> well_formed_jobs (row_put j_id r t)"
  using set_row_put [of j_id r t] by (auto simp: well_formed_jobs_def distinct_row_put)

lemma well_formed_recovered:
  "well_formed_jobs t \<Longrightarrow> well_formed_jobs (snd (recover_stale_jobs locked now b t))"
  by (auto simp: well_formed_jobs_def recover_stale_jobs_def map_key_update_where set_update_where reclaimed_def Let_def)

lemma process_one_job_keeps:
  assumes "lawful_registry (e_providers ev)" and "well_formed_jobs (jobs w)"
    and "process_one_job ev reader (\<lambda>_. None) locked be worker (w, s) = (r, (w', s'))"
  shows "(\<exists>b. r = Inr b) \<and> well_formed_jobs (jobs w')"
proof -
  note out = process_one_job_outcome [OF assms(1) _ _ refl assms(3)]
  have d: "distinct (map j_id (jobs w))" "\<forall>j\<in>set (jobs w). j_target j \<noteq> None"
    using assms(2) by (auto simp: well_formed_jobs_def)
  show ?thesis
  proof (cases r)
    case (Inl e)
    then show ?thesis using out [OF d] by simp
  next
    case (Inr b)
    show ?thesis
    proof (cases b)
      case False
      then have "r = Inr False" "jobs w' = jobs w" using out [OF d] Inr by simp_all
      then show ?thesis using assms(2) by (auto intro: exI [of _ False])
    next
      case True
      then obtain j row where "j \<in> set (jobs w)" "jobs w' = row_put j_id row (jobs w)" "j_target row = j_target j"
        using out [OF d] Inr by (auto simp: oldest_eligible_def)
      then show ?thesis using Inr well_formed_row_put [OF assms(2), of row] d(2) by auto
    qed
  qed
qed

lemma upsert_heartbeat_run:
  "\<exists>h. upsert_heartbeat ev worker t w
      = (Inr (), w\<lparr>tick := Suc (tick w), heartbeats := row_put hb_worker_id h (heartbeats w)\<rparr>)
    \<and> hb_worker_id h = worker \<and> hb_last_heartbeat_at h = e_now ev (tick w)"
proof (cases "row_get hb_worker_id worker (heartbeats w)")
  case (Some h)
  then show ?thesis using row_get_SomeD [OF Some] by (auto simp: upsert_heartbeat_def run put_heartbeat_def)
next
  case None
  then show ?thesis
    by (intro exI [of _ "\<lparr>hb_worker_id = worker, hb_started_at = t, hb_last_heartbeat_at = e_now ev (tick w)\<rparr>"])
       (simp add: upsert_heartbeat_def run put_heartbeat_def)
qed

lemma recover_jobs_run:
  "\<exists>n. recover_jobs ev locked w = (Inr n, w\<lparr>tick := Suc (tick w),
     jobs := snd (recover_stale_jobs locked (e_now ev (tick w)) (s_job_retry_backoff_base_seconds (e_settings ev)) (jobs w))\<rparr>)"
  by (cases "recover_stale_jobs locked (e_now ev (tick w)) (s_job_retry_backoff_base_seconds (e_settings ev)) (jobs w)")
     (simp add: recover_jobs_def run)

definition alive :: "string \<Rightarrow> world \<Rightarrow> bool" where
  "alive worker w \<longleftrightarrow> row_get hb_worker_id worker (heartbeats w) \<noteq> None"

lemma alive_row_put: "hb_worker_id h = worker \<Longrightarrow> heartbeats w' = row_put hb_worker_id h t \<Longrightarrow> alive worker w'"
  by (simp add: alive_def row_get_put)

lemma worker_iteration_keeps:
  assumes "lawful_registry (e_providers ev)" and "well_formed_jobs (jobs w)"
    and "worker_iteration ev reader (\<lambda>_. None) locked be worker t since (w, s) = (r, (w', s'))"
  shows "(\<exists>t. r = Inr t) \<and> well_formed_jobs (jobs w') \<and> alive worker w'"
proof -
  obtain p w1 s1 where p: "process_one_job ev reader (\<lambda>_. None) locked be worker (w, s) = (p, (w1, s1))"
    by (cases "process_one_job ev reader (\<lambda>_. None) locked be worker (w, s)") auto
  obtain b where b: "p = Inr b" and J: "well_formed_jobs (jobs w1)"
    using process_one_job_keeps [OF assms(1,2) p] by blast
  obtain h where h: "upsert_heartbeat ev worker t w1
      = (Inr (), w1\<lparr>tick := Suc (tick w1), heartbeats := row_put hb_worker_id h (heartbeats w1)\<rparr>)"
    "hb_worker_id h = worker" using upsert_heartbeat_run by blast
  let ?w = "w1\<lparr>heartbeats := row_put hb_worker_id h (heartbeats w1), tick := Suc (Suc (tick w1))\<rparr>"
  obtain n where n: "recover_jobs ev locked ?w = (Inr n, ?w\<lparr>tick := Suc (tick ?w), jobs := snd (recover_stale_jobs locked
      (e_now ev (tick ?w)) (s_job_retry_backoff_base_seconds (e_settings ev)) (jobs ?w))\<rparr>)"
    using recover_jobs_run by blast
  have rest: "(if recovery_interval (e_settings ev) \<le> e_now ev (Suc (tick w1)) - since
      then seqM (in_db (recover_jobs ev locked)) (ret (e_now ev (Suc (tick w1)))) else ret since) (?w, s1) = (r, (w', s'))"
    using assms(3) p b h(1) by (simp add: worker_iteration_def run in_db_run readM_def cong: if_cong)
  have a: "alive worker w'" if "heartbeats w' = heartbeats ?w" by (rule alive_row_put [OF h(2)]) (simp add: that)
  show ?thesis
  proof (cases "recovery_interval (e_settings ev) \<le> e_now ev (Suc (tick w1)) - since")
    case True
    then have "r = Inr (e_now ev (Suc (tick w1)))" "w' = ?w\<lparr>tick := Suc (tick ?w), jobs := snd (recover_stale_jobs locked
      (e_now ev (tick ?w)) (s_job_retry_backoff_base_seconds (e_settings ev)) (jobs ?w))\<rparr>"
      using rest n by (auto simp: run in_db_run)
    then show ?thesis using a well_formed_recovered [OF J] by simp
  next
    case False
    then show ?thesis using rest a J by (auto simp: run)
  qed
qed

lemma worker_loop_keeps:
  assumes "lawful_registry (e_providers ev)" and "well_formed_jobs (jobs w)" and "alive worker w"
    and "worker_loop n ev reader (\<lambda>_. None) locked be worker shutdown t since (w, s) = (r, (w', s'))"
  shows "(\<exists>b. r = Inr b) \<and> well_formed_jobs (jobs w') \<and> alive worker w'"
  using assms(2-4)
proof (induction n arbitrary: w s since)
  case 0
  then show ?case by (auto simp: run)
next
  case (Suc n)
  let ?w = "w\<lparr>tick := Suc (tick w)\<rparr>"
  show ?case
  proof (cases "shutdown (tick w)")
    case True
    then show ?thesis using Suc.prems by (auto simp: run in_db_run readM_def alive_def)
  next
    case False
    obtain p w1 s1 where p: "worker_iteration ev reader (\<lambda>_. None) locked be worker t since (?w, s) = (p, (w1, s1))"
      by (cases "worker_iteration ev reader (\<lambda>_. None) locked be worker t since (?w, s)") auto
    obtain l where l: "p = Inr l" "well_formed_jobs (jobs w1)" "alive worker w1"
      using worker_iteration_keeps [OF assms(1) _ p] Suc.prems(1) by auto
    then have "worker_loop n ev reader (\<lambda>_. None) locked be worker shutdown t l (w1, s1) = (r, (w', s'))"
      using Suc.prems(3) False p by (simp add: run in_db_run readM_def)
    then show ?thesis using Suc.IH l by blast
  qed
qed

lemma run_worker_keeps:
  assumes "lawful_registry (e_providers ev)" and "well_formed_jobs (jobs w)"
    and "run_worker n ev reader (\<lambda>_. None) locked be worker shutdown (w, s) = (r, (w', s'))"
  shows "(\<exists>b. r = Inr b) \<and> well_formed_jobs (jobs w') \<and> alive worker w'"
proof -
  let ?w0 = "w\<lparr>tick := Suc (tick w)\<rparr>" and ?t = "e_now ev (tick w)"
  obtain h where h: "upsert_heartbeat ev worker ?t ?w0
      = (Inr (), ?w0\<lparr>tick := Suc (tick ?w0), heartbeats := row_put hb_worker_id h (heartbeats ?w0)\<rparr>)"
    "hb_worker_id h = worker" using upsert_heartbeat_run by blast
  let ?w1 = "?w0\<lparr>tick := Suc (tick ?w0), heartbeats := row_put hb_worker_id h (heartbeats ?w0)\<rparr>"
  obtain k where k: "recover_jobs ev locked ?w1 = (Inr k, ?w1\<lparr>tick := Suc (tick ?w1), jobs := snd (recover_stale_jobs locked
      (e_now ev (tick ?w1)) (s_job_retry_backoff_base_seconds (e_settings ev)) (jobs ?w1))\<rparr>)"
    using recover_jobs_run by blast
  let ?w2 = "?w1\<lparr>tick := Suc (tick ?w1), jobs := snd (recover_stale_jobs locked
      (e_now ev (tick ?w1)) (s_job_retry_backoff_base_seconds (e_settings ev)) (jobs ?w1))\<rparr>"
  let ?w3 = "?w2\<lparr>tick := Suc (tick ?w2)\<rparr>"
  have lp: "worker_loop n ev reader (\<lambda>_. None) locked be worker shutdown ?t (e_now ev (tick ?w2)) (?w3, s) = (r, (w', s'))"
    using assms(3) h(1) k by (simp add: run_worker_def run in_db_run readM_def)
  have wf: "well_formed_jobs (jobs ?w3)" using well_formed_recovered [OF assms(2)] by simp
  have up: "alive worker ?w3" by (rule alive_row_put [OF h(2)]) simp
  show ?thesis by (rule worker_loop_keeps [OF assms(1) wf up lp])
qed

text \<open>When the commit of a claimed ingestion fails, the exception ends the worker's loop.\<close>

lemma lost_commit_stops_worker:
  assumes lawful: "lawful_registry (e_providers ev)" and "\<not> shutdown (tick w)"
    and "claim_job ev locked worker (w\<lparr>tick := Suc (tick w)\<rparr>) = (Inr (Some j), w1)"
    and "j_type j = ASSET_INGESTION_JOB_TYPE" and "j_target j = Some aid" and "\<not> has_chunks aid w1"
    and "commit_fails ev reader commit be aid j (w1, s)"
  shows "\<exists>n m w' s'. worker_loop (Suc k) ev reader commit locked be worker shutdown t since (w, s)
    = (Inl (PyExc n m), (w', s')) \<and> same_tables w1 w'"
proof -
  obtain r w' s' where p: "process_claimed_job ev reader commit be j (w1, s) = (r, (w', s'))"
    by (cases "process_claimed_job ev reader commit be j (w1, s)") auto
  obtain n m where "r = Inl (PyExc n m)" "same_tables w1 w'"
    using lost_commit_escapes [OF lawful assms(5,4,6,7) p] by blast
  then show ?thesis using assms(2,3) p
    by (simp add: run in_db_run readM_def worker_iteration_def process_one_job_def)
qed


section \<open>Properties\<close>


definition waiting_job :: job where
  "waiting_job = new_job ''j1'' AGENT_RUN_JOB_TYPE ''r1'' (run_input ''hi'' None) 3 0"

definition waiting_world :: world where
  "waiting_world = demo_world\<lparr>agent_runs := [demo_run], jobs := [waiting_job]\<rparr>"

lemma waiting_jobs: "jobs waiting_world = [waiting_job]"
  by (simp add: waiting_world_def)

lemma waiting_job_eligible: "eligible (\<lambda>_. False) now waiting_job"
  by (simp add: eligible_def waiting_job_def)


text \<open>
  As long as no ingestion's commit fails, the poll loop keeps going however many iterations it makes:
  no exception ends it, whatever jobs it meets and however their executions fail, the jobs table stays
  well-formed, and the worker's heartbeat row exists.
\<close>

theorem worker_keeps_running:
  assumes "lawful_registry (e_providers ev)" and "well_formed_jobs (jobs w)"
    and "run_worker n ev reader (\<lambda>_. None) locked be worker shutdown (w, s) = (r, (w', s'))"
  shows "(\<exists>b. r = Inr b) \<and> well_formed_jobs (jobs w') \<and> alive worker w'"
  using assms by (rule run_worker_keeps)

lemma worker_keeps_running_witness:
  "alive ''worker-1'' (fst (snd (run_worker 5 demo_env (\<lambda>_. Inl ''not a PDF'') (\<lambda>_. None) (\<lambda>_. False)
     (local_storage demo_backend) ''worker-1'' (\<lambda>n. 100 < n) (waiting_world, demo_fs))))"
proof -
  let ?p = "run_worker 5 demo_env (\<lambda>_. Inl ''not a PDF'') (\<lambda>_. None) (\<lambda>_. False)
     (local_storage demo_backend) ''worker-1'' (\<lambda>n. 100 < n) (waiting_world, demo_fs)"
  obtain r w s where p: "?p = (r, (w, s))" by (cases ?p) auto
  have "well_formed_jobs (jobs waiting_world)"
    by (simp add: waiting_jobs well_formed_jobs_def waiting_job_def)
  from worker_keeps_running [OF demo_env_lawful this p] show ?thesis by (simp add: p)
qed

end
