(* ===== verification/Api.thy ===== *)
theory Api
  imports Products S3 Runner
begin

text \<open>
  The HTTP layer, \<open>app/api/v1\<close>: for every endpoint the role it requires, the validation of its
  parameters, the service call, and the status code of what the call raises. A request is a datatype,
  \<open>serve\<close> the application that answers it.
\<close>

section \<open>From exceptions to status codes\<close>

fun map_llm_error :: "llm_error \<Rightarrow> http_error" where
  "map_llm_error (LLMProviderNotConfigured p r) = HTTPException 503 (llm_error_message (LLMProviderNotConfigured p r))"
| "map_llm_error (LLMAuthenticationError _) = HTTPException 502 ''upstream LLM provider authentication failed''"
| "map_llm_error (LLMRateLimitError _ _) = HTTPException 429 ''upstream LLM provider rate limit exceeded''"
| "map_llm_error (LLMTimeoutError _) = HTTPException 504 ''upstream LLM provider request timed out''"
| "map_llm_error (LLMProviderUnavailable _ _) = HTTPException 502 ''upstream LLM provider is unavailable''"
| "map_llm_error (LLMUnsupportedModel p m) = HTTPException 422 (llm_error_message (LLMUnsupportedModel p m))"
| "map_llm_error (LLMEmbeddingNotSupported p) = HTTPException 422 (llm_error_message (LLMEmbeddingNotSupported p))"
| "map_llm_error (LLMStructuredOutputError _ _) = HTTPException 422 ''structured output validation failed''"
| "map_llm_error (LLMInvalidRequest p d) = HTTPException 422 (llm_error_message (LLMInvalidRequest p d))"
| "map_llm_error (LLMResponseError _ _) = HTTPException 502 ''upstream LLM provider returned an unexpected response''"

fun map_mcp_error :: "mcp_error \<Rightarrow> http_error" where
  "map_mcp_error (MCPServerNotConfigured s) = HTTPException 404 (mcp_error_message (MCPServerNotConfigured s))"
| "map_mcp_error (MCPTimeoutError s) = HTTPException 504 (mcp_error_message (MCPTimeoutError s))"
| "map_mcp_error (MCPConnectionError s r) = HTTPException 502 (mcp_error_message (MCPConnectionError s r))"
| "map_mcp_error (MCPToolCallError s t d) = HTTPException 502 (mcp_error_message (MCPToolCallError s t d))"
| "map_mcp_error (MCPProtocolError s d) = HTTPException 502 (mcp_error_message (MCPProtocolError s d))"

fun map_runtime_error :: "runtime_error \<Rightarrow> http_error" where
  "map_runtime_error (AgentNotFoundError a) = HTTPException 404 (runtime_error_message (AgentNotFoundError a))"
| "map_runtime_error (AgentRunNotFoundError r) = HTTPException 404 (runtime_error_message (AgentRunNotFoundError r))"
| "map_runtime_error (AgentNotActiveError a) = HTTPException 409 (runtime_error_message (AgentNotActiveError a))"
| "map_runtime_error (InvalidRunTransitionError c t) =
     HTTPException 409 (runtime_error_message (InvalidRunTransitionError c t))"
| "map_runtime_error e = HTTPException 422 (runtime_error_message e)"

fun map_workflow_error :: "workflow_error \<Rightarrow> http_error" where
  "map_workflow_error (WorkflowNotFoundError w) = HTTPException 404 (workflow_error_message (WorkflowNotFoundError w))"
| "map_workflow_error (WorkflowRunNotFoundError r) =
     HTTPException 404 (workflow_error_message (WorkflowRunNotFoundError r))"
| "map_workflow_error (WorkflowNotActiveError w) = HTTPException 409 (workflow_error_message (WorkflowNotActiveError w))"
| "map_workflow_error (InvalidWorkflowRunTransitionError c t) =
     HTTPException 409 (workflow_error_message (InvalidWorkflowRunTransitionError c t))"
| "map_workflow_error (InvalidStepRunTransitionError c t) =
     HTTPException 409 (workflow_error_message (InvalidStepRunTransitionError c t))"
| "map_workflow_error e = HTTPException 422 (workflow_error_message e)"

text \<open>The \<open>except\<close> clauses of the endpoints.\<close>

definition on_llm :: "exn \<Rightarrow> http_error option" where
  "on_llm e = (case e of LLM x \<Rightarrow> Some (map_llm_error x) | _ \<Rightarrow> None)"

definition on_mcp :: "exn \<Rightarrow> http_error option" where
  "on_mcp e = (case e of MCP x \<Rightarrow> Some (map_mcp_error x) | _ \<Rightarrow> None)"

definition on_runtime :: "exn \<Rightarrow> http_error option" where
  "on_runtime e = (case e of Runtime x \<Rightarrow> Some (map_runtime_error x) | _ \<Rightarrow> None)"

definition on_run_not_found :: "exn \<Rightarrow> http_error option" where
  "on_run_not_found e = (case e of
       Runtime (AgentRunNotFoundError r) \<Rightarrow> Some (map_runtime_error (AgentRunNotFoundError r)) | _ \<Rightarrow> None)"

definition on_run_cancellation :: "exn \<Rightarrow> http_error option" where
  "on_run_cancellation e = (case e of
       JobExn (JobAlreadyRunningError j) \<Rightarrow> Some (HTTPException 409 (exn_str e)) | _ \<Rightarrow> on_runtime e)"

definition on_workflow :: "exn \<Rightarrow> http_error option" where
  "on_workflow e = (case e of Workflow x \<Rightarrow> Some (map_workflow_error x) | _ \<Rightarrow> None)"

definition on_workflow_creation :: "exn \<Rightarrow> http_error option" where
  "on_workflow_creation e = (case e of Workflow x \<Rightarrow> Some (map_workflow_error x) | _ \<Rightarrow> on_runtime e)"

definition on_workflow_run_not_found :: "exn \<Rightarrow> http_error option" where
  "on_workflow_run_not_found e = (case e of
       Workflow (WorkflowRunNotFoundError r) \<Rightarrow> Some (map_workflow_error (WorkflowRunNotFoundError r)) | _ \<Rightarrow> None)"

definition on_llm_request_not_found :: "exn \<Rightarrow> http_error option" where
  "on_llm_request_not_found e = (case e of
       Domain (LLMRequestNotFoundError _) \<Rightarrow> Some (HTTPException 404 (exn_str e)) | _ \<Rightarrow> None)"

definition on_upload :: "exn \<Rightarrow> http_error option" where
  "on_upload e = (case e of
       Domain (ProductNotFoundError _) \<Rightarrow> Some (HTTPException 404 (exn_str e))
     | Domain EmptyFileError \<Rightarrow> Some (HTTPException 422 (exn_str e))
     | Domain (InvalidFilenameError _) \<Rightarrow> Some (HTTPException 422 (exn_str e))
     | Domain (FileTooLargeError _ _) \<Rightarrow> Some (HTTPException 413 (exn_str e))
     | Domain (UnsupportedFileTypeError _) \<Rightarrow> Some (HTTPException 415 (exn_str e))
     | Domain (AssetStorageOperationFailedError _) \<Rightarrow> Some (HTTPException 502 ''storage operation failed'')
     | _ \<Rightarrow> None)"

definition on_asset :: "exn \<Rightarrow> http_error option" where
  "on_asset e = (case e of
       Domain (AssetNotFoundError _) \<Rightarrow> Some (HTTPException 404 (exn_str e))
     | Domain (AssetDeletedError _) \<Rightarrow> Some (HTTPException 404 (exn_str e))
     | _ \<Rightarrow> None)"

definition on_download :: "exn \<Rightarrow> http_error option" where
  "on_download e = (case e of
       Domain (AssetStorageOperationFailedError _) \<Rightarrow> Some (HTTPException 502 ''storage operation failed'')
     | _ \<Rightarrow> on_asset e)"

definition on_delete :: "exn \<Rightarrow> http_error option" where
  "on_delete e = (case e of
       Domain (AssetNotFoundError _) \<Rightarrow> Some (HTTPException 404 (exn_str e))
     | Domain (AssetStorageOperationFailedError _) \<Rightarrow> Some (HTTPException 502 ''storage operation failed'')
     | _ \<Rightarrow> None)"

definition on_ingest :: "exn \<Rightarrow> http_error option" where
  "on_ingest e = (case e of
       Domain (AssetNotIngestableError _ _) \<Rightarrow> Some (HTTPException 415 (exn_str e))
     | Domain (AssetAlreadyIngestedError _) \<Rightarrow> Some (HTTPException 409 (exn_str e))
     | Domain (AssetIngestionAlreadyQueuedError _) \<Rightarrow> Some (HTTPException 409 (exn_str e))
     | _ \<Rightarrow> on_asset e)"


section \<open>Runs and workflow runs\<close>

record run_create =
  rc_target :: uuid
  rc_user_input :: string
  rc_context :: "jdict option"

definition valid_run_create :: "run_create \<Rightarrow> bool" where
  "valid_run_create p \<longleftrightarrow> rc_user_input p \<noteq> []"

text \<open>
  The read schema parses the request identifiers of the recorded tool calls, which are stored as texts.
\<close>

definition agent_run_read :: "agent_run \<Rightarrow> exn + agent_run" where
  "agent_run_read r =
     (if (case ar_tool_calls r of None \<Rightarrow> True
          | Some ts \<Rightarrow> list_all (\<lambda>t. parse_uuid (tt_llm_request_id t) \<noteq> None) ts)
      then Inr r else Inl validation_error)"

definition post_run ::
  "env \<Rightarrow> crypto \<Rightarrow> (nat \<Rightarrow> exn option) \<Rightarrow> string \<Rightarrow> run_create \<Rightarrow> agent_run endpoint" where
  "post_run ev cr commit token payload =
     bindM (require_roles can_write ev cr token) (\<lambda>u.
     bindM (checked valid_run_create payload) (\<lambda>p.
     bindM (handle on_runtime (enqueue_agent_run ev commit (rc_target p) (u_id u) (rc_user_input p) (rc_context p)
                                 (s_job_max_attempts (e_settings ev)))) (\<lambda>(run, _).
     handle unmapped (liftE (agent_run_read run)))))"

definition read_run :: "env \<Rightarrow> crypto \<Rightarrow> string \<Rightarrow> uuid \<Rightarrow> agent_run endpoint" where
  "read_run ev cr token rid =
     bindM (require_roles can_read ev cr token) (\<lambda>u.
     bindM (handle on_run_not_found (get_run rid u)) (\<lambda>run.
     handle unmapped (liftE (agent_run_read run))))"

text \<open>The pages of the list endpoints: the rows of the page, converted to their read schema.\<close>

definition page_response ::
  "('r \<Rightarrow> exn + 'a) \<Rightarrow> int \<Rightarrow> int \<Rightarrow> ('r list \<times> nat) app \<Rightarrow> 'a page endpoint" where
  "page_response convert limit offset query =
     bindM (paging limit offset) (\<lambda>_.
     bindM (handle unmapped query) (\<lambda>(items, total).
     bindM (handle unmapped (liftE (mapE convert items))) (\<lambda>rs.
     ret \<lparr>pg_items = rs, pg_total = total, pg_limit = limit, pg_offset = offset\<rparr>)))"

definition read_runs :: "env \<Rightarrow> crypto \<Rightarrow> string \<Rightarrow> int \<Rightarrow> int \<Rightarrow> agent_run page endpoint" where
  "read_runs ev cr token limit offset =
     bindM (require_roles can_read ev cr token) (\<lambda>u.
     page_response agent_run_read limit offset (list_runs u limit offset))"

definition post_run_cancel :: "env \<Rightarrow> crypto \<Rightarrow> string \<Rightarrow> uuid \<Rightarrow> agent_run endpoint" where
  "post_run_cancel ev cr token rid =
     bindM (require_roles can_write ev cr token) (\<lambda>u.
     bindM (handle on_run_cancellation (cancel_agent_run ev rid u)) (\<lambda>run.
     handle unmapped (liftE (agent_run_read run))))"

definition post_workflow_run ::
  "env \<Rightarrow> crypto \<Rightarrow> (nat \<Rightarrow> exn option) \<Rightarrow> string \<Rightarrow> run_create \<Rightarrow> workflow_run endpoint" where
  "post_workflow_run ev cr commit token payload =
     bindM (require_roles can_write ev cr token) (\<lambda>u.
     bindM (checked valid_run_create payload) (\<lambda>p.
     bindM (handle on_workflow_creation (enqueue_workflow_run ev commit (rc_target p) (u_id u) (rc_user_input p)
              (rc_context p) (s_job_max_attempts (e_settings ev)))) (\<lambda>(run, _).
     ret run)))"

definition read_workflow_run :: "env \<Rightarrow> crypto \<Rightarrow> string \<Rightarrow> uuid \<Rightarrow> workflow_run endpoint" where
  "read_workflow_run ev cr token rid =
     bindM (require_roles can_read ev cr token) (\<lambda>u. handle on_workflow_run_not_found (get_workflow_run rid u))"

definition read_workflow_runs :: "env \<Rightarrow> crypto \<Rightarrow> string \<Rightarrow> int \<Rightarrow> int \<Rightarrow> workflow_run page endpoint" where
  "read_workflow_runs ev cr token limit offset =
     bindM (require_roles can_read ev cr token) (\<lambda>u.
     page_response Inr limit offset (list_workflow_runs u limit offset))"

definition read_workflow_steps :: "env \<Rightarrow> crypto \<Rightarrow> string \<Rightarrow> uuid \<Rightarrow> workflow_step_run list endpoint" where
  "read_workflow_steps ev cr token rid =
     bindM (require_roles can_read ev cr token) (\<lambda>u. handle on_workflow_run_not_found (get_steps rid u))"

definition post_workflow_cancel :: "env \<Rightarrow> crypto \<Rightarrow> string \<Rightarrow> uuid \<Rightarrow> workflow_run endpoint" where
  "post_workflow_cancel ev cr token rid =
     bindM (require_roles can_write ev cr token) (\<lambda>u. handle on_workflow (cancel_workflow_job ev rid u))"

section \<open>The language model gateway and the tool servers\<close>

definition post_generate :: "env \<Rightarrow> crypto \<Rightarrow> string \<Rightarrow> generate_request \<Rightarrow> generate_response endpoint" where
  "post_generate ev cr token payload =
     bindM (require_roles can_write ev cr token) (\<lambda>u.
     bindM (checked valid_generate_request payload) (\<lambda>p.
     handle on_llm (generate_and_persist ev (u_id u) p)))"

definition valid_embed_request :: "embed_request \<Rightarrow> bool" where
  "valid_embed_request p \<longleftrightarrow> er_model p \<noteq> [] \<and> valid_embed_input (er_input p)"

definition post_embed :: "env \<Rightarrow> crypto \<Rightarrow> string \<Rightarrow> embed_request \<Rightarrow> embed_response endpoint" where
  "post_embed ev cr token payload =
     bindM (require_roles can_write ev cr token) (\<lambda>u.
     bindM (checked valid_embed_request payload) (\<lambda>p.
     handle on_llm (embed_and_persist ev (u_id u) p)))"

definition read_providers :: "env \<Rightarrow> crypto \<Rightarrow> string \<Rightarrow> provider_info list endpoint" where
  "read_providers ev cr token =
     bindM (require_roles can_read ev cr token) (\<lambda>_. ret (list_providers ev))"

definition read_models ::
  "env \<Rightarrow> crypto \<Rightarrow> string \<Rightarrow> (provider_info list \<times> (string \<times> string \<times> string) list) endpoint" where
  "read_models ev cr token =
     bindM (require_roles can_read ev cr token) (\<lambda>_.
     bindM (handle unmapped (liftE (list_model_aliases ev))) (\<lambda>aliases. ret (list_providers ev, aliases)))"

definition read_llm_health :: "env \<Rightarrow> crypto \<Rightarrow> string \<Rightarrow> provider_health list endpoint" where
  "read_llm_health ev cr token =
     bindM (require_roles can_read ev cr token) (\<lambda>_. handle unmapped (get_health ev))"

definition read_llm_request :: "env \<Rightarrow> crypto \<Rightarrow> string \<Rightarrow> uuid \<Rightarrow> llm_request_record endpoint" where
  "read_llm_request ev cr token rid =
     bindM (require_roles can_read ev cr token) (\<lambda>u. handle on_llm_request_not_found (get_request rid u))"

definition read_mcp_servers :: "env \<Rightarrow> crypto \<Rightarrow> string \<Rightarrow> (string \<times> string) list endpoint" where
  "read_mcp_servers ev cr token =
     bindM (require_roles can_read ev cr token) (\<lambda>_.
     bindM (handle unmapped (liftE (list_configured_servers (e_settings ev)))) (\<lambda>servers.
     ret (map (\<lambda>s. (se_name s, se_base_url s)) servers)))"

definition read_mcp_tools :: "env \<Rightarrow> crypto \<Rightarrow> string \<Rightarrow> string \<Rightarrow> mcp_tool list endpoint" where
  "read_mcp_tools ev cr token server =
     bindM (require_roles can_read ev cr token) (\<lambda>_.
     handle on_mcp (bindM (liftE (build_mcp_client server (e_settings ev))) (\<lambda>client. list_tools ev client)))"


section \<open>Assets\<close>

text \<open>The endpoints of \<open>assets.py\<close> run on the database beside the storage backend.\<close>

type_synonym ('s, 'a) asset_endpoint = "(world \<times> 's, http_error, 'a) m"

definition with_db :: "'a endpoint \<Rightarrow> ('s, 'a) asset_endpoint" where
  "with_db m ws = (case m (fst ws) of (r, w) \<Rightarrow> (r, (w, snd ws)))"

text \<open>\<open>file.filename or 'file'\<close>.\<close>

definition or_default :: "string option \<Rightarrow> string \<Rightarrow> string" where
  "or_default v d = (if falsy_opt v then d else the v)"

record upload_file =
  uf_filename :: "string option"
  uf_content_type :: "string option"
  uf_content :: bytes

definition post_asset ::
  "env \<Rightarrow> crypto \<Rightarrow> (nat \<Rightarrow> exn option) \<Rightarrow> 's storage \<Rightarrow> string \<Rightarrow> uuid \<Rightarrow> string \<Rightarrow> upload_file \<Rightarrow> ('s, asset) asset_endpoint" where
  "post_asset ev cr commit be token pid atype f =
     bindM (with_db (require_roles can_write ev cr token)) (\<lambda>u.
     handle on_upload (upload_asset ev commit be pid atype (or_default (uf_filename f) ''file'')
       (or_default (uf_content_type f) ''application/octet-stream'') (uf_content f) (u_id u)))"

definition read_assets :: "env \<Rightarrow> crypto \<Rightarrow> string \<Rightarrow> uuid \<Rightarrow> int \<Rightarrow> int \<Rightarrow> asset page endpoint" where
  "read_assets ev cr token pid limit offset =
     bindM (require_roles can_read ev cr token) (\<lambda>_.
     page_response Inr limit offset (list_assets_for_product pid limit offset))"

definition read_asset :: "env \<Rightarrow> crypto \<Rightarrow> string \<Rightarrow> uuid \<Rightarrow> asset endpoint" where
  "read_asset ev cr token aid =
     bindM (require_roles can_read ev cr token) (\<lambda>_. handle on_asset (get_asset aid))"

datatype download = Redirect string | Attachment bytes string string

text \<open>\<open>asset.content_type or asset.mime_type\<close>; the file name is the sanitized one.\<close>

definition download_of :: "download_payload \<Rightarrow> download" where
  "download_of p = (case dp_url p of
       Some url \<Rightarrow> Redirect url
     | None \<Rightarrow> Attachment (case dp_content p of None \<Rightarrow> [] | Some c \<Rightarrow> c)
         (or_default (a_content_type (dp_asset p)) (a_mime_type (dp_asset p)))
         (''attachment; filename='' @ [CHR 0x22] @ a_filename (dp_asset p) @ [CHR 0x22]))"

definition download_asset :: "env \<Rightarrow> crypto \<Rightarrow> 's storage \<Rightarrow> string \<Rightarrow> uuid \<Rightarrow> ('s, download) asset_endpoint" where
  "download_asset ev cr be token aid =
     bindM (with_db (require_roles can_read ev cr token)) (\<lambda>_.
     bindM (handle on_download (get_download_payload be aid)) (\<lambda>p. ret (download_of p)))"

definition remove_asset :: "env \<Rightarrow> crypto \<Rightarrow> 's storage \<Rightarrow> string \<Rightarrow> uuid \<Rightarrow> ('s, unit) asset_endpoint" where
  "remove_asset ev cr be token aid =
     bindM (with_db (require_roles can_write ev cr token)) (\<lambda>_. handle on_delete (delete_asset ev be aid))"

record ingestion_create =
  ic_embedding_model :: string
  ic_embedding_provider :: "string option"
  ic_chunk_size :: int
  ic_chunk_overlap :: int

definition valid_ingestion_create :: "ingestion_create \<Rightarrow> bool" where
  "valid_ingestion_create p \<longleftrightarrow> ic_embedding_model p \<noteq> [] \<and> 0 < ic_chunk_size p \<and> 0 \<le> ic_chunk_overlap p
     \<and> ic_chunk_overlap p < ic_chunk_size p"

definition post_ingestion ::
  "env \<Rightarrow> crypto \<Rightarrow> (nat \<Rightarrow> exn option) \<Rightarrow> string \<Rightarrow> uuid \<Rightarrow> ingestion_create \<Rightarrow> job endpoint" where
  "post_ingestion ev cr commit token aid payload =
     bindM (require_roles can_write ev cr token) (\<lambda>_.
     bindM (checked valid_ingestion_create payload) (\<lambda>p.
     handle on_ingest (enqueue_asset_ingestion ev commit aid (ic_embedding_model p) (ic_embedding_provider p)
       (ic_chunk_size p) (ic_chunk_overlap p) (s_job_max_attempts (e_settings ev)))))"

definition read_ingestion :: "env \<Rightarrow> crypto \<Rightarrow> string \<Rightarrow> uuid \<Rightarrow> job endpoint" where
  "read_ingestion ev cr token aid =
     bindM (require_roles can_read ev cr token) (\<lambda>_.
     bindM (handle unmapped (get_latest_asset_ingestion_job aid)) (\<lambda>r. case r of
         None \<Rightarrow> raise (HTTPException 404 (''No ingestion job found for asset '' @ aid)) | Some j \<Rightarrow> ret j))"


section \<open>app/api/v1/health.py\<close>

text \<open>
  \<open>check_database_connection\<close> answers for its own connection; a failure of the heartbeat query (read
  from the oracle) counts as no worker.
\<close>

record health_response =
  he_status :: string
  he_database :: string
  he_queue :: string
  he_worker :: string

definition check_worker_available :: "env \<Rightarrow> (nat \<Rightarrow> exn option) \<Rightarrow> bool app" where
  "check_worker_available ev failure =
     bindM (readM (e_now ev)) (\<lambda>now. bindM (readM failure) (\<lambda>f. case f of
         Some _ \<Rightarrow> ret False
       | None \<Rightarrow> getM (\<lambda>w. list_ex (\<lambda>h.
           now - s_worker_heartbeat_stale_after_seconds (e_settings ev) \<le> hb_last_heartbeat_at h) (heartbeats w))))"

definition health_check :: "env \<Rightarrow> (nat \<Rightarrow> bool) \<Rightarrow> (nat \<Rightarrow> exn option) \<Rightarrow> health_response endpoint" where
  "health_check ev database failure =
     bindM (handle unmapped (readM database)) (\<lambda>db_ok.
     bindM (handle unmapped (check_worker_available ev failure)) (\<lambda>worker_ok.
     ret \<lparr>he_status = (if db_ok then ''ok'' else ''degraded''),
          he_database = (if db_ok then ''connected'' else ''unreachable''),
          he_queue = (if db_ok then ''connected'' else ''unreachable''),
          he_worker = (if worker_ok then ''available'' else ''unavailable'')\<rparr>))"

text \<open>
  The check never fails; a database that cannot be reached degrades the status, a missing worker does
  not, and a worker counts exactly when its last heartbeat is not stale.
\<close>

lemma health_check_answer:
  "\<exists>r w'. health_check ev database failure w = (Inr r, w') \<and> he_status r = (if database (tick w) then ''ok'' else ''degraded'')
     \<and> (failure (Suc (Suc (tick w))) = None \<longrightarrow>
          (he_worker r = ''available'') = (\<exists>h\<in>set (heartbeats w).
             e_now ev (Suc (tick w)) - s_worker_heartbeat_stale_after_seconds (e_settings ev) \<le> hb_last_heartbeat_at h))"
  by (auto simp: health_check_def check_worker_available_def handle_def bindM_def readM_def getM_def ret_def
      list_ex_iff split: option.splits)

section \<open>The application\<close>

datatype api_request =
    PostRun run_create | ReadRun uuid | ReadRuns int int | CancelRun uuid
  | PostWorkflowRun run_create | ReadWorkflowRun uuid | ReadWorkflowRuns int int
  | ReadWorkflowSteps uuid | CancelWorkflowRun uuid
  | Generate generate_request | Embed embed_request | ReadProviders | ReadModels | ReadLlmHealth
  | ReadLlmRequest uuid | ReadMcpServers | ReadMcpTools string
  | PostAsset uuid string upload_file | ReadAssets uuid int int | ReadAsset uuid | DownloadAsset uuid
  | RemoveAsset uuid | PostIngestion uuid ingestion_create | ReadIngestion uuid
  | Products product_request

text \<open>What the process was started with, and the status code a request is answered with.\<close>

record 's server =
  sv_env :: env
  sv_crypto :: crypto
  sv_commit :: "nat \<Rightarrow> exn option"
  sv_storage :: "'s storage"

datatype response = Answer int | Failure http_error

definition answer :: "int \<Rightarrow> ('s, 'a) asset_endpoint \<Rightarrow> world \<times> 's \<Rightarrow> response \<times> world \<times> 's" where
  "answer code m ws = (case m ws of (Inl h, ws') \<Rightarrow> (Failure h, ws') | (Inr _, ws') \<Rightarrow> (Answer code, ws'))"

fun serve_product ::
  "env \<Rightarrow> crypto \<Rightarrow> (nat \<Rightarrow> exn option) \<Rightarrow> string \<Rightarrow> product_request \<Rightarrow> world \<times> 's \<Rightarrow> response \<times> world \<times> 's" where
  "serve_product ev cr commit tok (PostProduct d) = answer 201 (with_db (post_product ev cr commit tok d))"
| "serve_product ev cr commit tok (ReadProduct pid) = answer 200 (with_db (read_product ev cr tok pid))"
| "serve_product ev cr commit tok (ReadProducts l f) = answer 200 (with_db (read_products ev cr tok l f))"
| "serve_product ev cr commit tok (PatchProduct pid d) = answer 200 (with_db (patch_product ev cr commit tok pid d))"

fun serve_request ::
  "env \<Rightarrow> crypto \<Rightarrow> (nat \<Rightarrow> exn option) \<Rightarrow> 's storage \<Rightarrow> string \<Rightarrow> api_request \<Rightarrow> world \<times> 's \<Rightarrow> response \<times> world \<times> 's" where
  "serve_request ev cr commit be tok (PostRun p) = answer 202 (with_db (post_run ev cr commit tok p))"
| "serve_request ev cr commit be tok (ReadRun r) = answer 200 (with_db (read_run ev cr tok r))"
| "serve_request ev cr commit be tok (ReadRuns l f) = answer 200 (with_db (read_runs ev cr tok l f))"
| "serve_request ev cr commit be tok (CancelRun r) = answer 200 (with_db (post_run_cancel ev cr tok r))"
| "serve_request ev cr commit be tok (PostWorkflowRun p) = answer 202 (with_db (post_workflow_run ev cr commit tok p))"
| "serve_request ev cr commit be tok (ReadWorkflowRun r) = answer 200 (with_db (read_workflow_run ev cr tok r))"
| "serve_request ev cr commit be tok (ReadWorkflowRuns l f) = answer 200 (with_db (read_workflow_runs ev cr tok l f))"
| "serve_request ev cr commit be tok (ReadWorkflowSteps r) = answer 200 (with_db (read_workflow_steps ev cr tok r))"
| "serve_request ev cr commit be tok (CancelWorkflowRun r) = answer 200 (with_db (post_workflow_cancel ev cr tok r))"
| "serve_request ev cr commit be tok (Generate p) = answer 200 (with_db (post_generate ev cr tok p))"
| "serve_request ev cr commit be tok (Embed p) = answer 200 (with_db (post_embed ev cr tok p))"
| "serve_request ev cr commit be tok ReadProviders = answer 200 (with_db (read_providers ev cr tok))"
| "serve_request ev cr commit be tok ReadModels = answer 200 (with_db (read_models ev cr tok))"
| "serve_request ev cr commit be tok ReadLlmHealth = answer 200 (with_db (read_llm_health ev cr tok))"
| "serve_request ev cr commit be tok (ReadLlmRequest r) = answer 200 (with_db (read_llm_request ev cr tok r))"
| "serve_request ev cr commit be tok ReadMcpServers = answer 200 (with_db (read_mcp_servers ev cr tok))"
| "serve_request ev cr commit be tok (ReadMcpTools s) = answer 200 (with_db (read_mcp_tools ev cr tok s))"
| "serve_request ev cr commit be tok (PostAsset pid ty f) = answer 201 (post_asset ev cr commit be tok pid ty f)"
| "serve_request ev cr commit be tok (ReadAssets pid l f) = answer 200 (with_db (read_assets ev cr tok pid l f))"
| "serve_request ev cr commit be tok (ReadAsset a) = answer 200 (with_db (read_asset ev cr tok a))"
| "serve_request ev cr commit be tok (DownloadAsset a) = answer 200 (download_asset ev cr be tok a)"
| "serve_request ev cr commit be tok (RemoveAsset a) = answer 204 (remove_asset ev cr be tok a)"
| "serve_request ev cr commit be tok (PostIngestion a p) = answer 202 (with_db (post_ingestion ev cr commit tok a p))"
| "serve_request ev cr commit be tok (ReadIngestion a) = answer 200 (with_db (read_ingestion ev cr tok a))"
| "serve_request ev cr commit be tok (Products r) = serve_product ev cr commit tok r"

definition serve :: "'s server \<Rightarrow> string \<Rightarrow> api_request \<Rightarrow> world \<times> 's \<Rightarrow> response \<times> world \<times> 's" where
  "serve sv tok rq = serve_request (sv_env sv) (sv_crypto sv) (sv_commit sv) (sv_storage sv) tok rq"


section \<open>Reading endpoints write nothing\<close>

lemma reads_only_no_tables: "no_tables p \<Longrightarrow> reads_only p"
  unfolding no_tables_def reads_only_def same_tables_def by metis

lemma reads_only_page: "reads_only q \<Longrightarrow> reads_only (page_response c l f q)"
  unfolding page_response_def
  by (auto intro!: reads_only_bindM reads_only_handle reads_only_checked split: prod.splits)

lemma reads_only_services:
  "reads_only (get_run rid u)" "reads_only (list_runs u l f)" "reads_only (get_workflow_run rid u)"
  "reads_only (list_workflow_runs u l f)" "reads_only (get_steps rid u)" "reads_only (get_request rid u)"
  "reads_only (list_assets_for_product pid l f)" "reads_only (get_asset aid)"
  "reads_only (get_latest_asset_ingestion_job aid)"
  by (auto simp: get_run_def list_runs_def get_workflow_run_def list_workflow_runs_def get_steps_def
      get_request_def list_assets_for_product_def get_asset_def get_latest_asset_ingestion_job_def
      intro!: reads_only_bindM split: option.splits)

lemma reads_only_health_of:
  assumes "lawful_registry (e_providers ev)"
  shows "reads_only (health_of ev names)"
proof (induction names)
  case (Cons n ns)
  show ?case
  proof (cases "e_providers ev n")
    case None
    then show ?thesis using Cons by (auto intro!: reads_only_bindM)
  next
    case (Some p)
    then have "no_tables (pv_health_check p)"
      using assms by (auto simp: lawful_registry_def intro: llm_provider.health_no_tables)
    then have "reads_only (catchM (pv_health_check p) (\<lambda>e. ret (g e)))" for g
      by (intro reads_only_no_tables no_tables_catchM) auto
    then show ?thesis using Cons Some by (auto intro!: reads_only_bindM)
  qed
qed simp

text \<open>Whatever a request does, the tables are the same after it.\<close>

definition untouched :: "world \<times> 's \<Rightarrow> world \<times> 's \<Rightarrow> bool" where
  "untouched ws ws' \<longleftrightarrow> (\<exists>n. fst ws' = (fst ws)\<lparr>tick := n\<rparr>)"

definition world_kept :: "(world \<times> 's, 'e, 'a) m \<Rightarrow> bool" where
  "world_kept m \<longleftrightarrow> (\<forall>ws. untouched ws (snd (m ws)))"

lemma untouched_refl [simp]: "untouched ws ws"
  by (simp add: untouched_def)

lemma untouched_trans: "untouched a b \<Longrightarrow> untouched b c \<Longrightarrow> untouched a c"
  by (auto simp: untouched_def)

lemma world_keptD: "world_kept m \<Longrightarrow> m ws = (r, ws') \<Longrightarrow> untouched ws ws'"
  unfolding world_kept_def by (metis snd_conv)

lemma world_kept_basic [simp, intro]: "world_kept (ret x)" "world_kept (raise e)" "world_kept (in_store q)"
  by (auto simp: world_kept_def ret_def raise_def in_store_def untouched_def split: prod.splits)

lemma world_kept_in_db: "reads_only p \<Longrightarrow> world_kept (in_db p)" "reads_only q \<Longrightarrow> world_kept (with_db q)"
  unfolding world_kept_def untouched_def in_db_def with_db_def reads_only_def by (auto split: prod.splits) (metis snd_conv)+

lemma world_kept_bindM: "world_kept p \<Longrightarrow> (\<And>x. world_kept (f x)) \<Longrightarrow> world_kept (bindM p f)"
  unfolding world_kept_def bindM_def
  by (auto split: prod.splits sum.splits) (metis snd_conv untouched_trans)+

lemma world_kept_catchM: "world_kept p \<Longrightarrow> (\<And>e. world_kept (h e)) \<Longrightarrow> world_kept (catchM p h)"
  unfolding world_kept_def catchM_def
  by (auto split: prod.splits sum.splits) (metis snd_conv untouched_trans)+

lemma world_kept_handle: "world_kept p \<Longrightarrow> world_kept (handle f p)"
  unfolding world_kept_def handle_def by (auto split: prod.splits sum.splits) (metis snd_conv)+

lemma world_kept_download: "world_kept (get_download_payload be aid)"
  unfolding get_download_payload_def storage_failed_def
  by (auto intro!: world_kept_bindM world_kept_catchM world_kept_in_db reads_only_services split: option.splits)

lemma answer_untouched: "world_kept m \<Longrightarrow> untouched ws (snd (answer c m ws))"
  unfolding answer_def by (auto split: prod.splits sum.splits dest: world_keptD)

lemma answer_db_storage: "snd (snd (answer c (with_db p) ws)) = snd ws"
  by (auto simp: answer_def with_db_def split: prod.splits sum.splits)

text \<open>Every reading endpoint, whoever calls it.\<close>

lemma reads_only_endpoints:
  "reads_only (read_run ev cr tok r)" "reads_only (read_runs ev cr tok l f)"
  "reads_only (read_workflow_run ev cr tok r)" "reads_only (read_workflow_runs ev cr tok l f)"
  "reads_only (read_workflow_steps ev cr tok r)" "reads_only (read_providers ev cr tok)"
  "reads_only (read_models ev cr tok)" "reads_only (read_llm_request ev cr tok r)"
  "reads_only (read_mcp_servers ev cr tok)" "reads_only (read_mcp_tools ev cr tok sn)"
  "reads_only (read_assets ev cr tok a l f)" "reads_only (read_asset ev cr tok a)"
  "reads_only (read_ingestion ev cr tok a)"
  unfolding read_run_def read_runs_def read_workflow_run_def read_workflow_runs_def read_workflow_steps_def
    read_providers_def read_models_def read_llm_request_def read_mcp_servers_def read_mcp_tools_def
    read_assets_def read_asset_def read_ingestion_def
  by (auto intro!: role_guard.guarded_reads_only reads_only_bindM reads_only_handle reads_only_services
      reads_only_page reads_only_no_tables [OF no_tables_list_tools] split: option.splits)

lemma reads_only_llm_health:
  "lawful_registry (e_providers ev) \<Longrightarrow> reads_only (read_llm_health ev cr tok)"
  unfolding read_llm_health_def get_health_def gateway_health_check_def
  by (intro role_guard.guarded_reads_only reads_only_handle reads_only_health_of)

lemma download_kept: "world_kept (download_asset ev cr be tok a)"
  unfolding download_asset_def
  by (intro world_kept_bindM world_kept_in_db world_kept_handle world_kept_download world_kept_basic reads_only_roles)

text \<open>A writing endpoint whose guard rejects the request.\<close>

lemma rejected_untouched:
  assumes "fst (require_roles can_write ev cr tok (fst ws)) = Inl h"
  shows "untouched ws (snd (answer c (with_db (bindM (require_roles can_write ev cr tok) f)) ws))"
    and "untouched ws (snd (answer c (bindM (with_db (require_roles can_write ev cr tok)) g) ws))"
    and "snd (snd (answer c (bindM (with_db (require_roles can_write ev cr tok)) g) ws)) = snd ws"
proof -
  obtain w' where r: "require_roles can_write ev cr tok (fst ws) = (Inl h, w')"
    using assms by (cases "require_roles can_write ev cr tok (fst ws)") auto
  obtain n where "w' = (fst ws)\<lparr>tick := n\<rparr>" using reads_onlyD [OF reads_only_roles r] by blast
  with r show "untouched ws (snd (answer c (with_db (bindM (require_roles can_write ev cr tok) f)) ws))"
    "untouched ws (snd (answer c (bindM (with_db (require_roles can_write ev cr tok)) g) ws))"
    "snd (snd (answer c (bindM (with_db (require_roles can_write ev cr tok)) g) ws)) = snd ws"
    by (auto simp: answer_def with_db_def bindM_def untouched_def)
qed

definition writes :: "api_request \<Rightarrow> bool" where
  "writes rq = (case rq of
       PostRun _ \<Rightarrow> True | CancelRun _ \<Rightarrow> True | PostWorkflowRun _ \<Rightarrow> True | CancelWorkflowRun _ \<Rightarrow> True
     | Generate _ \<Rightarrow> True | Embed _ \<Rightarrow> True | PostAsset _ _ _ \<Rightarrow> True | RemoveAsset _ \<Rightarrow> True
     | PostIngestion _ _ \<Rightarrow> True | Products (PostProduct _) \<Rightarrow> True | Products (PatchProduct _ _) \<Rightarrow> True
     | _ \<Rightarrow> False)"

lemma reading_request_untouched:
  assumes "lawful_registry (e_providers ev)" and "\<not> writes rq"
  shows "untouched ws (snd (serve_request ev cr commit be tok rq ws))
    \<and> ((\<forall>a. rq \<noteq> DownloadAsset a) \<longrightarrow> snd (snd (serve_request ev cr commit be tok rq ws)) = snd ws)"
proof (cases rq)
  case (Products p)
  then show ?thesis using assms(2)
    by (cases p)
      (simp_all add: writes_def answer_untouched answer_db_storage world_kept_in_db reads_only_product_reads)
qed (use assms in \<open>simp_all add: writes_def answer_untouched answer_db_storage world_kept_in_db reads_only_endpoints
    reads_only_llm_health download_kept\<close>)

lemma writing_request_untouched:
  assumes "fst (require_roles can_write ev cr tok (fst ws)) = Inl h" and "writes rq"
  shows "untouched ws (snd (serve_request ev cr commit be tok rq ws))
    \<and> snd (snd (serve_request ev cr commit be tok rq ws)) = snd ws"
proof -
  note u = rejected_untouched [OF assms(1)]
  show ?thesis
  proof (cases rq)
    case (Products p)
    then show ?thesis using assms(2)
      by (cases p) (simp_all add: u writes_def answer_db_storage post_product_def patch_product_def)
  qed (use assms(2) in \<open>simp_all add: u writes_def answer_db_storage post_run_def post_run_cancel_def
      post_workflow_run_def post_workflow_cancel_def post_generate_def post_embed_def post_asset_def
      remove_asset_def post_ingestion_def\<close>)
qed

text \<open>
  C10: Only operators and administrators write. Whatever request is made with a token that
  \<open>require_roles(OPERATOR, ADMIN)\<close> does not admit (a viewer's, a disabled account's, an expired or forged
  one), every table is the same after it, and only a download may even use the storage backend.
\<close>

theorem only_writers_change_the_database:
  assumes "lawful_registry (e_providers (sv_env sv))"
    and "fst (require_roles can_write (sv_env sv) (sv_crypto sv) tok w) = Inl h"
    and "serve sv tok rq (w, s) = (resp, (w', s'))"
  shows "same_tables w w' \<and> ((\<forall>a. rq \<noteq> DownloadAsset a) \<longrightarrow> s' = s)"
proof -
  have "untouched (w, s) (w', s') \<and> ((\<forall>a. rq \<noteq> DownloadAsset a) \<longrightarrow> s' = s)"
  proof (cases "writes rq")
    case True
    then show ?thesis
      using writing_request_untouched [of "sv_env sv" "sv_crypto sv" tok "(w, s)" h rq "sv_commit sv" "sv_storage sv"]
        assms(2,3) by (auto simp: serve_def)
  next
    case False
    then show ?thesis
      using reading_request_untouched [OF assms(1) False, of "(w, s)" "sv_crypto sv" "sv_commit sv" "sv_storage sv" tok]
        assms(3) by (simp add: serve_def)
  qed
  then show ?thesis by (auto simp: untouched_def same_tables_def)
qed

definition viewer :: user where
  "viewer = operator\<lparr>u_role := VIEWER\<rparr>"

definition viewer_world :: world where
  "viewer_world = staff_world\<lparr>users := [viewer]\<rparr>"

definition demo_server :: "(string \<Rightarrow> bytes option) server" where
  "demo_server = \<lparr>sv_env = auth_env, sv_crypto = demo_crypto, sv_commit = (\<lambda>_. None), sv_storage = s3_storage demo_s3\<rparr>"

definition viewer_token :: string where
  "viewer_token = issued auth_env demo_crypto ''k'' viewer ACCESS 3"

lemma demo_server_lawful: "lawful_registry (e_providers (sv_env demo_server))"
  using demo_env_lawful by (simp add: demo_server_def auth_env_def)

lemma viewer_rejected:
  "fst (require_roles can_write (sv_env demo_server) (sv_crypto demo_server) viewer_token viewer_world)
     = Inl (HTTPException 403 ''insufficient role for this action'')"
proof -
  have c: "canonical_uuid (u_id viewer)" using operator_canonical by (simp add: viewer_def)
  have "proven_subject auth_env demo_crypto ''k'' ACCESS 9000000 viewer_token = Inr (u_id viewer)"
    unfolding viewer_token_def
    by (rule proven_issued [OF demo_jwt_laws c]) (simp_all add: whole_second_def minutes_def)
  then show ?thesis
    by (simp add: demo_server_def roles_run [OF auth_env_fields(1)] viewer_world_def staff_world_def
        viewer_def operator_def can_write_def)
qed

theorem only_writers_change_the_database_witness:
  "same_tables viewer_world (fst (snd (serve demo_server viewer_token (RemoveAsset ''a1'') (viewer_world, Map.empty))))
     \<and> snd (snd (serve demo_server viewer_token (RemoveAsset ''a1'') (viewer_world, Map.empty))) = Map.empty"
proof -
  obtain resp w' s' where "serve demo_server viewer_token (RemoveAsset ''a1'') (viewer_world, Map.empty) = (resp, (w', s'))"
    by (metis surj_pair)
  from only_writers_change_the_database [OF demo_server_lawful viewer_rejected this] this
  show ?thesis by simp
qed


section \<open>What the services raise is mapped\<close>

text \<open>
  An exception an endpoint accounts for: one of its \<open>except\<close> clauses, or an exception that is not the
  application's (Python's, SQLAlchemy's). A controlled failure is a 4xx or 5xx answer of the endpoint's
  own, or such a foreign exception.
\<close>

definition covers :: "(exn \<Rightarrow> http_error option) \<Rightarrow> exn \<Rightarrow> bool" where
  "covers f e \<longleftrightarrow> f e \<noteq> None \<or> py_error e"

fun controlled :: "http_error \<Rightarrow> bool" where
  "controlled (HTTPException code _) \<longleftrightarrow> 400 \<le> code \<and> code < 600"
| "controlled (Unhandled e) \<longleftrightarrow> py_error e"

lemma controlled_maps:
  "controlled (map_llm_error l)" "controlled (map_mcp_error m)" "controlled (map_runtime_error r)"
  "controlled (map_workflow_error x)"
proof -
  show "controlled (map_llm_error l)" by (cases l) simp_all
  show "controlled (map_mcp_error m)" by (cases m) simp_all
  show "controlled (map_runtime_error r)" by (cases r) simp_all
  show "controlled (map_workflow_error x)" by (cases x) simp_all
qed

text \<open>No clause answers with anything but an error code.\<close>

definition answers_errors :: "(exn \<Rightarrow> http_error option) \<Rightarrow> bool" where
  "answers_errors f \<longleftrightarrow> (\<forall>e h. f e = Some h \<longrightarrow> controlled h)"

lemma answers_errors_clauses [simp, intro]:
  "answers_errors on_llm" "answers_errors on_mcp" "answers_errors on_runtime" "answers_errors on_run_not_found"
  "answers_errors on_run_cancellation" "answers_errors on_workflow" "answers_errors on_workflow_creation"
  "answers_errors on_workflow_run_not_found" "answers_errors on_llm_request_not_found" "answers_errors on_upload"
  "answers_errors on_asset" "answers_errors on_download" "answers_errors on_delete" "answers_errors on_ingest"
  "answers_errors unmapped" "answers_errors product_not_found" "answers_errors duplicate_slug"
  by (auto simp: answers_errors_def on_llm_def on_mcp_def on_runtime_def on_run_not_found_def
      on_run_cancellation_def on_workflow_def on_workflow_creation_def on_workflow_run_not_found_def
      on_llm_request_not_found_def on_upload_def on_asset_def on_download_def on_delete_def on_ingest_def
      unmapped_def product_not_found_def duplicate_slug_def controlled_maps
      split: exn.splits domain_error.splits runtime_error.splits workflow_error.splits job_error.splits)

lemma handle_controlled:
  "answers_errors f \<Longrightarrow> raises_only (covers f) p \<Longrightarrow> raises_only controlled (handle f p)"
proof -
  assume f: "answers_errors f" and p: "raises_only (covers f) p"
  have "controlled (to_http f e)" if c: "covers f e" for e
    using f c unfolding answers_errors_def covers_def to_http_def by (cases "f e") auto
  then show ?thesis
    using p unfolding raises_only_def handle_def by (auto split: prod.splits sum.splits)
qed

lemma covers_intros [simp]:
  "covers f (PyExc n m)" "covers f validation_error"
  "covers on_llm (LLM l)" "covers on_mcp (MCP c)" "covers on_runtime (Runtime r)"
  "covers on_run_not_found (Runtime (AgentRunNotFoundError i))"
  "covers on_run_cancellation (Runtime r)" "covers on_run_cancellation (JobExn (JobAlreadyRunningError i))"
  "covers on_workflow (Workflow x)" "covers on_workflow_creation (Workflow x)" "covers on_workflow_creation (Runtime r)"
  "covers on_workflow_run_not_found (Workflow (WorkflowRunNotFoundError i))"
  "covers on_llm_request_not_found (Domain (LLMRequestNotFoundError i))"
  "covers on_upload (Domain (ProductNotFoundError i))" "covers on_upload (Domain (AssetStorageOperationFailedError t))"
  "covers on_asset (Domain (AssetNotFoundError i))" "covers on_asset (Domain (AssetDeletedError i))"
  "covers on_download (Domain (AssetNotFoundError i))" "covers on_download (Domain (AssetDeletedError i))"
  "covers on_download (Domain (AssetStorageOperationFailedError t))"
  "covers on_delete (Domain (AssetNotFoundError i))" "covers on_delete (Domain (AssetStorageOperationFailedError t))"
  "covers on_ingest (Domain (AssetNotFoundError i))" "covers on_ingest (Domain (AssetDeletedError i))"
  "covers on_ingest (Domain (AssetNotIngestableError i t))" "covers on_ingest (Domain (AssetAlreadyIngestedError i))"
  "covers on_ingest (Domain (AssetIngestionAlreadyQueuedError i))"
  "covers product_not_found (Domain (ProductNotFoundError i))" "covers duplicate_slug (Domain (DuplicateSlugError t))"
  by (simp_all add: covers_def on_llm_def on_mcp_def on_runtime_def on_run_not_found_def
      on_run_cancellation_def on_workflow_def on_workflow_creation_def on_workflow_run_not_found_def
      on_llm_request_not_found_def on_upload_def on_asset_def on_download_def on_delete_def on_ingest_def
      product_not_found_def duplicate_slug_def validation_error_def)

lemma covers_py: "py_error e \<Longrightarrow> covers f e"
  by (simp add: covers_def)

lemma raises_only_if:
  "(b \<Longrightarrow> raises_only P p) \<Longrightarrow> (\<not> b \<Longrightarrow> raises_only P q) \<Longrightarrow> raises_only P (if b then p else q)"
  by simp

lemma raises_only_puts [simp, intro]:
  "raises_only P (put_job j)" "raises_only P (put_workflow_run r)" "raises_only P (put_step_run s)"
  "raises_only P (put_product d)" "raises_only P (put_asset a)"
  by (simp_all add: raises_only_def monad put_product_def put_asset_def)

text \<open>Failures of a commit come from the database.\<close>

definition foreign_commit :: "(nat \<Rightarrow> exn option) \<Rightarrow> bool" where
  "foreign_commit commit \<longleftrightarrow> (\<forall>n e. commit n = Some e \<longrightarrow> py_error e)"

lemma in_transaction_raises:
  "foreign_commit commit \<Longrightarrow> raises_only (covers f) m \<Longrightarrow> raises_only (covers f) (in_transaction commit m)"
proof -
  assume c: "foreign_commit commit" and m: "raises_only (covers f) m"
  show ?thesis unfolding raises_only_def
  proof (intro allI impI)
    fix w e w' assume "in_transaction commit m w = (Inl e, w')"
    then consider w1 where "m w = (Inl e, w1)" | n where "commit n = Some e"
      by (auto simp: in_transaction_def split: prod.splits sum.splits option.splits)
    then show "covers f e"
      by cases (use raises_onlyD [OF m] c covers_py in \<open>auto simp: foreign_commit_def\<close>)
  qed
qed

lemma create_run_covered:
  "raises_only (covers on_runtime) (create_run ev aid u)"
  "raises_only (covers on_workflow_creation) (get_active_agent aid)"
  unfolding create_run_def get_active_agent_def Let_def
  by (auto intro!: raises_only_rules split: option.splits)

lemma add_job_raises [simp, intro]: "raises_only P (add_job ev ty k d n)"
  unfolding add_job_def Let_def by (auto intro!: raises_only_rules)

lemma enqueue_run_covered:
  "foreign_commit commit \<Longrightarrow> raises_only (covers on_runtime) (enqueue_agent_run ev commit aid u i c n)"
  unfolding enqueue_agent_run_def
  by (auto intro!: in_transaction_raises raises_only_rules create_run_covered)

lemma check_agents_covered: "raises_only (covers on_workflow_creation) (check_agents ss)"
  by (induction ss) (auto intro!: raises_only_rules create_run_covered)

lemma add_step_runs_raises [simp, intro]: "raises_only P (add_step_runs ev rid ss)"
  by (induction ss) (auto intro!: raises_only_rules)

lemma enqueue_workflow_covered:
  "foreign_commit commit \<Longrightarrow> raises_only (covers on_workflow_creation) (enqueue_workflow_run ev commit wid u i c n)"
proof -
  assume c: "foreign_commit commit"
  have "errs (covers on_workflow_creation) (parse_workflow_steps w d)" for w d
    using parse_steps_raises [of w d] by (auto simp: errs_def setup_failure_def invalid_def)
  then show ?thesis
    unfolding enqueue_workflow_run_def create_workflow_run_def get_active_workflow_def Let_def
    by (auto intro!: in_transaction_raises [OF c] raises_only_rules check_agents_covered split: option.splits)
qed

lemma reads_covered:
  "raises_only (covers on_run_not_found) (get_run rid u)"
  "raises_only (covers on_run_cancellation) (get_run rid u)"
  "raises_only (covers on_workflow_run_not_found) (get_workflow_run rid u)"
  "raises_only (covers on_workflow) (get_workflow_run rid u)"
  "raises_only (covers on_workflow_run_not_found) (get_steps rid u)"
  "raises_only (covers on_llm_request_not_found) (get_request rid v)"
  "raises_only (covers on_asset) (get_asset aid)" "raises_only (covers on_download) (get_asset aid)"
  "raises_only (covers product_not_found) (get_product pid)"
  unfolding get_run_def get_workflow_run_def get_steps_def get_request_def get_asset_def get_product_def
  by (auto intro!: raises_only_rules split: option.splits)

lemma get_job_for_run_covered [simp, intro]: "raises_only (covers f) (get_job_for_run ty rid)"
  unfolding get_job_for_run_def by (auto intro!: raises_only_rules split: list.splits)

lemma cancel_job_row_raises:
  "j_status j \<in> {JS_QUEUED, JS_RETRYING} \<Longrightarrow> raises_only P (cancel_job_row ev j)"
  unfolding cancel_job_row_def
  by (auto intro!: raises_only_rules simp: cancel_queued_job_def validate_job_transition_def status_simps errs_def
      split: if_splits)

lemma cancel_run_covered: "raises_only (covers on_run_cancellation) (cancel_run ev rid u)"
  unfolding cancel_run_def Let_def
  by (auto intro!: raises_only_rules reads_covered simp: validate_transition_def)

lemma cancel_agent_run_covered: "raises_only (covers on_run_cancellation) (cancel_agent_run ev rid u)"
  unfolding cancel_agent_run_def
  by (auto intro!: raises_only_rules raises_only_if reads_covered cancel_run_covered cancel_job_row_raises
      split: option.splits)

lemma cancel_workflow_covered: "raises_only (covers on_workflow) (cancel_workflow_run ev rid u)"
  unfolding cancel_workflow_run_def Let_def settle_pending_def
  by (auto intro!: raises_only_rules reads_covered simp: validate_workflow_run_transition_def)

lemma cancel_workflow_job_covered: "raises_only (covers on_workflow) (cancel_workflow_job ev rid u)"
  unfolding cancel_workflow_job_def
  by (auto intro!: raises_only_rules raises_only_if reads_covered cancel_workflow_covered cancel_job_row_raises
      split: option.splits)

text \<open>The storage interface: a backend raises storage errors or foreign exceptions.\<close>

definition storage_kind :: "exn \<Rightarrow> bool" where
  "storage_kind e \<longleftrightarrow> is_storage_error e \<or> py_error e"

definition storage_raises :: "'s storage \<Rightarrow> bool" where
  "storage_raises be \<longleftrightarrow> (\<forall>k c t n. raises_only storage_kind (sb_store be k c t) \<and> raises_only storage_kind (sb_open be k)
     \<and> raises_only storage_kind (sb_delete be k) \<and> raises_only storage_kind (sb_download_url be k n))"

lemma raises_only_lift_state:
  "raises_only P m \<Longrightarrow> raises_only P (in_db m)" "raises_only P q \<Longrightarrow> raises_only P (in_store q)"
  "raises_only R d \<Longrightarrow> raises_only R (with_db d)"
  unfolding raises_only_def in_db_def in_store_def with_db_def by (auto split: prod.splits)

lemma storage_failed_covered:
  "raises_only storage_kind m \<Longrightarrow> covers f (Domain (AssetStorageOperationFailedError op)) \<Longrightarrow>
     raises_only (covers f) (storage_failed op m)"
  unfolding storage_failed_def
  by (rule raises_only_catchM [of storage_kind]) (auto simp: storage_kind_def intro: covers_py)

lemma validate_upload_covered: "errs (covers on_upload) (validate_upload st n ct c)"
  by (auto simp: validate_upload_def covers_def on_upload_def)

lemma roll_back_covered:
  assumes "storage_raises be" "py_error e"
  shows "raises_only (covers f) (roll_back be key e)"
proof -
  have "raises_only storage_kind (in_store (sb_delete be key))"
    using assms(1) by (intro raises_only_lift_state) (simp add: storage_raises_def)
  then have "raises_only (covers f)
      (catchM (in_store (sb_delete be key)) (\<lambda>e'. if is_storage_error e' then ret () else raise e'))"
    by (rule raises_only_catchM) (auto simp: storage_kind_def intro: covers_py)
  then show ?thesis
    unfolding roll_back_def using assms(2) by (intro raises_only_seqM) (simp_all add: covers_py)
qed

lemma commit_asset_raises: "foreign_commit commit \<Longrightarrow> raises_only py_error (commit_asset commit a)"
  unfolding commit_asset_def foreign_commit_def
  by (auto simp: raises_only_def bindM_def readM_def raise_def put_asset_def modifyM_def split: option.splits)

lemma storage_provider_of_raises: "errs (covers f) (storage_provider_of s)"
  by (simp add: storage_provider_of_def)

lemma upload_covered:
  assumes be: "storage_raises be" and c: "foreign_commit commit"
  shows "raises_only (covers on_upload) (upload_asset ev commit be pid ty name ct content u)"
proof -
  have "raises_only (covers on_upload) (get_active_product pid)"
    unfolding get_active_product_def
    by (auto intro!: raises_only_rules split: option.splits)
  moreover have "raises_only storage_kind (sb_store be k content (Some ct))" for k
    using be by (simp add: storage_raises_def)
  moreover have "raises_only (covers on_upload) (catchM (in_db (commit_asset commit a))
      (\<lambda>e. if is_integrity_error e then roll_back be k e else raise e))" for a k
    by (rule raises_only_catchM [OF raises_only_lift_state(1) [OF commit_asset_raises [OF c]]])
      (auto intro!: raises_only_if roll_back_covered [OF be] covers_py)
  ultimately show ?thesis
    unfolding upload_asset_def Let_def
    by (auto intro!: raises_only_rules storage_failed_covered validate_upload_covered storage_provider_of_raises
        raises_only_lift_state)
qed

lemma delete_covered:
  assumes be: "storage_raises be"
  shows "raises_only (covers on_delete) (delete_asset ev be aid)"
proof -
  have "raises_only storage_kind (sb_delete be k)" for k
    using be by (simp add: storage_raises_def)
  then show ?thesis
    unfolding delete_asset_def
    by (auto intro!: raises_only_rules storage_failed_covered raises_only_lift_state split: option.splits)
qed

lemma download_covered:
  assumes be: "storage_raises be"
  shows "raises_only (covers on_download) (get_download_payload be aid)"
proof -
  have "raises_only storage_kind (sb_download_url be k n)" "raises_only storage_kind (sb_open be k)" for k n
    using be by (auto simp: storage_raises_def)
  then show ?thesis
    unfolding get_download_payload_def
    by (auto intro!: raises_only_rules storage_failed_covered raises_only_lift_state reads_covered split: option.splits)
qed

lemma enqueue_ingestion_covered:
  assumes c: "foreign_commit commit"
  shows "raises_only (covers on_ingest) (enqueue_asset_ingestion ev commit aid m p cs co n)"
proof -
  have "raises_only (covers on_ingest) (check_ingestable aid)"
    unfolding check_ingestable_def get_asset_def
    by (auto intro!: raises_only_rules split: option.splits)
  moreover have "raises_only (covers on_ingest) (commit_ingestion_job commit aid j)" for j
    using c unfolding commit_ingestion_job_def foreign_commit_def
    by (auto simp: raises_only_def bindM_def readM_def getM_def raise_def put_job_def modifyM_def integrity_error_def
        intro: covers_py split: option.splits if_splits)
  ultimately show ?thesis
    unfolding enqueue_asset_ingestion_def Let_def by (auto intro!: raises_only_rules)
qed

lemma product_services_covered:
  assumes c: "foreign_commit commit"
  shows "raises_only (covers duplicate_slug) (create_product ev commit d)"
    and "raises_only (covers product_not_found) (update_product commit pid u)"
proof -
  have u: "py_error (unique_violation k)" "py_error int32_error" "py_error (not_null_violation k)" for k
    by (simp_all add: unique_violation_def int32_error_def not_null_violation_def)
  have cr: "create_conflict p ps = Some e \<Longrightarrow> py_error e" for p ps e
    by (auto simp: create_conflict_def u split: if_splits)
  have up: "update_conflict u r = Some e \<Longrightarrow> py_error e" for r e
    by (auto simp: update_conflict_def u split: if_splits sum.splits)
  show "raises_only (covers duplicate_slug) (create_product ev commit d)"
    using c unfolding raises_only_def create_product_run foreign_commit_def
    by (auto simp: Let_def split: option.splits if_splits intro: covers_py cr)
  show "raises_only (covers product_not_found) (update_product commit pid u)"
    using c unfolding raises_only_def update_product_run foreign_commit_def
    by (auto simp: Let_def split: option.splits if_splits intro: covers_py up)
qed

text \<open>The backends.\<close>

lemma s3_try_raises: "(\<And>e. P (f e)) \<Longrightarrow> raises_only P (s3_try f call)"
  unfolding raises_only_def s3_try_def by (auto split: prod.splits sum.splits)

lemma s3_storage_raises: "storage_raises (s3_storage b)"
proof -
  have kind: "storage_kind (Storage x)" for x by (simp add: storage_kind_def is_storage_error_def)
  have "raises_only storage_kind (s3_exists b k)" for k
    unfolding raises_only_def s3_exists_def by (auto simp: kind split: prod.splits sum.splits if_splits)
  then show ?thesis
    unfolding storage_raises_def s3_storage_def s3_store_def s3_open_def s3_delete_def s3_download_url_def
    by (auto intro!: raises_only_bindM s3_try_raises simp: kind not_found_or_unavailable_def)
qed


lemma local_storage_raises: "storage_raises (local_storage lb)"
proof -
  have kind: "storage_kind (Storage x)" "storage_kind (raise_os e)" for x e
    by (simp_all add: storage_kind_def is_storage_error_def raise_os_def split: os_error.splits)
  have key: "resolve_key lb k = Inl e \<Longrightarrow> storage_kind e" for k e
    by (auto simp: resolve_key_def Let_def kind split: if_splits)
  have "raises_only storage_kind (local_exists lb k)" for k
    unfolding raises_only_def local_exists_def by (auto simp: kind key split: prod.splits sum.splits)
  then have "raises_only storage_kind (local_download_url lb k n)" for k n
    unfolding raises_only_def local_download_url_def by (auto simp: kind split: prod.splits sum.splits if_splits)
  moreover have "raises_only storage_kind (local_store lb k c t)" for k c t
    unfolding raises_only_def local_store_def by (auto simp: kind key split: prod.splits sum.splits)
  moreover have "raises_only storage_kind (local_open lb k)" "raises_only storage_kind (local_delete lb k)" for k
    unfolding raises_only_def local_open_def local_delete_def
    by (auto simp: kind key split: prod.splits sum.splits if_splits)
  ultimately show ?thesis by (simp add: storage_raises_def local_storage_def)
qed


section \<open>Every endpoint controls its failures\<close>

lemma unauthorized_controlled: "unauthorized h \<Longrightarrow> controlled h"
  by (cases h) (auto simp: unauthorized_def)

lemma guard_controlled: "raises_only controlled (require_roles allowed ev cr tok)"
  unfolding raises_only_def by (auto dest: role_guard.rejects intro: unauthorized_controlled)

lemma checked_controlled [simp, intro]: "raises_only controlled (checked ok x)" "raises_only controlled (paging l f)"
  by (simp_all add: checked_def paging_def validated_def)

lemma guarded_controlled:
  "(\<And>u. raises_only controlled (f u)) \<Longrightarrow> raises_only controlled (bindM (require_roles allowed ev cr tok) f)"
  by (intro raises_only_bindM guard_controlled)

lemma read_controlled:
  "raises_only controlled (handle unmapped (liftE (agent_run_read r)))"
  "raises_only controlled (handle unmapped (liftE (product_read p)))"
proof -
  have "errs (covers unmapped) (agent_run_read r)" by (simp add: agent_run_read_def)
  then show "raises_only controlled (handle unmapped (liftE (agent_run_read r)))"
    by (intro handle_controlled) simp_all
  have "errs (covers unmapped) (product_read p)" by (simp add: product_read_def split: json.splits)
  then show "raises_only controlled (handle unmapped (liftE (product_read p)))"
    by (intro handle_controlled) simp_all
qed

lemma page_controlled:
  "(\<And>r. errs (covers unmapped) (c r)) \<Longrightarrow> raises_only (covers unmapped) q \<Longrightarrow>
     raises_only controlled (page_response c l f q)"
  unfolding page_response_def
  by (auto intro!: raises_only_bindM handle_controlled errs_mapE split: prod.splits)

text \<open>The queries of the list endpoints raise nothing.\<close>

lemma queries_covered [simp, intro]:
  "raises_only P (list_runs u l f)" "raises_only P (list_workflow_runs u l f)"
  "raises_only P (list_assets_for_product pid l f)" "raises_only P (list_products l f)"
  "raises_only P (get_latest_asset_ingestion_job aid)"
  unfolding list_runs_def list_workflow_runs_def list_assets_for_product_def list_products_def
    get_latest_asset_ingestion_job_def
  by (auto intro!: raises_only_rules)

lemma run_endpoints_controlled:
  assumes c: "foreign_commit commit"
  shows "raises_only controlled (post_run ev cr commit tok p)" "raises_only controlled (read_run ev cr tok r)"
    "raises_only controlled (read_runs ev cr tok l f)" "raises_only controlled (post_run_cancel ev cr tok r)"
    "raises_only controlled (post_workflow_run ev cr commit tok p)"
    "raises_only controlled (read_workflow_run ev cr tok r)" "raises_only controlled (read_workflow_runs ev cr tok l f)"
    "raises_only controlled (read_workflow_steps ev cr tok r)" "raises_only controlled (post_workflow_cancel ev cr tok r)"
  unfolding post_run_def read_run_def read_runs_def post_run_cancel_def post_workflow_run_def read_workflow_run_def
    read_workflow_runs_def read_workflow_steps_def post_workflow_cancel_def
  by (auto intro!: guarded_controlled raises_only_bindM handle_controlled read_controlled page_controlled
      enqueue_run_covered [OF c] enqueue_workflow_covered [OF c] reads_covered cancel_agent_run_covered
      cancel_workflow_job_covered simp: agent_run_read_def split: prod.splits)

lemma gateway_covered:
  "lawful_registry (e_providers ev) \<Longrightarrow> raises_only (covers on_llm) (generate_and_persist ev u g)"
  "lawful_registry (e_providers ev) \<Longrightarrow> raises_only (covers on_llm) (embed_and_persist ev u e)"
  "raises_only (covers on_mcp) (bindM (liftE (build_mcp_client s st)) (\<lambda>c. list_tools ev c))"
  "raises_only (covers on_llm_request_not_found) (get_request rid v)"
proof -
  have l: "foreign_error e \<Longrightarrow> covers on_llm e" for e by (cases e) (auto simp: foreign_error_def)
  have m: "mcp_error_kind e \<Longrightarrow> covers on_mcp e" for e by (cases e) (auto simp: mcp_error_kind_def)
  show "lawful_registry (e_providers ev) \<Longrightarrow> raises_only (covers on_llm) (generate_and_persist ev u g)"
    "lawful_registry (e_providers ev) \<Longrightarrow> raises_only (covers on_llm) (embed_and_persist ev u e)"
    by (auto intro: raises_only_mono [OF generate_and_persist_raises l] raises_only_mono [OF embed_and_persist_raises l])
  have "raises_only mcp_error_kind (bindM (liftE (build_mcp_client s st)) (\<lambda>c. list_tools ev c))"
    by (intro raises_only_bindM list_tools_raises) (simp add: build_mcp_client_raises)
  then show "raises_only (covers on_mcp) (bindM (liftE (build_mcp_client s st)) (\<lambda>c. list_tools ev c))"
    by (rule raises_only_mono) (rule m)
qed (rule reads_covered)

lemma configuration_covered:
  "errs (covers f) (list_model_aliases ev)" "errs (covers f) (list_configured_servers st)"
proof -
  have "errs py_error (list_model_aliases ev)"
    by (auto simp: list_model_aliases_def llm_model_aliases_map_def intro!: errs_rules)
  then show "errs (covers f) (list_model_aliases ev)" by (auto simp: errs_def covers_def)
  have "errs py_error (mcp_server_of v)" for v by (cases v) (simp_all add: mcp_server_of_def)
  moreover have "errs py_error (loads_or_raise t)" for t by (intro errs_dynamic)
  ultimately have "errs py_error (list_configured_servers st)"
    by (auto simp: list_configured_servers_def server_registry_def mcp_servers_list_def intro!: errs_rules errs_dynamic
        split: option.splits)
  then show "errs (covers f) (list_configured_servers st)" by (auto simp: errs_def covers_def)
qed

lemma health_covered: "raises_only P (get_health ev)"
  unfolding raises_only_def get_health_def gateway_health_check_def
  using health_of_returns by (metis prod.inject sum.distinct(1))

lemma gateway_endpoints_controlled:
  assumes "lawful_registry (e_providers ev)"
  shows "raises_only controlled (post_generate ev cr tok g)" "raises_only controlled (post_embed ev cr tok e)"
    "raises_only controlled (read_providers ev cr tok)" "raises_only controlled (read_models ev cr tok)"
    "raises_only controlled (read_llm_health ev cr tok)" "raises_only controlled (read_llm_request ev cr tok r)"
    "raises_only controlled (read_mcp_servers ev cr tok)" "raises_only controlled (read_mcp_tools ev cr tok sn)"
  unfolding post_generate_def post_embed_def read_providers_def read_models_def read_llm_health_def
    read_llm_request_def read_mcp_servers_def read_mcp_tools_def
  by (auto intro!: guarded_controlled raises_only_bindM [of controlled] handle_controlled gateway_covered
      configuration_covered health_covered assms)

lemma product_endpoints_controlled:
  assumes c: "foreign_commit commit"
  shows "raises_only controlled (post_product ev cr commit tok d)" "raises_only controlled (read_product ev cr tok pid)"
    "raises_only controlled (read_products ev cr tok l f)" "raises_only controlled (patch_product ev cr commit tok pid u)"
proof -
  have "errs (covers unmapped) (product_read p)" for p by (simp add: product_read_def split: json.splits)
  then have page: "raises_only controlled (handle unmapped (liftE (mapE product_read ps)))" for ps
    by (intro handle_controlled) (auto intro: errs_mapE)
  show "raises_only controlled (post_product ev cr commit tok d)" "raises_only controlled (read_product ev cr tok pid)"
    "raises_only controlled (read_products ev cr tok l f)" "raises_only controlled (patch_product ev cr commit tok pid u)"
    unfolding post_product_def read_product_def read_products_def patch_product_def
    by (auto intro!: guarded_controlled raises_only_bindM [of controlled] handle_controlled [of unmapped "list_products l f"]
        handle_controlled [OF _ product_services_covered(1) [OF c]] handle_controlled [OF _ product_services_covered(2) [OF c]]
        handle_controlled [OF _ reads_covered(9)] read_controlled page split: prod.splits)
qed

lemma asset_endpoints_controlled:
  assumes be: "storage_raises be" and c: "foreign_commit commit"
  shows "raises_only controlled (post_asset ev cr commit be tok pid ty f)"
    "raises_only controlled (read_assets ev cr tok pid l n)" "raises_only controlled (read_asset ev cr tok a)"
    "raises_only controlled (download_asset ev cr be tok a)" "raises_only controlled (remove_asset ev cr be tok a)"
    "raises_only controlled (post_ingestion ev cr commit tok a ic)" "raises_only controlled (read_ingestion ev cr tok a)"
proof -
  have latest: "raises_only controlled (handle unmapped (get_latest_asset_ingestion_job a))"
    by (intro handle_controlled) simp_all
  show "raises_only controlled (post_asset ev cr commit be tok pid ty f)"
    "raises_only controlled (download_asset ev cr be tok a)" "raises_only controlled (remove_asset ev cr be tok a)"
    unfolding post_asset_def download_asset_def remove_asset_def
    by (intro raises_only_bindM raises_only_lift_state guard_controlled handle_controlled answers_errors_clauses
        upload_covered [OF be c] download_covered [OF be] delete_covered [OF be] raises_only_ret)+
  show "raises_only controlled (read_assets ev cr tok pid l n)" "raises_only controlled (read_asset ev cr tok a)"
    "raises_only controlled (post_ingestion ev cr commit tok a ic)" "raises_only controlled (read_ingestion ev cr tok a)"
    unfolding read_assets_def read_asset_def post_ingestion_def read_ingestion_def
    by (auto intro!: guarded_controlled raises_only_bindM [of controlled] page_controlled handle_controlled latest
        reads_covered enqueue_ingestion_covered [OF c] split: option.splits)
qed

lemma answer_controlled:
  "raises_only controlled m \<Longrightarrow> answer c m ws = (Failure h, ws') \<Longrightarrow> controlled h"
  unfolding answer_def by (auto split: prod.splits sum.splits dest: raises_onlyD)

lemma serve_request_controlled:
  assumes "lawful_registry (e_providers ev)" "foreign_commit commit" "storage_raises be"
    and "serve_request ev cr commit be tok rq ws = (Failure h, ws')"
  shows "controlled h"
proof -
  note ends = run_endpoints_controlled [OF assms(2)] gateway_endpoints_controlled [OF assms(1)]
    asset_endpoints_controlled [OF assms(3,2)] product_endpoints_controlled [OF assms(2)]
  show ?thesis
  proof (cases rq)
    case (Products p)
    then show ?thesis using assms(4)
      by (cases p) (auto dest!: answer_controlled [rotated] intro: raises_only_lift_state ends)
  qed (use assms(4) in \<open>auto dest!: answer_controlled [rotated] intro: raises_only_lift_state ends\<close>)
qed

text \<open>
  C28: No error of the application escapes an endpoint. Whoever asks for whatever: when a request fails,
  it fails with an answer the endpoint chose, with a 4xx or 5xx code, or with an exception of Python, the
  database driver or a library. None of the exceptions the services raise themselves (domain, model
  gateway, tool server, runtime, workflow, job and storage errors) passes an endpoint unmapped.
\<close>

theorem application_errors_are_controlled:
  assumes "lawful_registry (e_providers (sv_env sv))" "foreign_commit (sv_commit sv)" "storage_raises (sv_storage sv)"
    and "serve sv tok rq ws = (Failure h, ws')"
  shows "controlled h"
  using serve_request_controlled [OF assms(1-3)] assms(4) by (simp add: serve_def)

theorem application_errors_are_controlled_witness:
  "\<exists>h ws'. serve demo_server viewer_token (RemoveAsset ''a1'') (viewer_world, Map.empty) = (Failure h, ws') \<and> controlled h"
proof -
  obtain h ws' where r: "serve demo_server viewer_token (RemoveAsset ''a1'') (viewer_world, Map.empty) = (Failure h, ws')"
    using viewer_rejected
    by (cases "require_roles can_write (sv_env demo_server) (sv_crypto demo_server) viewer_token viewer_world")
      (auto simp: serve_def remove_asset_def answer_def bindM_def with_db_def)
  have "foreign_commit (sv_commit demo_server)" "storage_raises (sv_storage demo_server)"
    by (simp_all add: demo_server_def foreign_commit_def s3_storage_raises)
  with application_errors_are_controlled [OF demo_server_lawful this r] r show ?thesis by blast
qed

end
