(* ===== verification/Streaming.thy ===== *)
theory Streaming
  imports Gateway
begin

text \<open>
  The streaming half of \<open>app/llm\<close>: \<open>StreamChunk\<close>, each adapter's \<open>stream\<close> and the gateway's. A stream is
  what an asynchronous generator does when it is read to its end: the chunks it yields and the exception that
  ends it, if one does. The HTTP adapters yield the reply of \<open>generate\<close> as one chunk.
\<close>

record stream_chunk =
  sc_request_id :: string
  sc_delta :: json
  sc_finish_reason :: "string option"

type_synonym stream = "world \<Rightarrow> (stream_chunk list \<times> exn option) \<times> world"

definition stream_of_generate :: "(llm_request \<Rightarrow> llm_response app) \<Rightarrow> llm_request \<Rightarrow> stream" where
  "stream_of_generate generate rq w = (case generate rq w of
       (Inl e, w') \<Rightarrow> (([], Some e), w')
     | (Inr r, w') \<Rightarrow> (([\<lparr>sc_request_id = rq_request_id rq, sc_delta = rs_content r,
                          sc_finish_reason = Some (rs_finish_reason r)\<rparr>], None), w'))"

definition anthropic_stream ::
  "(nat \<Rightarrow> time) \<Rightarrow> (nat \<Rightarrow> time) \<Rightarrow> (json \<Rightarrow> nat \<Rightarrow> http_result) \<Rightarrow> llm_request \<Rightarrow> stream" where
  "anthropic_stream now tmr post = stream_of_generate (anthropic_generate now tmr post)"

definition openai_stream ::
  "(nat \<Rightarrow> time) \<Rightarrow> (nat \<Rightarrow> time) \<Rightarrow> (json \<Rightarrow> nat \<Rightarrow> http_result) \<Rightarrow> llm_request \<Rightarrow> stream" where
  "openai_stream now tmr post = stream_of_generate (openai_generate now tmr post)"

definition fake_stream :: "fake_config \<Rightarrow> llm_request \<Rightarrow> stream" where
  "fake_stream fk rq w = (case fk_fail_with fk of
       Some e \<Rightarrow> (([], Some (LLM e)), w)
     | None \<Rightarrow> (([\<lparr>sc_request_id = rq_request_id rq, sc_delta = JStr (fake_content fk rq), sc_finish_reason = None\<rparr>,
                \<lparr>sc_request_id = rq_request_id rq, sc_delta = JStr [], sc_finish_reason = Some ''stop''\<rparr>], None), w))"

text \<open>The \<open>stream\<close> method of the provider that the factory builds under a name.\<close>

definition build_stream ::
  "(nat \<Rightarrow> time) \<Rightarrow> (nat \<Rightarrow> time) \<Rightarrow> network \<Rightarrow> string \<Rightarrow> llm_request \<Rightarrow> stream" where
  "build_stream now tmr net name =
     (if name = ''anthropic'' then anthropic_stream now tmr (nw_anthropic net)
      else if name = ''openai'' then openai_stream now tmr (nw_openai net)
      else fake_stream default_fake)"

text \<open>The provider and model of a request: what the gateway decides before it calls a provider.\<close>

definition routed :: "env \<Rightarrow> llm_request \<Rightarrow> exn + string \<times> string" where
  "routed ev rq = bindE (resolve_provider_name (rq_provider rq) (e_settings ev)) (\<lambda>provider_name.
     bindE (resolve_model provider_name (rq_model rq) (e_settings ev)) (\<lambda>model.
     bindE (get_provider ev provider_name) (\<lambda>_. Inr (provider_name, model))))"

text \<open>
  \<open>streams\<close> gives the \<open>stream\<close> method of each registered provider. Errors of the routing end the stream
  before its first chunk: the body of a generator runs when it is read.
\<close>

definition gateway_stream :: "env \<Rightarrow> (string \<Rightarrow> llm_request \<Rightarrow> stream) \<Rightarrow> llm_request \<Rightarrow> stream" where
  "gateway_stream ev streams rq w = (case routed ev rq of
       Inl e \<Rightarrow> (([], Some e), w)
     | Inr (provider_name, model) \<Rightarrow>
         streams provider_name (rq\<lparr>rq_provider := Some provider_name, rq_model := model\<rparr>) w)"

text \<open>What \<open>generate\<close> does once the request is routed.\<close>

definition answer_routed :: "env \<Rightarrow> llm_request \<Rightarrow> string \<Rightarrow> string \<Rightarrow> provider \<Rightarrow> llm_response app" where
  "answer_routed ev rq name model p =
     bindM (retry_async ev (pv_generate p (rq\<lparr>rq_provider := Some name, rq_model := model\<rparr>)) 0) (\<lambda>response.
     bindM (liftE (case rq_response_format rq of
              None \<Rightarrow> Inr ()
            | Some f \<Rightarrow> validate_structured_output (e_schema_error ev) (rs_content response) (rf_json_schema f))) (\<lambda>_.
     bindM (liftE (estimate_cost_usd (e_settings ev) name model
              (us_input_tokens (rs_usage response)) (us_output_tokens (rs_usage response)))) (\<lambda>cost.
     ret (response\<lparr>rs_cost := cost\<rparr>))))"

lemma gateway_generate_unrouted: "routed ev rq = Inl e \<Longrightarrow> fst (gateway_generate ev rq w) = Inl e"
  by (auto simp: routed_def gateway_generate_def monad bindE_def split: sum.splits)

lemma gateway_generate_routed:
  "routed ev rq = Inr (name, model) \<Longrightarrow>
     \<exists>p. e_providers ev name = Some p \<and> gateway_generate ev rq = answer_routed ev rq name model p"
  by (auto simp: routed_def gateway_generate_def answer_routed_def monad bindE_def get_provider_def Let_def fun_eq_iff
      split: sum.splits option.splits)

section \<open>What a stream delivers\<close>

fun joined :: "stream_chunk list \<Rightarrow> json" where
  "joined [] = JStr []"
| "joined [c] = sc_delta c"
| "joined (c # cs) = JStr (str_of (sc_delta c) @ str_of (joined cs))"

text \<open>A stream that ran to its end is a reply: its chunks belong to the request, make up the content, and only the last has the finish reason.\<close>

definition delivers :: "llm_request \<Rightarrow> llm_response \<Rightarrow> stream_chunk list \<Rightarrow> bool" where
  "delivers rq r cs \<longleftrightarrow> cs \<noteq> [] \<and> joined cs = rs_content r \<and> list_all (\<lambda>c. sc_request_id c = rq_request_id rq) cs
     \<and> list_all (\<lambda>c. sc_finish_reason c = None) (butlast cs) \<and> sc_finish_reason (last cs) = Some (rs_finish_reason r)"

text \<open>The contract between the two halves of a provider: a stream read to its end does what one call of \<open>generate\<close> does.\<close>

locale streaming_provider =
  fixes generate :: "llm_request \<Rightarrow> llm_response app"
    and stream :: "llm_request \<Rightarrow> stream"
  assumes failed: "fst (generate rq w) = Inl e \<Longrightarrow> fst (stream rq w) = ([], Some e)"
    and replied: "fst (generate rq w) = Inr r \<Longrightarrow> \<exists>cs. fst (stream rq w) = (cs, None) \<and> delivers rq r cs"
begin

lemma ended:
  assumes "fst (stream rq w) = (cs, None)"
  obtains r where "fst (generate rq w) = Inr r" "delivers rq r cs"
  using assms failed [of rq w] replied [of rq w] by (cases "fst (generate rq w)") auto

lemma broken:
  assumes "fst (stream rq w) = (cs, Some e)"
  shows "cs = [] \<and> fst (generate rq w) = Inl e"
  using assms failed [of rq w] replied [of rq w] by (cases "fst (generate rq w)") auto

end

lemma stream_of_generate_provider: "streaming_provider generate (stream_of_generate generate)"
  by unfold_locales (auto simp: stream_of_generate_def delivers_def split: prod.splits sum.splits)

interpretation anthropic: streaming_provider "anthropic_generate now tmr post" "anthropic_stream now tmr post"
  unfolding anthropic_stream_def by (rule stream_of_generate_provider)

interpretation openai: streaming_provider "openai_generate now tmr post" "openai_stream now tmr post"
  unfolding openai_stream_def by (rule stream_of_generate_provider)

text \<open>The deterministic provider streams its content in full; without configured tool calls the finish reasons agree.\<close>

lemma fake_stream_provider:
  "\<not> tools_truthy (fk_tool_calls fk) \<Longrightarrow> streaming_provider (fake_generate now fk) (fake_stream fk)"
  by unfold_locales (auto simp: fake_stream_def fake_generate_def delivers_def Let_def monad split: option.splits)

interpretation default_fake: streaming_provider "fake_generate now default_fake" "fake_stream default_fake"
  by (rule fake_stream_provider) (simp add: default_fake_def tools_truthy_def)

lemma build_stream_provider:
  "build_provider now tmr net name st = Inr p \<Longrightarrow> streaming_provider (pv_generate p) (build_stream now tmr net name)"
  by (auto simp: build_provider_def build_stream_def fake_provider_def anthropic.streaming_provider_axioms
      openai.streaming_provider_axioms default_fake.streaming_provider_axioms split: if_splits)

lemma retry_first:
  "fst (operation w) = Inr x \<Longrightarrow> retry_async ev operation n w = operation w"
  "fst (operation w) = Inl e \<Longrightarrow> \<not> retryable e \<Longrightarrow> retry_async ev operation n w = operation w"
  by (subst retry_async.simps; auto split: prod.splits sum.splits)+

lemma answer_reply:
  assumes "fst (pv_generate p (rq\<lparr>rq_provider := Some name, rq_model := model\<rparr>) w) = Inr r"
    and "fst (answer_routed ev rq name model p w) = Inr x"
  shows "\<exists>c. x = r\<lparr>rs_cost := c\<rparr>"
  using assms retry_first(1) [of "pv_generate p (rq\<lparr>rq_provider := Some name, rq_model := model\<rparr>)" w r ev 0]
  by (auto simp: answer_routed_def monad split: prod.splits sum.splits option.splits)

lemma answer_error:
  assumes "fst (pv_generate p (rq\<lparr>rq_provider := Some name, rq_model := model\<rparr>) w) = Inl e" and "\<not> retryable e"
  shows "fst (answer_routed ev rq name model p w) = Inl e"
  using assms retry_first(2) [of "pv_generate p (rq\<lparr>rq_provider := Some name, rq_model := model\<rparr>)" w e ev 0]
  by (auto simp: answer_routed_def monad split: prod.splits sum.splits)


section \<open>Properties\<close>

text \<open>
  C36: The gateway's stream agrees with its \<open>generate\<close>. It is never cut short: an exception ends it before the
  first chunk, and one that \<open>generate\<close> would not retry is the exception \<open>generate\<close> raises. A stream that
  runs to its end delivers a reply, the one \<open>generate\<close> returns if its validation and pricing accept it.
\<close>

theorem stream_agrees_with_generate:
  assumes "e_providers ev = provider_registry now tmr net st"
    and "fst (gateway_stream ev (build_stream now tmr net) rq w) = (cs, err)"
  shows "(err = None \<longrightarrow> (\<exists>r. delivers rq r cs) \<and> (\<forall>x. fst (gateway_generate ev rq w) = Inr x \<longrightarrow> delivers rq x cs))
    \<and> (\<forall>e. err = Some e \<longrightarrow> cs = [] \<and> (\<not> retryable e \<longrightarrow> fst (gateway_generate ev rq w) = Inl e))"
proof (cases "routed ev rq")
  case (Inl e)
  then show ?thesis using assms(2) gateway_generate_unrouted [OF Inl] by (auto simp: gateway_stream_def)
next
  case (Inr nm)
  obtain name model where nm: "nm = (name, model)" by (cases nm)
  obtain p where p: "e_providers ev name = Some p" "gateway_generate ev rq = answer_routed ev rq name model p"
    using gateway_generate_routed Inr nm by blast
  let ?rq = "rq\<lparr>rq_provider := Some name, rq_model := model\<rparr>"
  have "build_provider now tmr net name st = Inr p"
    using p(1) assms(1) by (auto simp: provider_registry_def split: if_splits sum.splits)
  note sp = build_stream_provider [OF this]
  have st: "fst (build_stream now tmr net name ?rq w) = (cs, err)"
    using assms(2) Inr nm by (simp add: gateway_stream_def)
  show ?thesis
  proof (cases err)
    case None
    then obtain r where r: "fst (pv_generate p ?rq w) = Inr r" "delivers ?rq r cs"
      using streaming_provider.ended [OF sp] st by metis
    have "delivers rq r cs" using r(2) by (simp add: delivers_def)
    moreover have "delivers rq x cs" if x: "fst (gateway_generate ev rq w) = Inr x" for x
    proof -
      obtain c where "x = r\<lparr>rs_cost := c\<rparr>" using answer_reply [OF r(1)] x p(2) by auto
      with \<open>delivers rq r cs\<close> show ?thesis by (simp add: delivers_def)
    qed
    ultimately show ?thesis using None by auto
  next
    case (Some e)
    then show ?thesis using streaming_provider.broken [OF sp] st answer_error p(2) by auto
  qed
qed

lemma stream_agrees_with_generate_witness:
  "\<exists>r cs. fst (gateway_stream demo_env (build_stream (\<lambda>n. int n * 1000000) (\<lambda>n. int n * 1000000) no_network)
      demo_request empty_world) = (cs, None) \<and> delivers demo_request r cs"
proof -
  let ?s = "gateway_stream demo_env (build_stream (\<lambda>n. int n * 1000000) (\<lambda>n. int n * 1000000) no_network) demo_request empty_world"
  have "snd (fst ?s) = None" by code_simp
  then obtain cs where cs: "fst ?s = (cs, None)" by (metis prod.collapse)
  have "e_providers demo_env = provider_registry (\<lambda>n. int n * 1000000) (\<lambda>n. int n * 1000000) no_network default_settings"
    by (simp add: demo_env_def)
  from stream_agrees_with_generate [OF this cs] cs show ?thesis by blast
qed

end
