(* ===== verification/Process.thy ===== *)
theory Process
  imports S3 Runner
begin

text \<open>
  Starting a process: the logging configuration and the root endpoint of the API process
  (\<open>app/core/logging.py\<close>, \<open>app/main.py\<close>), and the worker process of \<open>app/worker/main.py\<close>, which constructs the
  settings, the provider registry and the storage backend once and runs the poll loop on them.
\<close>

section \<open>app/core/logging.py and app/main.py\<close>

record app_options =
  ao_app_name :: string
  ao_debug :: bool
  ao_log_level :: string

record logging_state =
  lg_root_level :: string
  lg_sqlalchemy_level :: "string option"
  lg_uvicorn_level :: "string option"

definition LEVEL_NAMES :: "string set" where
  "LEVEL_NAMES = {''CRITICAL'', ''FATAL'', ''ERROR'', ''WARN'', ''WARNING'', ''INFO'', ''DEBUG'', ''NOTSET''}"

text \<open>\<open>str.upper\<close> on the letters that level names consist of.\<close>

definition upper_ascii :: "char \<Rightarrow> char" where
  "upper_ascii c = (let n = of_char c :: nat in if 97 \<le> n \<and> n \<le> 122 then char_of (n - 32) else c)"

definition set_level :: "string \<Rightarrow> exn + string" where
  "set_level level = (if level \<in> LEVEL_NAMES then Inr level else Inl (PyExc ''ValueError'' (''Unknown level: '' @ level)))"

definition configure_logging :: "app_options \<Rightarrow> exn + logging_state" where
  "configure_logging ao = bindE (set_level (map upper_ascii (ao_log_level ao))) (\<lambda>level.
     Inr \<lparr>lg_root_level = level,
          lg_sqlalchemy_level = (if ao_debug ao then None else Some ''WARNING''),
          lg_uvicorn_level = (if ao_debug ao then None else Some ''INFO'')\<rparr>)"

definition root :: "app_options \<Rightarrow> json" where
  "root ao = JObj [(''service'', JStr (ao_app_name ao)), (''status'', JStr ''running'')]"


section \<open>app/worker/main.py\<close>

text \<open>What the process takes from outside: the network, the S3 library, the clocks and the other oracles.\<close>

record 's host =
  ho_environ_worker_id :: "string option"
  ho_hostname :: string
  ho_network :: network
  ho_boto :: "s3_config \<Rightarrow> string + 's s3_client"
  ho_local :: "string \<Rightarrow> exn + 's storage"
  ho_pdf_reader :: pdf_reader
  ho_env :: env

text \<open>\<open>get_llm_gateway()\<close> on the settings: the environment whose providers are the registry's.\<close>

definition get_llm_gateway :: "'s host \<Rightarrow> settings \<Rightarrow> env" where
  "get_llm_gateway h st = (ho_env h)\<lparr>e_settings := st,
     e_providers := provider_registry (e_now (ho_env h)) (e_mono (ho_env h)) (ho_network h) st\<rparr>"

datatype ended = BadSettings "config_error list" | Crashed exn | Stopped bool

text \<open>
  \<open>_amain\<close>: \<open>n\<close> bounds the iterations of the poll loop, \<open>shutdown\<close> is the event that the signal handlers
  set; \<open>commit\<close> and \<open>locked\<close> are those of the loop. The settings come from what the environment gives (\<open>raw\<close>), a
  secret that may have to be generated, and the \<open>.env\<close> file.
\<close>

definition amain ::
  "'s host \<Rightarrow> string \<Rightarrow> string option \<Rightarrow> settings \<Rightarrow> nat \<Rightarrow> (nat \<Rightarrow> exn option) \<Rightarrow> (uuid \<Rightarrow> bool) \<Rightarrow> (nat \<Rightarrow> bool) \<Rightarrow>
     world \<times> 's \<Rightarrow> ended \<times> world \<times> 's" where
  "amain h generated env raw n commit locked shutdown ws =
     (case construct_settings generated env raw of
        Inl es \<Rightarrow> (BadSettings es, ws)
      | Inr (st, _) \<Rightarrow>
          (case get_storage_backend (ho_boto h) (ho_local h) st of
             Inl e \<Rightarrow> (Crashed e, ws)
           | Inr be \<Rightarrow>
               (case run_worker n (get_llm_gateway h st) (ho_pdf_reader h) commit locked be
                       (default_worker_id (ho_environ_worker_id h) (ho_hostname h)) shutdown ws of
                  (Inl e, ws') \<Rightarrow> (Crashed e, ws')
                | (Inr b, ws') \<Rightarrow> (Stopped b, ws'))))"

lemma gateway_lawful: "lawful_registry (e_providers (get_llm_gateway h st))"
  by (simp add: get_llm_gateway_def provider_registry_lawful)

text \<open>Constructing the settings checks the S3 options, and only the secret may change.\<close>

lemma constructed_settings:
  assumes "construct_settings generated env raw = Inr (st, env')"
  shows "validate_s3_settings_when_selected st = Inr st \<and> (\<exists>k. st = raw\<lparr>s_jwt_secret_key := k\<rparr>)"
proof -
  obtain s1 s2 where s: "validate_s3_settings_when_selected raw = Inr s1" "validate_llm_default_provider_is_allowed s1 = Inr s2"
      "resolve_jwt_secret_key generated env s2 = Inr (st, env')"
    using assms by (auto simp: construct_settings_def bindE_def split: if_splits sum.splits)
  then have "s1 = raw" "s2 = raw"
    by (auto simp: validate_s3_settings_when_selected_def validate_llm_default_provider_is_allowed_def Let_def
        split: if_splits option.splits)
  then have "st = raw \<or> (\<exists>k. st = raw\<lparr>s_jwt_secret_key := k\<rparr>)"
    using s(3) by (auto simp: resolve_jwt_secret_key_def Let_def split: if_splits)
  then have st: "\<exists>k. st = raw\<lparr>s_jwt_secret_key := k\<rparr>" by (metis settings.surjective settings.update_convs(2))
  then show ?thesis using s(1) by (auto simp: validate_s3_settings_when_selected_def Let_def split: if_splits)
qed

lemma settings_errors: "construct_settings generated env raw = Inl es \<Longrightarrow> es \<noteq> []"
  by (auto simp: construct_settings_def split: if_splits sum.splits)


section \<open>Properties\<close>


definition demo_host :: "filesystem host" where
  "demo_host = \<lparr>ho_environ_worker_id = None, ho_hostname = ''worker-1'', ho_network = no_network,
     ho_boto = (\<lambda>_. Inl ''no S3 here''), ho_local = (\<lambda>_. Inr (local_storage demo_backend)),
     ho_pdf_reader = (\<lambda>_. Inl ''not a PDF''), ho_env = demo_env\<rparr>"


end
