(* ===== verification/Database.thy ===== *)
theory Database
  imports Config
begin

text \<open>
  Which database a process connects to: the connection strings of \<open>core/config.py\<close>, the engine of
  \<open>database/session.py\<close> and the URL that \<open>alembic/env.py\<close> migrates.
\<close>

record postgres_options =
  po_user :: string
  po_password :: string
  po_host :: string
  po_port :: int
  po_db :: string
  po_test_db :: "string option"

definition default_postgres :: postgres_options where
  "default_postgres = \<lparr>po_user = ''packverse'', po_password = ''packverse'', po_host = ''db'', po_port = 5432,
     po_db = ''packverse'', po_test_db = None\<rparr>"

text \<open>The text of the four properties: driver, credentials, host, port and database name.\<close>

definition postgres_url :: "string \<Rightarrow> postgres_options \<Rightarrow> string \<Rightarrow> string" where
  "postgres_url driver po db = ''postgresql+'' @ driver @ ''://'' @ po_user po @ '':'' @ po_password po
     @ ''@'' @ po_host po @ '':'' @ show_int (po_port po) @ ''/'' @ db"

definition database_url :: "postgres_options \<Rightarrow> string" where
  "database_url po = postgres_url ''asyncpg'' po (po_db po)"

definition sync_database_url :: "postgres_options \<Rightarrow> string" where
  "sync_database_url po = postgres_url ''psycopg2'' po (po_db po)"

definition test_db_name :: "postgres_options \<Rightarrow> string" where
  "test_db_name po = (if falsy_opt (po_test_db po) then po_db po @ ''_test'' else the (po_test_db po))"

definition test_database_url :: "postgres_options \<Rightarrow> string" where
  "test_database_url po = postgres_url ''asyncpg'' po (test_db_name po)"

definition test_sync_database_url :: "postgres_options \<Rightarrow> string" where
  "test_sync_database_url po = postgres_url ''psycopg2'' po (test_db_name po)"

text \<open>\<open>database/session.py\<close>: the arguments of the one engine and of its session factory.\<close>

record engine_options =
  eo_url :: string
  eo_echo :: bool
  eo_pool_pre_ping :: bool
  eo_expire_on_commit :: bool
  eo_autoflush :: bool

definition engine_of :: "postgres_options \<Rightarrow> bool \<Rightarrow> engine_options" where
  "engine_of po debug = \<lparr>eo_url = database_url po, eo_echo = debug, eo_pool_pre_ping = True,
     eo_expire_on_commit = False, eo_autoflush = False\<rparr>"

text \<open>\<open>check_database_connection\<close>: whatever the connection attempt raises is an answer.\<close>

definition check_database_connection :: "exn + 'a \<Rightarrow> bool" where
  "check_database_connection attempt = (case attempt of Inl _ \<Rightarrow> False | Inr _ \<Rightarrow> True)"

text \<open>\<open>alembic/env.py\<close>: a URL set by the caller wins over that of the settings.\<close>

definition migrated_url :: "string option \<Rightarrow> postgres_options \<Rightarrow> string" where
  "migrated_url configured po = (if falsy_opt configured then sync_database_url po else the configured)"

lemma postgres_url_db: "postgres_url d po a = postgres_url d po b \<longleftrightarrow> a = b"
  by (simp add: postgres_url_def)

text \<open>
  Without a test database of their own the tests use another database than the program, whatever the
  options; a configured one is used as it is, and is the program's if it has its name.
\<close>

lemma tests_are_isolated:
  "test_database_url po = database_url po \<longleftrightarrow> po_test_db po = Some (po_db po) \<and> po_db po \<noteq> []"
  "test_sync_database_url po = sync_database_url po \<longleftrightarrow> po_test_db po = Some (po_db po) \<and> po_db po \<noteq> []"
  by (auto simp: test_database_url_def database_url_def test_sync_database_url_def sync_database_url_def
      postgres_url_db test_db_name_def falsy_opt_def split: option.splits if_splits)

text \<open>
  The options are inserted into the URL as they are: a separator in a password yields the URL of other
  options, here of another host.
\<close>

lemma url_of_other_options:
  "database_url (po\<lparr>po_password := p @ ''@'' @ h, po_host := g\<rparr>) = database_url (po\<lparr>po_password := p, po_host := h @ ''@'' @ g\<rparr>)"
  by (simp add: database_url_def postgres_url_def)

end
