(* ===== verification/Schema.thy ===== *)
theory Schema
  imports Main
begin

text \<open>
  A PostgreSQL schema with the rows of its tables, and the statements that Alembic's operations
  (\<open>op.create_table\<close>, \<open>op.add_column\<close>, ...) issue on it: when the database accepts a statement and what
  it then does. A row has a cell per column, NULL or the text of the value. Statements that only add
  to a schema have an inverse; a sequence of them is undone by their inverses in reverse order.
\<close>

section \<open>Schemas\<close>

datatype sql_type =
    Uuid | VarChar nat | Text | Int4 | Int8 | Boolean | Jsonb | TimestampTz | Numeric nat nat | Vector

text \<open>\<open>sa.Enum(..., native_enum=False, length=n)\<close> is a VARCHAR of that length; no CHECK is created.\<close>

definition sa_enum :: "string list \<Rightarrow> nat \<Rightarrow> sql_type" where
  "sa_enum values n = VarChar n"

datatype sql_default = Literal string | Expr string

type_synonym cell = "string option"

text \<open>What a new column holds in the rows that exist; the value of an expression is written as the expression.\<close>

fun default_cell :: "sql_default option \<Rightarrow> cell" where
  "default_cell None = None"
| "default_cell (Some (Literal s)) = Some s"
| "default_cell (Some (Expr e)) = Some e"

record column =
  c_name :: string
  c_type :: sql_type
  c_nullable :: bool
  c_default :: "sql_default option"

record foreign_key =
  fk_name :: string
  fk_columns :: "string list"
  fk_table :: string
  fk_refs :: "string list"
  fk_ondelete :: "string option"

text \<open>A check constraint with the columns its expression mentions.\<close>

record check_constraint =
  ck_name :: string
  ck_text :: string
  ck_columns :: "string list"

record db_table =
  t_name :: string
  t_columns :: "column list"
  t_pk_name :: string
  t_pk :: "string list"
  t_fks :: "foreign_key list"
  t_uniques :: "(string \<times> string list) list"
  t_checks :: "check_constraint list"
  t_rows :: "cell list list"

text \<open>The predicate of a partial index is a conjunction of conditions \<open>column IN (values)\<close>.\<close>

record db_index =
  ix_name :: string
  ix_table :: string
  ix_columns :: "string list"
  ix_unique :: bool
  ix_where :: "(string \<times> string list) list"

record database =
  db_tables :: "db_table list"
  db_indexes :: "db_index list"
  db_extensions :: "string list"

definition empty_database :: database where
  "empty_database = \<lparr>db_tables = [], db_indexes = [], db_extensions = []\<rparr>"

definition column_names :: "db_table \<Rightarrow> string list" where
  "column_names t = map c_name (t_columns t)"

definition constraint_names :: "db_table \<Rightarrow> string list" where
  "constraint_names t = map fk_name (t_fks t) @ map fst (t_uniques t) @ map ck_name (t_checks t)"

definition find_table :: "database \<Rightarrow> string \<Rightarrow> db_table option" where
  "find_table db n = find (\<lambda>t. t_name t = n) (db_tables db)"

definition all_fks :: "database \<Rightarrow> foreign_key list" where
  "all_fks db = concat (map t_fks (db_tables db))"

text \<open>Tables, indexes and the indexes behind primary keys and unique constraints share a name space.\<close>

definition relation_names :: "database \<Rightarrow> string list" where
  "relation_names db = map t_name (db_tables db) @ map ix_name (db_indexes db)
     @ concat (map (\<lambda>t. t_pk_name t # map fst (t_uniques t)) (db_tables db))"

definition cell_of :: "db_table \<Rightarrow> cell list \<Rightarrow> string \<Rightarrow> cell" where
  "cell_of t r c = (case map_of (zip (column_names t) r) c of Some v \<Rightarrow> v | None \<Rightarrow> None)"

definition key_of :: "db_table \<Rightarrow> string list \<Rightarrow> cell list \<Rightarrow> cell list" where
  "key_of t cs r = map (cell_of t r) cs"

definition selects :: "(string \<times> string list) list \<Rightarrow> db_table \<Rightarrow> cell list \<Rightarrow> bool" where
  "selects cond t r \<longleftrightarrow> list_all (\<lambda>(c, vs). case cell_of t r c of None \<Rightarrow> False | Some v \<Rightarrow> v \<in> set vs) cond"

text \<open>NULL is not equal to NULL: only keys without NULL can collide.\<close>

definition no_duplicates :: "db_table \<Rightarrow> string list \<Rightarrow> (string \<times> string list) list \<Rightarrow> bool" where
  "no_duplicates t cs cond \<longleftrightarrow>
     distinct (filter (\<lambda>k. None \<notin> set k) (map (key_of t cs) (filter (selects cond t) (t_rows t))))"

text \<open>A foreign key refers to the primary key or to a unique constraint of an existing table.\<close>

definition fk_target_ok :: "database \<Rightarrow> foreign_key \<Rightarrow> bool" where
  "fk_target_ok db fk \<longleftrightarrow> (case find_table db (fk_table fk) of
       None \<Rightarrow> False
     | Some t \<Rightarrow> (fk_refs fk = t_pk t \<or> fk_refs fk \<in> snd ` set (t_uniques t)) \<and> set (fk_refs fk) \<subseteq> set (column_names t))"

definition fk_rows_ok :: "database \<Rightarrow> db_table \<Rightarrow> foreign_key \<Rightarrow> bool" where
  "fk_rows_ok db t fk \<longleftrightarrow> list_all (\<lambda>r. None \<in> set (key_of t (fk_columns fk) r)
     \<or> (case find_table db (fk_table fk) of
          None \<Rightarrow> False
        | Some u \<Rightarrow> list_ex (\<lambda>q. key_of u (fk_refs fk) q = key_of t (fk_columns fk) r) (t_rows u))) (t_rows t)"

text \<open>The type \<open>vector\<close> belongs to the extension of that name.\<close>

definition type_known :: "database \<Rightarrow> sql_type \<Rightarrow> bool" where
  "type_known db ty \<longleftrightarrow> (ty = Vector \<longrightarrow> ''vector'' \<in> set (db_extensions db))"

definition table_ok :: "db_table \<Rightarrow> bool" where
  "table_ok t \<longleftrightarrow> distinct (column_names t) \<and> distinct (constraint_names t)
     \<and> set (t_pk t) \<subseteq> set (column_names t)
     \<and> list_all (\<lambda>fk. set (fk_columns fk) \<subseteq> set (column_names t)) (t_fks t)
     \<and> list_all (\<lambda>u. set (snd u) \<subseteq> set (column_names t)) (t_uniques t)
     \<and> list_all (\<lambda>k. set (ck_columns k) \<subseteq> set (column_names t)) (t_checks t)
     \<and> list_all (\<lambda>r. length r = length (t_columns t)) (t_rows t)"


section \<open>Statements\<close>

datatype ddl =
    CreateTable db_table | DropTable string
  | AddColumn string column | DropColumn string string
  | AlterDefault string string "sql_default option"
  | CreateIndex db_index | DropIndex string
  | CreateForeignKey string foreign_key
  | CreateUnique string string "string list"
  | DropConstraint string string
  | CreateExtension string | DropExtension string

definition on_table :: "string \<Rightarrow> (db_table \<Rightarrow> db_table) \<Rightarrow> database \<Rightarrow> database" where
  "on_table n f db = db\<lparr>db_tables := map (\<lambda>t. if t_name t = n then f t else t) (db_tables db)\<rparr>"

definition add_column :: "column \<Rightarrow> db_table \<Rightarrow> db_table" where
  "add_column c t = t\<lparr>t_columns := t_columns t @ [c], t_rows := map (\<lambda>r. r @ [default_cell (c_default c)]) (t_rows t)\<rparr>"

text \<open>Dropping a column drops the constraints and indexes that involve it.\<close>

definition drop_column :: "string \<Rightarrow> db_table \<Rightarrow> db_table" where
  "drop_column c t = t\<lparr>
     t_columns := filter (\<lambda>k. c_name k \<noteq> c) (t_columns t),
     t_rows := map (\<lambda>r. map snd (filter (\<lambda>(k, _). c_name k \<noteq> c) (zip (t_columns t) r))) (t_rows t),
     t_pk := (if c \<in> set (t_pk t) then [] else t_pk t),
     t_fks := filter (\<lambda>fk. c \<notin> set (fk_columns fk)) (t_fks t),
     t_uniques := filter (\<lambda>u. c \<notin> set (snd u)) (t_uniques t),
     t_checks := filter (\<lambda>k. c \<notin> set (ck_columns k)) (t_checks t)\<rparr>"

definition involves :: "string \<Rightarrow> string \<Rightarrow> db_index \<Rightarrow> bool" where
  "involves n c i \<longleftrightarrow> ix_table i = n \<and> (c \<in> set (ix_columns i) \<or> c \<in> fst ` set (ix_where i))"

definition set_default :: "string \<Rightarrow> sql_default option \<Rightarrow> db_table \<Rightarrow> db_table" where
  "set_default c d t = t\<lparr>t_columns := map (\<lambda>k. if c_name k = c then k\<lparr>c_default := d\<rparr> else k) (t_columns t)\<rparr>"

definition drop_constraint :: "string \<Rightarrow> db_table \<Rightarrow> db_table" where
  "drop_constraint k t = t\<lparr>t_fks := filter (\<lambda>x. fk_name x \<noteq> k) (t_fks t),
     t_uniques := filter (\<lambda>x. fst x \<noteq> k) (t_uniques t), t_checks := filter (\<lambda>x. ck_name x \<noteq> k) (t_checks t)\<rparr>"

fun effect :: "ddl \<Rightarrow> database \<Rightarrow> database" where
  "effect (CreateTable t) db = db\<lparr>db_tables := db_tables db @ [t]\<rparr>"
| "effect (DropTable n) db = db\<lparr>db_tables := filter (\<lambda>t. t_name t \<noteq> n) (db_tables db),
     db_indexes := filter (\<lambda>i. ix_table i \<noteq> n) (db_indexes db)\<rparr>"
| "effect (AddColumn n c) db = on_table n (add_column c) db"
| "effect (DropColumn n c) db = on_table n (drop_column c)
     (db\<lparr>db_indexes := filter (\<lambda>i. \<not> involves n c i) (db_indexes db)\<rparr>)"
| "effect (AlterDefault n c d) db = on_table n (set_default c d) db"
| "effect (CreateIndex i) db = db\<lparr>db_indexes := db_indexes db @ [i]\<rparr>"
| "effect (DropIndex n) db = db\<lparr>db_indexes := filter (\<lambda>i. ix_name i \<noteq> n) (db_indexes db)\<rparr>"
| "effect (CreateForeignKey n fk) db = on_table n (\<lambda>t. t\<lparr>t_fks := t_fks t @ [fk]\<rparr>) db"
| "effect (CreateUnique n k cs) db = on_table n (\<lambda>t. t\<lparr>t_uniques := t_uniques t @ [(k, cs)]\<rparr>) db"
| "effect (DropConstraint n k) db = on_table n (drop_constraint k) db"
| "effect (CreateExtension e) db =
     (if e \<in> set (db_extensions db) then db else db\<lparr>db_extensions := db_extensions db @ [e]\<rparr>)"
| "effect (DropExtension e) db = db\<lparr>db_extensions := filter (\<lambda>x. x \<noteq> e) (db_extensions db)\<rparr>"

definition table_satisfies :: "database \<Rightarrow> string \<Rightarrow> (db_table \<Rightarrow> bool) \<Rightarrow> bool" where
  "table_satisfies db n p \<longleftrightarrow> (case find_table db n of None \<Rightarrow> False | Some t \<Rightarrow> p t)"

definition fks_ok :: "database \<Rightarrow> bool" where
  "fks_ok db \<longleftrightarrow> list_all (fk_target_ok db) (all_fks db)"

text \<open>Removing something that a foreign key depends on is refused.\<close>

fun allowed :: "database \<Rightarrow> ddl \<Rightarrow> bool" where
  "allowed db (CreateTable t) \<longleftrightarrow> table_ok t \<and> t_rows t = [] \<and> list_all (fk_target_ok db) (t_fks t)
     \<and> list_all (\<lambda>n. n \<notin> set (relation_names db)) (t_name t # t_pk_name t # map fst (t_uniques t))
     \<and> list_all (\<lambda>c. type_known db (c_type c)) (t_columns t)"
| "allowed db (DropTable n) \<longleftrightarrow> find_table db n \<noteq> None \<and> fks_ok (effect (DropTable n) db)"
| "allowed db (AddColumn n c) \<longleftrightarrow> type_known db (c_type c) \<and> table_satisfies db n (\<lambda>t.
     c_name c \<notin> set (column_names t) \<and> (c_nullable c \<or> c_default c \<noteq> None \<or> t_rows t = []))"
| "allowed db (DropColumn n c) \<longleftrightarrow> table_satisfies db n (\<lambda>t. c \<in> set (column_names t))
     \<and> fks_ok (effect (DropColumn n c) db)"
| "allowed db (AlterDefault n c d) \<longleftrightarrow> table_satisfies db n (\<lambda>t. c \<in> set (column_names t))"
| "allowed db (CreateIndex i) \<longleftrightarrow> ix_name i \<notin> set (relation_names db) \<and> table_satisfies db (ix_table i) (\<lambda>t.
     set (ix_columns i) \<union> fst ` set (ix_where i) \<subseteq> set (column_names t)
     \<and> (ix_unique i \<longrightarrow> no_duplicates t (ix_columns i) (ix_where i)))"
| "allowed db (DropIndex n) \<longleftrightarrow> n \<in> set (map ix_name (db_indexes db))"
| "allowed db (CreateForeignKey n fk) \<longleftrightarrow> fk_target_ok db fk \<and> table_satisfies db n (\<lambda>t.
     fk_name fk \<notin> set (constraint_names t) \<and> set (fk_columns fk) \<subseteq> set (column_names t) \<and> fk_rows_ok db t fk)"
| "allowed db (CreateUnique n k cs) \<longleftrightarrow> k \<notin> set (relation_names db) \<and> table_satisfies db n (\<lambda>t.
     k \<notin> set (constraint_names t) \<and> set cs \<subseteq> set (column_names t) \<and> no_duplicates t cs [])"
| "allowed db (DropConstraint n k) \<longleftrightarrow> table_satisfies db n (\<lambda>t. k \<in> set (constraint_names t))
     \<and> fks_ok (effect (DropConstraint n k) db)"
| "allowed db (CreateExtension e) \<longleftrightarrow> True"
| "allowed db (DropExtension e) \<longleftrightarrow>
     (e = ''vector'' \<longrightarrow> list_all (\<lambda>t. list_all (\<lambda>c. c_type c \<noteq> Vector) (t_columns t)) (db_tables db))"

definition run_ddl :: "ddl \<Rightarrow> database \<Rightarrow> database option" where
  "run_ddl s db = (if allowed db s then Some (effect s db) else None)"

text \<open>DDL is transactional: a migration takes effect as a whole or not at all.\<close>

fun run_all :: "ddl list \<Rightarrow> database \<Rightarrow> database option" where
  "run_all [] db = Some db"
| "run_all (s # ss) db = (case run_ddl s db of None \<Rightarrow> None | Some db' \<Rightarrow> run_all ss db')"

lemma run_all_append:
  "run_all (ss @ rs) db = (case run_all ss db of None \<Rightarrow> None | Some db' \<Rightarrow> run_all rs db')"
  by (induction ss arbitrary: db) (simp_all split: option.splits)

section \<open>Well-formed databases\<close>

definition index_ok :: "database \<Rightarrow> db_index \<Rightarrow> bool" where
  "index_ok db i \<longleftrightarrow> table_satisfies db (ix_table i) (\<lambda>t.
     set (ix_columns i) \<union> fst ` set (ix_where i) \<subseteq> set (column_names t))"

definition types_known :: "database \<Rightarrow> bool" where
  "types_known db \<longleftrightarrow> list_all (\<lambda>t. list_all (\<lambda>c. type_known db (c_type c)) (t_columns t)) (db_tables db)"

definition database_ok :: "database \<Rightarrow> bool" where
  "database_ok db \<longleftrightarrow> distinct (map t_name (db_tables db)) \<and> list_all table_ok (db_tables db)
     \<and> fks_ok db \<and> types_known db \<and> distinct (map ix_name (db_indexes db)) \<and> list_all (index_ok db) (db_indexes db)"

lemma find_table_Some:
  "find_table db n = Some t \<Longrightarrow> t \<in> set (db_tables db) \<and> t_name t = n"
  by (auto simp: find_table_def find_Some_iff in_set_conv_nth)

lemma find_table_append:
  "find_table (db\<lparr>db_tables := db_tables db @ ts\<rparr>) n =
     (case find_table db n of None \<Rightarrow> find (\<lambda>t. t_name t = n) ts | Some t \<Rightarrow> Some t)"
proof -
  have "find p (xs @ ys) = (case find p xs of None \<Rightarrow> find p ys | Some x \<Rightarrow> Some x)" for p :: "db_table \<Rightarrow> bool" and xs ys
    by (induction xs) auto
  then show ?thesis by (simp add: find_table_def)
qed

lemma find_table_None: "find_table db n = None \<longleftrightarrow> n \<notin> t_name ` set (db_tables db)"
  by (auto simp: find_table_def find_None_iff)

lemma find_table_ok:
  "distinct (map t_name (db_tables db)) \<Longrightarrow> find_table db n = Some t \<longleftrightarrow> t \<in> set (db_tables db) \<and> t_name t = n"
proof
  assume d: "distinct (map t_name (db_tables db))" and "t \<in> set (db_tables db) \<and> t_name t = n"
  moreover from this obtain u where u: "find_table db n = Some u"
    using find_table_None [of db n] by (cases "find_table db n") auto
  ultimately show "find_table db n = Some t"
    using find_table_Some [OF u] inj_onD [of t_name "set (db_tables db)"] by (auto simp: distinct_map)
qed (rule find_table_Some)

lemma on_table_sel [simp]:
  "db_indexes (on_table n f db) = db_indexes db" "db_extensions (on_table n f db) = db_extensions db"
  "db_tables (on_table n f db) = map (\<lambda>t. if t_name t = n then f t else t) (db_tables db)"
  by (simp_all add: on_table_def)

lemma t_name_kept [simp]:
  "t_name (add_column c t) = t_name t" "t_name (drop_column k t) = t_name t"
  "t_name (set_default k d t) = t_name t" "t_name (drop_constraint k t) = t_name t"
  by (simp_all add: add_column_def drop_column_def set_default_def drop_constraint_def)

lemma column_names_changed [simp]:
  "column_names (add_column c t) = column_names t @ [c_name c]" "column_names (set_default k d t) = column_names t"
  "constraint_names (add_column c t) = constraint_names t" "constraint_names (set_default k d t) = constraint_names t"
  "t_pk (add_column c t) = t_pk t" "t_pk (set_default k d t) = t_pk t"
  "t_uniques (add_column c t) = t_uniques t" "t_uniques (set_default k d t) = t_uniques t"
  "t_fks (add_column c t) = t_fks t" "t_fks (set_default k d t) = t_fks t"
  "t_rows (set_default k d t) = t_rows t"
  by (auto simp: column_names_def constraint_names_def add_column_def set_default_def)

text \<open>A change of one table that keeps its name.\<close>

lemma find_on_table:
  assumes "\<And>t. t_name (f t) = t_name t"
  shows "find_table (on_table n f db) m =
    (case find_table db m of None \<Rightarrow> None | Some t \<Rightarrow> Some (if m = n then f t else t))"
proof -
  have "find (\<lambda>t. t_name t = m) (map (\<lambda>t. if t_name t = n then f t else t) ts) =
      (case find (\<lambda>t. t_name t = m) ts of None \<Rightarrow> None | Some t \<Rightarrow> Some (if m = n then f t else t))" for ts
    by (induction ts) (auto simp: assms)
  then show ?thesis by (simp add: find_table_def)
qed

lemma on_table_inverse:
  assumes "distinct (map t_name (db_tables db))" and t: "t \<in> set (db_tables db)" "t_name t = n"
    and f: "\<And>t. t_name (f t) = t_name t" and g: "g (f t) = t"
  shows "on_table n g (on_table n f db) = db"
proof -
  have "u = t" if "u \<in> set (db_tables db)" "t_name u = n" for u
    using inj_onD [of t_name "set (db_tables db)" u t] assms(1) that t by (simp add: distinct_map)
  with g have g': "g (f u) = u" if "u \<in> set (db_tables db)" "t_name u = n" for u
    using that by simp
  have "map (\<lambda>t. if t_name t = n then g t else t) (map (\<lambda>t. if t_name t = n then f t else t) (db_tables db)) = db_tables db"
    unfolding map_map using f g' by (intro map_idI) auto
  then show ?thesis by (simp add: on_table_def)
qed


section \<open>Inverses\<close>

definition old_default :: "database \<Rightarrow> string \<Rightarrow> string \<Rightarrow> sql_default option" where
  "old_default db n c = (case find_table db n of
       None \<Rightarrow> None
     | Some t \<Rightarrow> (case find (\<lambda>k. c_name k = c) (t_columns t) of None \<Rightarrow> None | Some k \<Rightarrow> c_default k))"

fun undo_of :: "database \<Rightarrow> ddl \<Rightarrow> ddl option" where
  "undo_of db (CreateTable t) = Some (DropTable (t_name t))"
| "undo_of db (AddColumn n c) = Some (DropColumn n (c_name c))"
| "undo_of db (AlterDefault n c d) = Some (AlterDefault n c (old_default db n c))"
| "undo_of db (CreateIndex i) = Some (DropIndex (ix_name i))"
| "undo_of db (CreateForeignKey n fk) = Some (DropConstraint n (fk_name fk))"
| "undo_of db (CreateUnique n k cs) = Some (DropConstraint n k)"
| "undo_of db (CreateExtension e) = (if e \<in> set (db_extensions db) then None else Some (DropExtension e))"
| "undo_of db s = None"

text \<open>The inverses of a sequence, each taken where its statement runs, last first.\<close>

fun undo_all :: "database \<Rightarrow> ddl list \<Rightarrow> ddl list option" where
  "undo_all db [] = Some []"
| "undo_all db (s # ss) = (case (undo_of db s, undo_all (effect s db) ss) of
       (Some r, Some rs) \<Rightarrow> Some (rs @ [r]) | _ \<Rightarrow> None)"

lemma filter_fresh: "x \<notin> f ` set xs \<Longrightarrow> filter (\<lambda>y. f y \<noteq> x) xs = xs"
  by (auto intro!: filter_True)

lemma zip_append_cell:
  "length r = length cs \<Longrightarrow> c \<notin> c_name ` set cs \<Longrightarrow>
     map snd (filter (\<lambda>(k, _). c_name k \<noteq> c) (zip cs r)) = r"
  by (induction r cs rule: list_induct2) auto

lemma drop_added_column:
  assumes "table_ok t" and "c_name c \<notin> set (column_names t)"
  shows "drop_column (c_name c) (add_column c t) = t"
proof -
  have n: "c_name c \<notin> c_name ` set (t_columns t)" using assms(2) by (simp add: column_names_def)
  then have cols: "filter (\<lambda>k. c_name k \<noteq> c_name c) (t_columns t @ [c]) = t_columns t"
    by (simp add: filter_fresh)
  have rows: "map (\<lambda>r. map snd (filter (\<lambda>(k, _). c_name k \<noteq> c_name c) (zip (t_columns t @ [c]) r)))
      (map (\<lambda>r. r @ [x]) (t_rows t)) = t_rows t" for x
    unfolding map_map
  proof (intro map_idI)
    fix r assume "r \<in> set (t_rows t)"
    then have "length r = length (t_columns t)" using assms(1) by (simp add: table_ok_def list_all_iff)
    with zip_append_cell [OF this n]
    show "((\<lambda>r. map snd (filter (\<lambda>(k, _). c_name k \<noteq> c_name c) (zip (t_columns t @ [c]) r))) \<circ> (\<lambda>r. r @ [x])) r = r"
      by simp
  qed
  have "c_name c \<notin> set (t_pk t)"
    "filter (\<lambda>fk. c_name c \<notin> set (fk_columns fk)) (t_fks t) = t_fks t"
    "filter (\<lambda>u. c_name c \<notin> set (snd u)) (t_uniques t) = t_uniques t"
    "filter (\<lambda>k. c_name c \<notin> set (ck_columns k)) (t_checks t) = t_checks t"
    using assms by (auto simp: table_ok_def list_all_iff intro!: filter_True)
  with cols rows show ?thesis by (simp add: drop_column_def add_column_def)
qed

lemma reset_default:
  assumes "distinct (column_names t)" and "find (\<lambda>k. c_name k = c) (t_columns t) = Some k"
  shows "set_default c (c_default k) (set_default c d t) = t"
proof -
  have "map (\<lambda>k'. if c_name k' = c then k'\<lparr>c_default := c_default k\<rparr> else k')
      (map (\<lambda>k'. if c_name k' = c then k'\<lparr>c_default := d\<rparr> else k') cs) = cs"
    if "distinct (map c_name cs)" "find (\<lambda>k. c_name k = c) cs = Some k" for cs
    using that
  proof (induction cs)
    case (Cons x xs)
    have "map (\<lambda>k'. if c_name k' = c then k'\<lparr>c_default := c_default k\<rparr> else k')
        (map (\<lambda>k'. if c_name k' = c then k'\<lparr>c_default := d\<rparr> else k') xs) = xs" if "c \<notin> c_name ` set xs"
      using that unfolding map_map by (intro map_idI) auto
    with Cons show ?case by (auto split: if_splits)
  qed simp
  then show ?thesis using assms by (simp add: set_default_def column_names_def)
qed



lemma drop_added_constraint:
  assumes "k \<notin> set (constraint_names t)"
  shows "fk_name fk = k \<Longrightarrow> drop_constraint k (t\<lparr>t_fks := t_fks t @ [fk]\<rparr>) = t"
    and "drop_constraint k (t\<lparr>t_uniques := t_uniques t @ [(k, cs)]\<rparr>) = t"
  using assms by (auto simp: drop_constraint_def constraint_names_def filter_fresh)

lemma table_satisfiesE:
  assumes "table_satisfies db n p"
  obtains t where "find_table db n = Some t" "t \<in> set (db_tables db)" "t_name t = n" "p t"
  using assms find_table_Some unfolding table_satisfies_def by (cases "find_table db n") auto

lemma index_not_involved:
  assumes "index_ok db i" "find_table db n = Some t" "t \<in> set (db_tables db)" "t_name t = n" "c \<notin> set (column_names t)"
  shows "\<not> involves n c i"
proof
  assume inv: "involves n c i"
  then have "set (ix_columns i) \<union> fst ` set (ix_where i) \<subseteq> set (column_names t)"
    using assms(1,2) by (simp add: index_ok_def involves_def table_satisfies_def)
  then show False using inv assms(5) unfolding involves_def by blast
qed

text \<open>Undoing the effect of an accepted statement.\<close>

lemma effect_inverse:
  assumes ok: "database_ok db" and a: "allowed db s" and i: "Some r = undo_of db s"
  shows "effect r (effect s db) = db"
proof -
  have dist: "distinct (map t_name (db_tables db))"
    using ok by (simp add: database_ok_def)
  have tab: "t \<in> set (db_tables db) \<Longrightarrow> table_ok t" for t
    using ok by (simp add: database_ok_def list_all_iff)
  have ix: "i \<in> set (db_indexes db) \<Longrightarrow> index_ok db i" for i
    using ok by (simp add: database_ok_def list_all_iff)
  show ?thesis
  proof (cases s)
    case (CreateTable t)
    have "t_name t \<notin> t_name ` set (db_tables db)" using a CreateTable by (simp add: relation_names_def)
    moreover have "ix_table i \<noteq> t_name t" if "i \<in> set (db_indexes db)" for i
      using ix [OF that] calculation find_table_None [of db "t_name t"]
      by (auto simp: index_ok_def table_satisfies_def split: option.splits)
    ultimately show ?thesis using i CreateTable by (auto simp: filter_fresh intro!: filter_True)
  next
    case (AddColumn n c)
    then obtain t where t: "find_table db n = Some t" "t \<in> set (db_tables db)" "t_name t = n"
        "c_name c \<notin> set (column_names t)"
      using a by (auto elim!: table_satisfiesE)
    have "\<not> involves n (c_name c) i" if "i \<in> set (db_indexes db)" for i
      using ix [OF that] t by (rule index_not_involved)
    then have "filter (\<lambda>i. \<not> involves n (c_name c) i) (db_indexes db) = db_indexes db"
      by (auto intro!: filter_True)
    then have "effect (DropColumn n (c_name c)) (effect (AddColumn n c) db)
        = on_table n (drop_column (c_name c)) (on_table n (add_column c) db)"
      by (simp add: on_table_def)
    moreover have "on_table n (drop_column (c_name c)) (on_table n (add_column c) db) = db"
      by (rule on_table_inverse [OF dist t(2,3)]) (use drop_added_column [OF tab [OF t(2)] t(4)] in simp_all)
    moreover have "r = DropColumn n (c_name c)" using i AddColumn by simp
    ultimately show ?thesis using AddColumn by (simp only:)
  next
    case (AlterDefault n c d)
    then obtain t where t: "find_table db n = Some t" "t \<in> set (db_tables db)" "t_name t = n" "c \<in> set (column_names t)"
      using a by (auto elim!: table_satisfiesE)
    then obtain k where k: "find (\<lambda>k. c_name k = c) (t_columns t) = Some k"
      by (cases "find (\<lambda>k. c_name k = c) (t_columns t)") (auto simp: find_None_iff column_names_def)
    then have "old_default db n c = c_default k" using t by (simp add: old_default_def)
    moreover have "on_table n (set_default c (c_default k)) (on_table n (set_default c d) db) = db"
      by (rule on_table_inverse [OF dist t(2,3)])
        (use tab [OF t(2)] k in \<open>simp_all add: reset_default table_ok_def\<close>)
    ultimately show ?thesis using i AlterDefault by simp
  next
    case (CreateIndex x)
    then show ?thesis using a i by (auto simp: relation_names_def filter_fresh)
  next
    case (CreateForeignKey n fk)
    then obtain t where t: "t \<in> set (db_tables db)" "t_name t = n" "fk_name fk \<notin> set (constraint_names t)"
      using a by (auto elim!: table_satisfiesE)
    have "on_table n (drop_constraint (fk_name fk)) (on_table n (\<lambda>t. t\<lparr>t_fks := t_fks t @ [fk]\<rparr>) db) = db"
      by (rule on_table_inverse [OF dist t(1,2)]) (use drop_added_constraint(1) [OF t(3)] in simp_all)
    then show ?thesis using i CreateForeignKey by simp
  next
    case (CreateUnique n k cs)
    then obtain t where t: "t \<in> set (db_tables db)" "t_name t = n" "k \<notin> set (constraint_names t)"
      using a by (auto elim!: table_satisfiesE)
    have "on_table n (drop_constraint k) (on_table n (\<lambda>t. t\<lparr>t_uniques := t_uniques t @ [(k, cs)]\<rparr>) db) = db"
      by (rule on_table_inverse [OF dist t(1,2)]) (use drop_added_constraint(2) [OF t(3)] in simp_all)
    then show ?thesis using i CreateUnique by simp
  next
    case (CreateExtension e)
    then show ?thesis using i by (auto simp: filter_fresh split: if_splits intro!: filter_True)
  qed (use i in simp_all)
qed

lemma ok_fks: "database_ok db \<Longrightarrow> fks_ok db"
  by (simp add: database_ok_def)

text \<open>The inverse of an accepted statement is accepted: it finds what was added, and all foreign keys were valid before.\<close>

lemma inverse_allowed:
  assumes ok: "database_ok db" and a: "allowed db s" and i: "Some r = undo_of db s"
  shows "allowed (effect s db) r"
proof -
  have restored: "effect r (effect s db) = db" by (rule effect_inverse [OF ok a i])
  have fks: "fks_ok (effect r (effect s db))" unfolding restored by (rule ok_fks [OF ok])
  show ?thesis
  proof (cases s)
    case (CreateTable t)
    then show ?thesis using i fks by (auto simp: find_table_None)
  next
    case (AddColumn n c)
    then obtain t where "find_table db n = Some t" using a by (auto elim!: table_satisfiesE)
    then have "table_satisfies (on_table n (add_column c) db) n (\<lambda>t. c_name c \<in> set (column_names t))"
      by (simp add: table_satisfies_def find_on_table column_names_def add_column_def)
    then show ?thesis using i fks AddColumn by simp
  next
    case (AlterDefault n c d)
    then obtain t where "find_table db n = Some t" "c \<in> set (column_names t)" using a by (auto elim!: table_satisfiesE)
    then have "table_satisfies (on_table n (set_default c d) db) n (\<lambda>t. c \<in> set (column_names t))"
      by (simp add: table_satisfies_def find_on_table)
    then show ?thesis using i AlterDefault by simp
  next
    case (CreateForeignKey n fk)
    then obtain t where "find_table db n = Some t" using a by (auto elim!: table_satisfiesE)
    then have "table_satisfies (effect s db) n (\<lambda>t. fk_name fk \<in> set (constraint_names t))"
      by (simp add: CreateForeignKey table_satisfies_def find_on_table constraint_names_def)
    then show ?thesis using i fks CreateForeignKey by simp
  next
    case (CreateUnique n k cs)
    then obtain t where "find_table db n = Some t" using a by (auto elim!: table_satisfiesE)
    then have "table_satisfies (effect s db) n (\<lambda>t. k \<in> set (constraint_names t))"
      by (simp add: CreateUnique table_satisfies_def find_on_table constraint_names_def)
    then show ?thesis using i fks CreateUnique by simp
  next
    case (CreateExtension e)
    then have e: "e \<notin> set (db_extensions db)" "r = DropExtension e" using i by (simp_all split: if_splits)
    show ?thesis
    proof (cases "e = ''vector''")
      case True
      then have "list_all (\<lambda>t. list_all (\<lambda>c. c_type c \<noteq> Vector) (t_columns t)) (db_tables db)"
        using ok e(1) by (auto simp: database_ok_def types_known_def type_known_def list_all_iff)
      then show ?thesis using e CreateExtension by simp
    qed (use e CreateExtension in simp)
  qed (use i in simp_all)
qed

text \<open>A database that has at least the tables, columns, keys and extensions of another.\<close>

definition extends :: "database \<Rightarrow> database \<Rightarrow> bool" where
  "extends db db' \<longleftrightarrow> set (db_extensions db) \<subseteq> set (db_extensions db')
     \<and> (\<forall>n t. find_table db n = Some t \<longrightarrow> (\<exists>u. find_table db' n = Some u \<and> t_pk u = t_pk t
          \<and> set (t_uniques t) \<subseteq> set (t_uniques u) \<and> set (column_names t) \<subseteq> set (column_names u)))"

lemma extendsE:
  assumes "extends db db'" "find_table db n = Some t"
  obtains u where "find_table db' n = Some u" "t_pk u = t_pk t" "set (t_uniques t) \<subseteq> set (t_uniques u)"
    "set (column_names t) \<subseteq> set (column_names u)"
  using assms unfolding extends_def by blast

lemma extends_fk: "extends db db' \<Longrightarrow> fk_target_ok db fk \<Longrightarrow> fk_target_ok db' fk"
proof -
  assume e: "extends db db'" and f: "fk_target_ok db fk"
  obtain t where t: "find_table db (fk_table fk) = Some t" "fk_refs fk = t_pk t \<or> fk_refs fk \<in> snd ` set (t_uniques t)"
    "set (fk_refs fk) \<subseteq> set (column_names t)"
    using f by (auto simp: fk_target_ok_def split: option.splits)
  obtain u where u: "find_table db' (fk_table fk) = Some u" "t_pk u = t_pk t" "set (t_uniques t) \<subseteq> set (t_uniques u)"
    "set (column_names t) \<subseteq> set (column_names u)"
    using e t(1) by (rule extendsE)
  then have "snd ` set (t_uniques t) \<subseteq> snd ` set (t_uniques u)" by (intro image_mono)
  then have "fk_refs fk = t_pk u \<or> fk_refs fk \<in> snd ` set (t_uniques u)" using t(2) u(2) by auto
  moreover have "set (fk_refs fk) \<subseteq> set (column_names u)" using t(3) u(4) by (rule subset_trans)
  ultimately show ?thesis by (simp add: fk_target_ok_def u(1))
qed

lemma extends_index: "extends db db' \<Longrightarrow> index_ok db i \<Longrightarrow> index_ok db' i"
proof -
  assume e: "extends db db'" and i: "index_ok db i"
  obtain t where t: "find_table db (ix_table i) = Some t"
    "set (ix_columns i) \<union> fst ` set (ix_where i) \<subseteq> set (column_names t)"
    using i by (auto simp: index_ok_def table_satisfies_def split: option.splits)
  obtain u where u: "find_table db' (ix_table i) = Some u" "set (column_names t) \<subseteq> set (column_names u)"
    using e t(1) by (rule extendsE)
  have "set (ix_columns i) \<union> fst ` set (ix_where i) \<subseteq> set (column_names u)" using t(2) u(2) by (rule subset_trans)
  then show ?thesis by (simp add: index_ok_def table_satisfies_def u(1))
qed

lemma extends_type: "extends db db' \<Longrightarrow> type_known db ty \<Longrightarrow> type_known db' ty"
  unfolding type_known_def extends_def by blast

lemma extends_tables:
  assumes "\<And>n. find_table db n \<noteq> None \<Longrightarrow> find_table db' n = find_table db n" and "set (db_extensions db) \<subseteq> set (db_extensions db')"
  shows "extends db db'"
  using assms unfolding extends_def by (metis option.distinct(1) subset_refl)

lemma extends_on_table:
  assumes "\<And>t. t_name (f t) = t_name t" "\<And>t. t_pk (f t) = t_pk t" "\<And>t. set (t_uniques t) \<subseteq> set (t_uniques (f t))"
    "\<And>t. set (column_names t) \<subseteq> set (column_names (f t))"
  shows "extends db (on_table n f db)"
  using assms unfolding extends_def by (auto simp: find_on_table)

lemma fks_ok_iff: "fks_ok db \<longleftrightarrow> (\<forall>t\<in>set (db_tables db). \<forall>fk\<in>set (t_fks t). fk_target_ok db fk)"
  by (auto simp: fks_ok_def all_fks_def list_all_iff)

lemma on_table_database_ok:
  assumes ok: "database_ok db" and t: "find_table db n = Some t" and ext: "extends db (on_table n f db)"
    and name: "\<And>u. t_name (f u) = t_name u" and tab: "table_ok (f t)"
    and fks: "\<And>fk. fk \<in> set (t_fks (f t)) \<Longrightarrow> fk \<in> set (t_fks t) \<or> fk_target_ok db fk"
    and types: "\<And>c. c \<in> set (t_columns (f t)) \<Longrightarrow> type_known db (c_type c)"
  shows "database_ok (on_table n f db)"
proof -
  have mem: "t \<in> set (db_tables db)" "t_name t = n" using find_table_Some [OF t] by simp_all
  have only: "u = t" if "u \<in> set (db_tables db)" "t_name u = n" for u
    using ok that mem inj_onD [of t_name "set (db_tables db)" u t] by (simp add: database_ok_def distinct_map)
  have cases: "u \<in> set (db_tables db) \<or> u = f t" if "u \<in> set (db_tables (on_table n f db))" for u
    using that only by auto
  have names: "map t_name (db_tables (on_table n f db)) = map t_name (db_tables db)"
    by (simp add: name)
  have "table_ok u" if "u \<in> set (db_tables (on_table n f db))" for u
    using cases [OF that] ok tab by (auto simp: database_ok_def list_all_iff)
  moreover have "fk_target_ok db fk" if "u \<in> set (db_tables (on_table n f db))" "fk \<in> set (t_fks u)" for u fk
    using cases [OF that(1)] that(2) ok mem(1) fks [of fk] by (auto simp: database_ok_def fks_ok_iff)
  moreover have "type_known db (c_type c)" if "u \<in> set (db_tables (on_table n f db))" "c \<in> set (t_columns u)" for u c
    using cases [OF that(1)] that(2) ok types by (auto simp: database_ok_def types_known_def list_all_iff)
  ultimately show ?thesis
    using ok names extends_fk [OF ext] extends_index [OF ext] extends_type [OF ext]
    unfolding database_ok_def fks_ok_iff types_known_def list_all_iff by (metis on_table_sel(1))
qed

lemma add_column_ok:
  "table_ok t \<Longrightarrow> c_name c \<notin> set (column_names t) \<Longrightarrow> table_ok (add_column c t)"
  by (auto simp: table_ok_def list_all_iff) (auto simp: add_column_def)

lemma set_default_ok: "table_ok t \<Longrightarrow> table_ok (set_default c d t)"
  by (auto simp: table_ok_def list_all_iff) (auto simp: set_default_def)

text \<open>A statement with an inverse keeps a database well-formed.\<close>

lemma effect_keeps_ok:
  assumes ok: "database_ok db" and a: "allowed db s" and i: "undo_of db s \<noteq> None"
  shows "database_ok (effect s db)"
proof -
  have tab: "table_ok t" if "find_table db n = Some t" for n t
    using ok find_table_Some [OF that] by (simp add: database_ok_def list_all_iff)
  have typed: "type_known db (c_type c)" if "find_table db n = Some t" "c \<in> set (t_columns t)" for n t c
    using ok find_table_Some [OF that(1)] that(2) by (auto simp: database_ok_def types_known_def list_all_iff)
  show ?thesis
  proof (cases s)
    case (CreateTable t)
    have fresh: "t_name t \<notin> t_name ` set (db_tables db)" using a CreateTable by (simp add: relation_names_def)
    have "extends db (effect s db)"
      using CreateTable by (intro extends_tables) (auto simp: find_table_append)
    note ext = extends_fk [OF this] extends_index [OF this] extends_type [OF this]
    show ?thesis using ok a fresh ext unfolding database_ok_def fks_ok_iff types_known_def list_all_iff
      by (auto simp: CreateTable list_all_iff)
  next
    case (AddColumn n c)
    then obtain t where t: "find_table db n = Some t" "c_name c \<notin> set (column_names t)" using a by (auto elim!: table_satisfiesE)
    have "database_ok (on_table n (add_column c) db)"
    proof (rule on_table_database_ok [OF ok t(1)])
      show "extends db (on_table n (add_column c) db)" by (rule extends_on_table) auto
      show "table_ok (add_column c t)" using tab [OF t(1)] t(2) by (rule add_column_ok)
    qed (use a AddColumn typed [OF t(1)] in \<open>auto simp: add_column_def\<close>)
    then show ?thesis by (simp add: AddColumn)
  next
    case (AlterDefault n c d)
    then obtain t where t: "find_table db n = Some t" using a by (auto elim!: table_satisfiesE)
    have "database_ok (on_table n (set_default c d) db)"
    proof (rule on_table_database_ok [OF ok t])
      show "extends db (on_table n (set_default c d) db)" by (rule extends_on_table) auto
      show "table_ok (set_default c d t)" using tab [OF t] by (rule set_default_ok)
    qed (use typed [OF t] in \<open>auto simp: set_default_def split: if_splits\<close>)
    then show ?thesis by (simp add: AlterDefault)
  next
    case (CreateIndex x)
    have "extends db (effect s db)"
      using CreateIndex by (intro extends_tables) (auto simp: find_table_def)
    note ext = extends_fk [OF this] extends_index [OF this] extends_type [OF this]
    have "index_ok db x" using a CreateIndex by (auto simp: index_ok_def table_satisfies_def split: option.splits)
    with ok a ext show ?thesis unfolding database_ok_def fks_ok_iff types_known_def list_all_iff
      by (auto simp: CreateIndex relation_names_def)
  next
    case (CreateForeignKey n fk)
    then obtain t where t: "find_table db n = Some t" "fk_name fk \<notin> set (constraint_names t)"
        "set (fk_columns fk) \<subseteq> set (column_names t)" using a by (auto elim!: table_satisfiesE)
    have "database_ok (on_table n (\<lambda>t. t\<lparr>t_fks := t_fks t @ [fk]\<rparr>) db)"
    proof (rule on_table_database_ok [OF ok t(1)])
      show "extends db (on_table n (\<lambda>t. t\<lparr>t_fks := t_fks t @ [fk]\<rparr>) db)"
        by (rule extends_on_table) (auto simp: column_names_def)
      show "table_ok (t\<lparr>t_fks := t_fks t @ [fk]\<rparr>)"
        using tab [OF t(1)] t(2,3) by (auto simp: table_ok_def column_names_def constraint_names_def list_all_iff)
    qed (use a CreateForeignKey typed [OF t(1)] in auto)
    then show ?thesis by (simp add: CreateForeignKey)
  next
    case (CreateUnique n k cs)
    then obtain t where t: "find_table db n = Some t" "k \<notin> set (constraint_names t)" "set cs \<subseteq> set (column_names t)"
      using a by (auto elim!: table_satisfiesE)
    have "database_ok (on_table n (\<lambda>t. t\<lparr>t_uniques := t_uniques t @ [(k, cs)]\<rparr>) db)"
    proof (rule on_table_database_ok [OF ok t(1)])
      show "extends db (on_table n (\<lambda>t. t\<lparr>t_uniques := t_uniques t @ [(k, cs)]\<rparr>) db)"
        by (rule extends_on_table) (auto simp: column_names_def)
      show "table_ok (t\<lparr>t_uniques := t_uniques t @ [(k, cs)]\<rparr>)"
        using tab [OF t(1)] t(2,3) by (auto simp: table_ok_def column_names_def constraint_names_def list_all_iff)
    qed (use typed [OF t(1)] in auto)
    then show ?thesis by (simp add: CreateUnique)
  next
    case (CreateExtension e)
    have "extends db (effect s db)"
      using CreateExtension by (intro extends_tables) (auto simp: find_table_def)
    note ext = extends_fk [OF this] extends_index [OF this] extends_type [OF this]
    with ok show ?thesis unfolding database_ok_def fks_ok_iff types_known_def list_all_iff
      by (auto simp: CreateExtension)
  qed (use i in simp_all)
qed

text \<open>Running a sequence and then the inverses in reverse order changes nothing.\<close>

theorem run_undo:
  "database_ok db \<Longrightarrow> undo_all db ss = Some rs \<Longrightarrow> run_all ss db = Some db' \<Longrightarrow>
     run_all rs db' = Some db \<and> database_ok db'"
proof (induction ss arbitrary: db rs)
  case (Cons s ss)
  from Cons.prems(2) obtain r rs' where r: "Some r = undo_of db s" "undo_all (effect s db) ss = Some rs'" "rs = rs' @ [r]"
    by (auto split: option.splits)
  from Cons.prems(3) have a: "allowed db s" "run_all ss (effect s db) = Some db'"
    by (auto simp: run_ddl_def split: if_splits)
  have "database_ok (effect s db)" using effect_keeps_ok [OF Cons.prems(1) a(1)] r(1) by (metis option.distinct(1))
  from Cons.IH [OF this r(2) a(2)] have "run_all rs' db' = Some (effect s db)" "database_ok db'" by simp_all
  moreover have "run_ddl r (effect s db) = Some db"
    using inverse_allowed [OF Cons.prems(1) a(1) r(1)] effect_inverse [OF Cons.prems(1) a(1) r(1)] by (simp add: run_ddl_def)
  ultimately show ?case by (simp add: r(3) run_all_append)
qed simp

section \<open>Schemas without their rows\<close>

definition skeleton :: "database \<Rightarrow> database" where
  "skeleton db = db\<lparr>db_tables := map (\<lambda>t. t\<lparr>t_rows := []\<rparr>) (db_tables db)\<rparr>"

lemma skeleton_sel [simp]:
  "db_indexes (skeleton db) = db_indexes db" "db_extensions (skeleton db) = db_extensions db"
  "relation_names (skeleton db) = relation_names db" "type_known (skeleton db) = type_known db"
  by (simp_all add: skeleton_def relation_names_def type_known_def comp_def fun_eq_iff)

lemma find_skeleton:
  "find_table (skeleton db) n = (case find_table db n of None \<Rightarrow> None | Some t \<Rightarrow> Some (t\<lparr>t_rows := []\<rparr>))"
proof -
  have "find (\<lambda>t. t_name t = n) (map (\<lambda>t. t\<lparr>t_rows := []\<rparr>) ts) =
      (case find (\<lambda>t. t_name t = n) ts of None \<Rightarrow> None | Some t \<Rightarrow> Some (t\<lparr>t_rows := []\<rparr>))" for ts :: "db_table list"
    by (induction ts) auto
  then show ?thesis by (simp add: find_table_def skeleton_def)
qed

lemma no_rows_sel [simp]:
  "column_names (t\<lparr>t_rows := rs\<rparr>) = column_names t" "constraint_names (t\<lparr>t_rows := rs\<rparr>) = constraint_names t"
  by (simp_all add: column_names_def constraint_names_def)

lemma skeleton_satisfies:
  "table_satisfies (skeleton db) n p \<longleftrightarrow> table_satisfies db n (\<lambda>t. p (t\<lparr>t_rows := []\<rparr>))"
  by (simp add: table_satisfies_def find_skeleton split: option.splits)

lemma table_satisfies_mono: "table_satisfies db n p \<Longrightarrow> (\<And>t. p t \<Longrightarrow> q t) \<Longrightarrow> table_satisfies db n q"
  by (auto simp: table_satisfies_def split: option.splits)

lemma skeleton_fk [simp]: "fk_target_ok (skeleton db) = fk_target_ok db"
  by (rule ext) (simp add: fk_target_ok_def find_skeleton split: option.splits)

lemma skeleton_on_table:
  "(\<And>t. (f t)\<lparr>t_rows := []\<rparr> = f (t\<lparr>t_rows := []\<rparr>)) \<Longrightarrow> skeleton (on_table n f db) = on_table n f (skeleton db)"
  by (simp add: skeleton_def on_table_def)

lemma skeleton_undo [simp]: "undo_of (skeleton db) s = undo_of db s"
  by (cases s) (simp_all add: old_default_def find_skeleton split: option.splits)

text \<open>What a database accepts, it accepts without its rows, with the same effect on the schema.\<close>

lemma skeleton_effect:
  "undo_of db s \<noteq> None \<Longrightarrow> allowed db s \<or> allowed (skeleton db) s \<Longrightarrow> skeleton (effect s db) = effect s (skeleton db)"
  by (cases s)
    (auto simp: skeleton_on_table add_column_def set_default_def, auto simp: skeleton_def)

lemma skeleton_allowed:
  assumes "undo_of db s \<noteq> None" and "allowed db s"
  shows "allowed (skeleton db) s"
  using assms
  by (cases s)
    (auto simp: skeleton_satisfies no_duplicates_def fk_rows_ok_def elim!: table_satisfies_mono)

lemma skeleton_run_all:
  "undo_all db ss \<noteq> None \<Longrightarrow> run_all ss db = Some db' \<Longrightarrow> run_all ss (skeleton db) = Some (skeleton db')"
proof (induction ss arbitrary: db)
  case (Cons s ss)
  then have a: "allowed db s" "run_all ss (effect s db) = Some db'"
    by (auto simp: run_ddl_def split: if_splits)
  have u: "undo_of db s \<noteq> None" "undo_all (effect s db) ss \<noteq> None"
    using Cons.prems(1) by (auto split: option.splits)
  show ?case
    using Cons.IH [OF u(2) a(2)] skeleton_allowed [OF u(1) a(1)] a(1) by (simp add: run_ddl_def skeleton_effect [OF u(1)])
qed simp

lemma skeleton_undo_all:
  "undo_all (skeleton db) ss = Some rs \<Longrightarrow> run_all ss (skeleton db) \<noteq> None \<Longrightarrow> undo_all db ss = Some rs"
proof (induction ss arbitrary: db rs)
  case (Cons s ss)
  have a: "allowed (skeleton db) s" "run_all ss (effect s (skeleton db)) \<noteq> None"
    using Cons.prems(2) by (auto simp: run_ddl_def split: if_splits)
  obtain r rs' where r: "undo_of db s = Some r" "undo_all (effect s (skeleton db)) ss = Some rs'" "rs = rs' @ [r]"
    using Cons.prems(1) by (auto split: option.splits)
  then have sk: "effect s (skeleton db) = skeleton (effect s db)" using a(1) by (simp add: skeleton_effect)
  have "undo_all (effect s db) ss = Some rs'"
    by (rule Cons.IH) (use r(2) a(2) sk in simp_all)
  then show ?case using r by simp
qed simp

section \<open>Statements that rows cannot refuse\<close>

text \<open>
  A check over a sequence of statements: \<open>new\<close> are the tables it has created, which are empty, \<open>nulls\<close> the
  columns it has added without a default, which are NULL in every row.
\<close>

fun rows_irrelevant :: "string list \<Rightarrow> (string \<times> string) list \<Rightarrow> ddl list \<Rightarrow> bool" where
  "rows_irrelevant new nulls [] \<longleftrightarrow> True"
| "rows_irrelevant new nulls (CreateTable t # ss) \<longleftrightarrow>
     rows_irrelevant (t_name t # new) (filter (\<lambda>(n, _). n \<noteq> t_name t) nulls) ss"
| "rows_irrelevant new nulls (AddColumn n c # ss) \<longleftrightarrow> (c_nullable c \<or> c_default c \<noteq> None \<or> n \<in> set new)
     \<and> rows_irrelevant new (if c_default c = None then (n, c_name c) # nulls else nulls) ss"
| "rows_irrelevant new nulls (AlterDefault n c d # ss) \<longleftrightarrow> rows_irrelevant new nulls ss"
| "rows_irrelevant new nulls (CreateIndex i # ss) \<longleftrightarrow>
     (ix_unique i \<longrightarrow> ix_table i \<in> set new) \<and> rows_irrelevant new nulls ss"
| "rows_irrelevant new nulls (CreateForeignKey n fk # ss) \<longleftrightarrow>
     list_ex (\<lambda>c. (n, c) \<in> set nulls) (fk_columns fk) \<and> rows_irrelevant new nulls ss"
| "rows_irrelevant new nulls (CreateUnique n k cs # ss) \<longleftrightarrow> n \<in> set new \<and> rows_irrelevant new nulls ss"
| "rows_irrelevant new nulls (CreateExtension e # ss) \<longleftrightarrow> rows_irrelevant new nulls ss"
| "rows_irrelevant new nulls (s # ss) \<longleftrightarrow> False"

definition rows_like :: "database \<Rightarrow> string list \<Rightarrow> (string \<times> string) list \<Rightarrow> bool" where
  "rows_like db new nulls \<longleftrightarrow> (\<forall>t\<in>set (db_tables db). (t_name t \<in> set new \<longrightarrow> t_rows t = [])
     \<and> (\<forall>c. (t_name t, c) \<in> set nulls \<longrightarrow>
          c \<in> set (column_names t) \<and> (\<forall>r\<in>set (t_rows t). cell_of t r c = None)))"

lemma rows_likeD:
  assumes "rows_like db new nulls" and "find_table db n = Some t"
  shows "n \<in> set new \<Longrightarrow> t_rows t = []" "(n, c) \<in> set nulls \<Longrightarrow> r \<in> set (t_rows t) \<Longrightarrow> cell_of t r c = None"
  using assms(1) find_table_Some [OF assms(2)] by (auto simp: rows_like_def)

lemma single_map_add: "m k = None \<Longrightarrow> ([k \<mapsto> x] ++ m) c = (if c = k then Some x else m c)"
  by (auto simp: map_add_def split: option.splits)

lemma cell_of_added:
  assumes "length r = length (t_columns t)" and "c_name k \<notin> set (column_names t)"
  shows "cell_of (add_column k t) (r @ [x]) c = (if c = c_name k then x else cell_of t r c)"
proof -
  have len: "length (column_names t) = length r" using assms(1) by (simp add: column_names_def)
  then have fresh: "map_of (zip (column_names t) r) (c_name k) = None"
    using assms(2) by (simp add: map_of_zip_is_None)
  have "map_of (zip (column_names t @ [c_name k]) (r @ [x])) = [c_name k \<mapsto> x] ++ map_of (zip (column_names t) r)"
    using len by simp
  then show ?thesis using single_map_add [of "map_of (zip (column_names t) r)" "c_name k" x c, OF fresh] by (simp add: cell_of_def)
qed

lemma rows_like_on_table:
  assumes "rows_like db new nulls" and "\<And>t. t_name (f t) = t_name t" and "\<And>t. t_rows (f t) = t_rows t"
    and "\<And>t. column_names (f t) = column_names t"
  shows "rows_like (on_table n f db) new nulls"
  using assms by (auto simp: rows_like_def cell_of_def)

lemma rows_like_add_column:
  assumes ok: "database_ok db" and like: "rows_like db new nulls" and t: "find_table db n = Some t" "c_name c \<notin> set (column_names t)"
  shows "rows_like (on_table n (add_column c) db) new (if c_default c = None then (n, c_name c) # nulls else nulls)"
  unfolding rows_like_def
proof (intro ballI conjI allI impI)
  fix u assume "u \<in> set (db_tables (on_table n (add_column c) db))"
  then obtain v where v: "v \<in> set (db_tables db)" "u = (if t_name v = n then add_column c v else v)" by auto
  then have name: "t_name u = t_name v" by simp
  have old: "t_name v \<in> set new \<Longrightarrow> t_rows v = []"
    "(t_name v, k) \<in> set nulls \<Longrightarrow> r \<in> set (t_rows v) \<Longrightarrow> cell_of v r k = None"
    "(t_name v, k) \<in> set nulls \<Longrightarrow> k \<in> set (column_names v)" for k r
    using like v(1) by (auto simp: rows_like_def)
  show "t_rows u = []" if "t_name u \<in> set new" using that old(1) v(2) name by (auto simp: add_column_def)
  fix k assume k: "(t_name u, k) \<in> set (if c_default c = None then (n, c_name c) # nulls else nulls)"
  show "k \<in> set (column_names u)" using k v(2) name old(3) by (auto split: if_splits)
  fix r assume r: "r \<in> set (t_rows u)"
  show "cell_of u r k = None"
  proof (cases "t_name v = n")
    case True
    then have vt: "v = t"
      using v(1) find_table_Some [OF t(1)] ok inj_onD [of t_name "set (db_tables db)" v t] by (simp add: database_ok_def distinct_map)
    obtain q where q: "q \<in> set (t_rows t)" "r = q @ [default_cell (c_default c)]"
      using r v(2) vt True by (auto simp: add_column_def)
    have "length q = length (t_columns t)"
      using ok find_table_Some [OF t(1)] q(1) by (auto simp: database_ok_def table_ok_def list_all_iff)
    then have "cell_of u r k = (if k = c_name c then default_cell (c_default c) else cell_of t q k)"
      using v(2) vt True q(2) t(2) by (simp add: cell_of_added)
    moreover have "cell_of t q k = None" if "(n, k) \<in> set nulls"
      using old(2) [of k q] that q(1) vt True by simp
    moreover have "(n, c_name c) \<notin> set nulls" using old(3) t(2) vt True by auto
    ultimately show ?thesis using k name True by (auto split: if_splits)
  next
    case False
    then show ?thesis using old(2) k r v(2) by (auto split: if_splits)
  qed
qed

lemma key_has_null:
  "list_ex (\<lambda>c. cell_of t r c = None) cs \<Longrightarrow> None \<in> set (key_of t cs r)"
  by (force simp: key_of_def list_ex_iff image_iff)

text \<open>What is accepted without rows and passes the check is accepted with any rows.\<close>

lemma rows_irrelevant_step:
  assumes ok: "database_ok db" and like: "rows_like db new nulls" and r: "rows_irrelevant new nulls (s # ss)"
    and a: "allowed (skeleton db) s"
  shows "allowed db s \<and> (\<exists>new' nulls'. rows_like (effect s db) new' nulls' \<and> rows_irrelevant new' nulls' ss)
    \<and> (undo_of db s = None \<longrightarrow> (\<exists>e. s = CreateExtension e))"
proof (cases s)
  case (CreateTable t)
  have "t_name t \<notin> set (relation_names db)" "t_rows t = []" using a CreateTable by simp_all
  then have "t_name t \<notin> t_name ` set (db_tables db)" by (simp add: relation_names_def)
  then have "t_name u \<noteq> t_name t" if "u \<in> set (db_tables db)" for u
    using that by (metis imageI)
  then have "rows_like (effect s db) (t_name t # new) (filter (\<lambda>(n, _). n \<noteq> t_name t) nulls)"
    using like CreateTable \<open>t_rows t = []\<close> by (auto simp: rows_like_def)
  then show ?thesis using a r CreateTable by auto
next
  case (AddColumn n c)
  then obtain t where t: "find_table db n = Some t" "c_name c \<notin> set (column_names t)"
    using a by (auto simp: skeleton_satisfies elim!: table_satisfiesE)
  have "rows_like (effect s db) new (if c_default c = None then (n, c_name c) # nulls else nulls)"
    using rows_like_add_column [OF ok like t] AddColumn by simp
  moreover have "allowed db s"
    using a r AddColumn t rows_likeD(1) [OF like t(1)] by (auto simp: find_skeleton table_satisfies_def)
  ultimately show ?thesis using r AddColumn by auto
next
  case (AlterDefault n c d)
  have "rows_like (effect s db) new nulls"
    unfolding AlterDefault effect.simps by (rule rows_like_on_table [OF like]) simp_all
  then show ?thesis using a r AlterDefault by (auto simp: skeleton_satisfies)
next
  case (CreateIndex i)
  then obtain t where t: "find_table db (ix_table i) = Some t"
    using a by (auto simp: skeleton_satisfies elim!: table_satisfiesE)
  have "rows_like (effect s db) new nulls" using like CreateIndex by (simp add: rows_like_def)
  moreover have "allowed db s"
    using a r CreateIndex t rows_likeD(1) [OF like t]
    by (auto simp: find_skeleton table_satisfies_def no_duplicates_def)
  ultimately show ?thesis using r CreateIndex by auto
next
  case (CreateForeignKey n fk)
  then obtain t where t: "find_table db n = Some t"
    using a by (auto simp: skeleton_satisfies elim!: table_satisfiesE)
  have "rows_like (effect s db) new nulls"
    unfolding CreateForeignKey effect.simps by (rule rows_like_on_table [OF like]) (auto simp: column_names_def)
  moreover have "fk_rows_ok db t fk"
    using r CreateForeignKey rows_likeD(2) [OF like t] key_has_null
    unfolding fk_rows_ok_def list_all_iff by (fastforce simp: list_ex_iff)
  then have "allowed db s"
    using a CreateForeignKey t by (auto simp: find_skeleton table_satisfies_def)
  ultimately show ?thesis using r CreateForeignKey by auto
next
  case (CreateUnique n k cs)
  then obtain t where t: "find_table db n = Some t"
    using a by (auto simp: skeleton_satisfies elim!: table_satisfiesE)
  have "rows_like (effect s db) new nulls"
    unfolding CreateUnique effect.simps by (rule rows_like_on_table [OF like]) (auto simp: column_names_def)
  moreover have "allowed db s"
    using a r CreateUnique t rows_likeD(1) [OF like t]
    by (auto simp: find_skeleton table_satisfies_def no_duplicates_def)
  ultimately show ?thesis using r CreateUnique by auto
next
  case (CreateExtension e)
  have "rows_like (effect s db) new nulls" using like CreateExtension by (simp add: rows_like_def)
  moreover have "allowed db s" "rows_irrelevant new nulls ss" using r CreateExtension by simp_all
  ultimately show ?thesis using CreateExtension by blast
qed (use r in simp_all)

theorem any_rows_accepted:
  "database_ok db \<Longrightarrow> rows_like db new nulls \<Longrightarrow> rows_irrelevant new nulls ss \<Longrightarrow> undo_all db ss \<noteq> None \<Longrightarrow>
     run_all ss (skeleton db) \<noteq> None \<Longrightarrow> run_all ss db \<noteq> None"
proof (induction ss arbitrary: db new nulls)
  case (Cons s ss)
  have a: "allowed (skeleton db) s" "run_all ss (effect s (skeleton db)) \<noteq> None"
    using Cons.prems(5) by (auto simp: run_ddl_def split: if_splits)
  have u: "undo_of db s \<noteq> None" "undo_all (effect s db) ss \<noteq> None"
    using Cons.prems(4) by (auto split: option.splits)
  from rows_irrelevant_step [OF Cons.prems(1-3) a(1)] obtain new' nulls' where
    s: "allowed db s" "rows_like (effect s db) new' nulls'" "rows_irrelevant new' nulls' ss" by blast
  have "run_all ss (skeleton (effect s db)) \<noteq> None" using a(2) skeleton_effect [OF u(1)] s(1) by simp
  from Cons.IH [OF effect_keeps_ok [OF Cons.prems(1) s(1) u(1)] s(2,3) u(2) this] s(1)
  show ?case by (simp add: run_ddl_def)
qed simp

section \<open>Removing\<close>

fun removes :: "ddl \<Rightarrow> bool" where
  "removes (DropTable _) = True" | "removes (DropColumn _ _) = True" | "removes (AlterDefault _ _ _) = True"
| "removes (DropIndex _) = True" | "removes (DropConstraint _ _) = True" | "removes (DropExtension _) = True"
| "removes _ = False"

definition rows_fit :: "database \<Rightarrow> bool" where
  "rows_fit db \<longleftrightarrow> (\<forall>t\<in>set (db_tables db). \<forall>r\<in>set (t_rows t). length r = length (t_columns t))"

lemma skeleton_more [simp]:
  "map t_name (db_tables (skeleton db)) = map t_name (db_tables db)" "all_fks (skeleton db) = all_fks db"
  "fks_ok (skeleton db) = fks_ok db" "types_known (skeleton db) = types_known db" "index_ok (skeleton db) = index_ok db"
proof -
  show "map t_name (db_tables (skeleton db)) = map t_name (db_tables db)" "all_fks (skeleton db) = all_fks db"
    by (simp_all add: skeleton_def all_fks_def comp_def)
  then show "fks_ok (skeleton db) = fks_ok db" by (simp add: fks_ok_def)
  show "types_known (skeleton db) = types_known db"
    unfolding types_known_def skeleton_sel by (simp add: skeleton_def list.pred_map comp_def)
  show "index_ok (skeleton db) = index_ok db"
    by (rule ext) (simp add: index_ok_def skeleton_satisfies)
qed

lemma database_ok_skeleton: "database_ok db \<longleftrightarrow> database_ok (skeleton db) \<and> rows_fit db"
proof -
  have "table_ok t \<longleftrightarrow> table_ok (t\<lparr>t_rows := []\<rparr>) \<and> (\<forall>r\<in>set (t_rows t). length r = length (t_columns t))" for t
    by (simp add: table_ok_def list_all_iff conj_ac)
  then have "(\<forall>t\<in>set (db_tables db). table_ok t) \<longleftrightarrow> (\<forall>t\<in>set (db_tables db). table_ok (t\<lparr>t_rows := []\<rparr>)) \<and> rows_fit db"
    unfolding rows_fit_def by blast
  moreover have "set (db_tables (skeleton db)) = (\<lambda>t. t\<lparr>t_rows := []\<rparr>) ` set (db_tables db)"
    by (simp add: skeleton_def)
  ultimately have "list_all table_ok (db_tables db) \<longleftrightarrow> list_all table_ok (db_tables (skeleton db)) \<and> rows_fit db"
    unfolding list_all_iff by (simp only: ball_simps)
  then show ?thesis unfolding database_ok_def skeleton_more skeleton_sel by blast
qed

lemma removes_effect: "removes s \<Longrightarrow> skeleton (effect s db) = effect s (skeleton db)"
proof (cases s)
  case (DropTable n)
  then show ?thesis by (simp add: skeleton_def filter_map comp_def)
next
  case (DropColumn n c)
  have "skeleton (on_table n (drop_column c) x) = on_table n (drop_column c) (skeleton x)" for x
    by (rule skeleton_on_table) (simp add: drop_column_def)
  moreover have "skeleton (db\<lparr>db_indexes := is\<rparr>) = (skeleton db)\<lparr>db_indexes := is\<rparr>" for "is"
    by (simp add: skeleton_def)
  ultimately show ?thesis by (simp only: DropColumn effect.simps skeleton_sel)
qed (simp_all add: skeleton_on_table set_default_def drop_constraint_def, simp_all add: skeleton_def)

lemma removes_allowed: "removes s \<Longrightarrow> allowed (skeleton db) s \<longleftrightarrow> allowed db s"
proof -
  assume r: "removes s"
  have fks: "fks_ok (effect s (skeleton db)) = fks_ok (effect s db)"
    using removes_effect [OF r, of db] skeleton_more(3) by metis
  have vec: "list_all (\<lambda>t. list_all p (t_columns t)) (db_tables (skeleton db)) = list_all (\<lambda>t. list_all p (t_columns t)) (db_tables db)" for p
    by (simp add: skeleton_def list.pred_map comp_def)
  show ?thesis using r fks
    by (cases s) (simp_all add: skeleton_satisfies find_skeleton vec split: option.splits)
qed

lemma length_filter_zip:
  "length r = length cs \<Longrightarrow> length (filter (\<lambda>(k, _). p k) (zip cs r)) = length (filter p cs)"
  by (induction r cs rule: list_induct2) auto

lemma rows_fit_on_table:
  assumes "rows_fit db" and "\<And>t. \<forall>r\<in>set (t_rows t). length r = length (t_columns t) \<Longrightarrow> \<forall>r\<in>set (t_rows (f t)). length r = length (t_columns (f t))"
  shows "rows_fit (on_table n f db)"
  using assms by (auto simp: rows_fit_def)

lemma removes_rows_fit: "removes s \<Longrightarrow> rows_fit db \<Longrightarrow> rows_fit (effect s db)"
proof (cases s)
  case (DropColumn n c)
  assume "rows_fit db"
  then have "rows_fit (db\<lparr>db_indexes := is\<rparr>)" for "is" by (simp add: rows_fit_def)
  then have "rows_fit (on_table n (drop_column c) (db\<lparr>db_indexes := is\<rparr>))" for "is"
    by (rule rows_fit_on_table) (auto simp: drop_column_def length_filter_zip)
  then show ?thesis by (simp add: DropColumn)
next
  case (AlterDefault n c d)
  assume "rows_fit db"
  then show ?thesis unfolding AlterDefault effect.simps
    by (rule rows_fit_on_table) (auto simp: set_default_def)
next
  case (DropConstraint n k)
  assume "rows_fit db"
  then show ?thesis unfolding DropConstraint effect.simps
    by (rule rows_fit_on_table) (auto simp: drop_constraint_def)
qed (auto simp: rows_fit_def)

text \<open>What only removes is accepted with any rows if it is without them.\<close>

lemma removes_run_all:
  "list_all removes ss \<Longrightarrow> rows_fit db \<Longrightarrow> run_all ss (skeleton db) = Some s' \<Longrightarrow>
     \<exists>db'. run_all ss db = Some db' \<and> skeleton db' = s' \<and> rows_fit db'"
proof (induction ss arbitrary: db)
  case (Cons s ss)
  then have r: "removes s" "list_all removes ss" by simp_all
  have a: "allowed db s" "run_all ss (skeleton (effect s db)) = Some s'"
    using Cons.prems(3) removes_allowed [OF r(1)] removes_effect [OF r(1)] by (auto simp: run_ddl_def split: if_splits)
  from Cons.IH [OF r(2) removes_rows_fit [OF r(1) Cons.prems(2)] a(2)] a(1) show ?case by (simp add: run_ddl_def)
qed simp

lemma removes_run_skeleton:
  "list_all removes ss \<Longrightarrow> run_all ss db = Some db' \<Longrightarrow> run_all ss (skeleton db) = Some (skeleton db')"
proof (induction ss arbitrary: db)
  case (Cons s ss)
  then have r: "removes s" by simp
  have "allowed db s" "run_all ss (effect s db) = Some db'"
    using Cons.prems(2) by (auto simp: run_ddl_def split: if_splits)
  with Cons r show ?case by (simp add: run_ddl_def removes_allowed removes_effect [symmetric])
qed simp

lemma index_refused_by_rows:
  "allowed (skeleton db) (CreateIndex i) \<Longrightarrow>
     allowed db (CreateIndex i) \<longleftrightarrow> table_satisfies db (ix_table i) (\<lambda>t. ix_unique i \<longrightarrow> no_duplicates t (ix_columns i) (ix_where i))"
  by (auto simp: find_skeleton table_satisfies_def split: option.splits)

end
