(* ===== verification/Migrations.thy ===== *)
theory Migrations
  imports Schema
begin

text \<open>
  The migrations of \<open>alembic/versions\<close> as lists of statements, the chain they form, and Alembic's
  \<open>upgrade\<close> and \<open>downgrade\<close> by one revision on a database with any rows.
\<close>

section \<open>The migrations\<close>

definition col :: "string \<Rightarrow> sql_type \<Rightarrow> bool \<Rightarrow> sql_default option \<Rightarrow> column" where
  "col name ty nullable dflt = \<lparr>c_name = name, c_type = ty, c_nullable = nullable, c_default = dflt\<rparr>"

definition fkey :: "string \<Rightarrow> string list \<Rightarrow> string \<Rightarrow> string list \<Rightarrow> string option \<Rightarrow> foreign_key" where
  "fkey name cols table refs ondelete =
     \<lparr>fk_name = name, fk_columns = cols, fk_table = table, fk_refs = refs, fk_ondelete = ondelete\<rparr>"

definition index :: "string \<Rightarrow> string \<Rightarrow> string list \<Rightarrow> bool \<Rightarrow> (string \<times> string list) list \<Rightarrow> db_index" where
  "index name table cols uniq cond =
     \<lparr>ix_name = name, ix_table = table, ix_columns = cols, ix_unique = uniq, ix_where = cond\<rparr>"

record migration =
  mg_revision :: string
  mg_down_revision :: "string option"
  mg_upgrade :: "ddl list"
  mg_downgrade :: "ddl list"

subsection \<open>06b17a0f30ad: create domain tables\<close>

definition products_table :: db_table where
  "products_table = \<lparr>t_name = ''products'',
     t_columns =
       [col ''id'' Uuid False None,
        col ''slug'' (VarChar 255) False None,
        col ''title'' (VarChar 255) False None,
        col ''description'' Text True None,
        col ''product_type'' (sa_enum [''brand_kit'', ''prompt_pack'', ''texture_pack'', ''svg_pack'',
          ''mockup_pack'', ''preset_pack'', ''tattoo_pack'', ''stl_pack''] 32) False None,
        col ''status'' (sa_enum [''draft'', ''active'', ''archived''] 16) False (Some (Literal ''draft'')),
        col ''version'' (VarChar 32) False (Some (Literal ''v1.0'')),
        col ''price_cents'' Int4 False (Some (Literal ''0'')),
        col ''currency'' (VarChar 3) False (Some (Literal ''USD'')),
        col ''metadata_json'' Jsonb False (Some (Literal ''{}'')),
        col ''created_at'' TimestampTz False (Some (Expr ''now()'')),
        col ''updated_at'' TimestampTz False (Some (Expr ''now()''))],
     t_pk_name = ''pk_products'', t_pk = [''id''],
     t_fks = [],
     t_uniques = [],
     t_checks = [\<lparr>ck_name = ''ck_products_price_cents_non_negative'', ck_text = ''price_cents >= 0'',
       ck_columns = [''price_cents'']\<rparr>,
        \<lparr>ck_name = ''ck_products_currency_iso4217_length'', ck_text = ''char_length(currency) = 3'',
          ck_columns = [''currency'']\<rparr>], t_rows = []\<rparr>"

definition assets_table :: db_table where
  "assets_table = \<lparr>t_name = ''assets'',
     t_columns =
       [col ''id'' Uuid False None,
        col ''product_id'' Uuid False None,
        col ''asset_type'' (VarChar 64) False None,
        col ''filename'' (VarChar 512) False None,
        col ''storage_key'' (VarChar 1024) False None,
        col ''mime_type'' (VarChar 255) False None,
        col ''size_bytes'' Int8 False None,
        col ''checksum'' (VarChar 128) False None,
        col ''created_at'' TimestampTz False (Some (Expr ''now()'')),
        col ''updated_at'' TimestampTz False (Some (Expr ''now()''))],
     t_pk_name = ''pk_assets'', t_pk = [''id''],
     t_fks = [fkey ''fk_assets_product_id_products'' [''product_id''] ''products'' [''id''] (Some ''CASCADE'')],
     t_uniques = [(''uq_assets_storage_key'', [''storage_key''])],
     t_checks = [], t_rows = []\<rparr>"

definition jobs_table :: db_table where
  "jobs_table = \<lparr>t_name = ''jobs'',
     t_columns =
       [col ''id'' Uuid False None,
        col ''job_type'' (VarChar 128) False None,
        col ''status'' (sa_enum [''pending'', ''running'', ''succeeded'', ''failed'',
          ''cancelled''] 16) False (Some (Literal ''pending'')),
        col ''input_json'' Jsonb False (Some (Literal ''{}'')),
        col ''output_json'' Jsonb True None,
        col ''error_message'' Text True None,
        col ''started_at'' TimestampTz True None,
        col ''completed_at'' TimestampTz True None,
        col ''created_at'' TimestampTz False (Some (Expr ''now()'')),
        col ''updated_at'' TimestampTz False (Some (Expr ''now()''))],
     t_pk_name = ''pk_jobs'', t_pk = [''id''],
     t_fks = [],
     t_uniques = [],
     t_checks = [], t_rows = []\<rparr>"

definition agent_definitions_table :: db_table where
  "agent_definitions_table = \<lparr>t_name = ''agent_definitions'',
     t_columns =
       [col ''id'' Uuid False None,
        col ''name'' (VarChar 128) False None,
        col ''role'' (VarChar 255) False None,
        col ''version'' (VarChar 32) False (Some (Literal ''v1.0'')),
        col ''status'' (sa_enum [''draft'', ''active'', ''deprecated''] 16) False (Some (Literal ''draft'')),
        col ''configuration_json'' Jsonb False (Some (Literal ''{}'')),
        col ''created_at'' TimestampTz False (Some (Expr ''now()'')),
        col ''updated_at'' TimestampTz False (Some (Expr ''now()''))],
     t_pk_name = ''pk_agent_definitions'', t_pk = [''id''],
     t_fks = [],
     t_uniques = [],
     t_checks = [], t_rows = []\<rparr>"

definition workflow_definitions_table :: db_table where
  "workflow_definitions_table = \<lparr>t_name = ''workflow_definitions'',
     t_columns =
       [col ''id'' Uuid False None,
        col ''name'' (VarChar 128) False None,
        col ''version'' (VarChar 32) False (Some (Literal ''v1.0'')),
        col ''status'' (sa_enum [''draft'', ''active'', ''deprecated''] 16) False (Some (Literal ''draft'')),
        col ''definition_json'' Jsonb False (Some (Literal ''{}'')),
        col ''created_at'' TimestampTz False (Some (Expr ''now()'')),
        col ''updated_at'' TimestampTz False (Some (Expr ''now()''))],
     t_pk_name = ''pk_workflow_definitions'', t_pk = [''id''],
     t_fks = [],
     t_uniques = [],
     t_checks = [], t_rows = []\<rparr>"

definition create_domain_tables_upgrade :: "ddl list" where
  "create_domain_tables_upgrade =
     [CreateTable products_table,
      CreateIndex (index ''ix_products_slug'' ''products'' [''slug''] True []),
      CreateIndex (index ''ix_products_status'' ''products'' [''status''] False []),
      CreateTable assets_table,
      CreateIndex (index ''ix_assets_product_id'' ''assets'' [''product_id''] False []),
      CreateTable jobs_table,
      CreateIndex (index ''ix_jobs_job_type'' ''jobs'' [''job_type''] False []),
      CreateIndex (index ''ix_jobs_status'' ''jobs'' [''status''] False []),
      CreateTable agent_definitions_table,
      CreateIndex (index ''ix_agent_definitions_name'' ''agent_definitions'' [''name''] True []),
      CreateIndex (index ''ix_agent_definitions_status'' ''agent_definitions'' [''status''] False []),
      CreateTable workflow_definitions_table,
      CreateIndex (index ''ix_workflow_definitions_name'' ''workflow_definitions'' [''name''] True []),
      CreateIndex (index ''ix_workflow_definitions_status'' ''workflow_definitions'' [''status''] False [])]"

definition create_domain_tables_downgrade :: "ddl list" where
  "create_domain_tables_downgrade =
     [DropIndex ''ix_workflow_definitions_status'',
      DropIndex ''ix_workflow_definitions_name'',
      DropTable ''workflow_definitions'',
      DropIndex ''ix_agent_definitions_status'',
      DropIndex ''ix_agent_definitions_name'',
      DropTable ''agent_definitions'',
      DropIndex ''ix_jobs_status'',
      DropIndex ''ix_jobs_job_type'',
      DropTable ''jobs'',
      DropIndex ''ix_assets_product_id'',
      DropTable ''assets'',
      DropIndex ''ix_products_status'',
      DropIndex ''ix_products_slug'',
      DropTable ''products'']"

subsection \<open>1f20f57819a3: create users table\<close>

definition users_table :: db_table where
  "users_table = \<lparr>t_name = ''users'',
     t_columns =
       [col ''id'' Uuid False None,
        col ''email'' (VarChar 320) False None,
        col ''hashed_password'' (VarChar 255) False None,
        col ''full_name'' (VarChar 255) False None,
        col ''role'' (sa_enum [''viewer'', ''operator'', ''admin''] 16) False (Some (Literal ''viewer'')),
        col ''status'' (sa_enum [''pending'', ''active'', ''disabled''] 16) False (Some (Literal ''pending'')),
        col ''is_verified'' Boolean False (Some (Expr ''false'')),
        col ''last_login_at'' TimestampTz True None,
        col ''created_at'' TimestampTz False (Some (Expr ''now()'')),
        col ''updated_at'' TimestampTz False (Some (Expr ''now()''))],
     t_pk_name = ''pk_users'', t_pk = [''id''],
     t_fks = [],
     t_uniques = [],
     t_checks = [], t_rows = []\<rparr>"

definition create_users_table_upgrade :: "ddl list" where
  "create_users_table_upgrade =
     [CreateTable users_table,
      CreateIndex (index ''ix_users_email'' ''users'' [''email''] True []),
      CreateIndex (index ''ix_users_role'' ''users'' [''role''] False []),
      CreateIndex (index ''ix_users_status'' ''users'' [''status''] False [])]"

definition create_users_table_downgrade :: "ddl list" where
  "create_users_table_downgrade =
     [DropIndex ''ix_users_status'',
      DropIndex ''ix_users_role'',
      DropIndex ''ix_users_email'',
      DropTable ''users'']"

subsection \<open>ae14cc314d2f: extend assets for storage\<close>

definition extend_assets_for_storage_upgrade :: "ddl list" where
  "extend_assets_for_storage_upgrade =
     [AddColumn ''assets'' (col ''original_filename'' (VarChar 512) True None),
      AddColumn ''assets'' (col ''content_type'' (VarChar 255) True None),
      AddColumn ''assets'' (col ''etag'' (VarChar 255) True None),
      AddColumn ''assets'' (col ''storage_backend'' (sa_enum [''local'',
        ''s3''] 16) False (Some (Literal ''local''))),
      AddColumn ''assets'' (col ''status'' (sa_enum [''pending'', ''available'', ''failed'',
        ''deleted''] 16) False (Some (Literal ''available''))),
      AddColumn ''assets'' (col ''uploaded_by_user_id'' Uuid True None),
      AddColumn ''assets'' (col ''deleted_at'' TimestampTz True None),
      CreateForeignKey ''assets'' (fkey ''fk_assets_uploaded_by_user_id_users'' [''uploaded_by_user_id''] ''users'' [''id''] (Some ''SET NULL'')),
      CreateIndex (index ''ix_assets_status'' ''assets'' [''status''] False []),
      CreateIndex (index ''ix_assets_uploaded_by_user_id'' ''assets'' [''uploaded_by_user_id''] False [])]"

definition extend_assets_for_storage_downgrade :: "ddl list" where
  "extend_assets_for_storage_downgrade =
     [DropIndex ''ix_assets_uploaded_by_user_id'',
      DropIndex ''ix_assets_status'',
      DropConstraint ''assets'' ''fk_assets_uploaded_by_user_id_users'',
      DropColumn ''assets'' ''deleted_at'',
      DropColumn ''assets'' ''uploaded_by_user_id'',
      DropColumn ''assets'' ''status'',
      DropColumn ''assets'' ''storage_backend'',
      DropColumn ''assets'' ''etag'',
      DropColumn ''assets'' ''content_type'',
      DropColumn ''assets'' ''original_filename'']"

subsection \<open>7c19e4b8a2d6: create llm requests table\<close>

definition llm_requests_table :: db_table where
  "llm_requests_table = \<lparr>t_name = ''llm_requests'',
     t_columns =
       [col ''id'' Uuid False None,
        col ''user_id'' Uuid True None,
        col ''provider'' (VarChar 64) False None,
        col ''model'' (VarChar 255) False None,
        col ''status'' (sa_enum [''pending'', ''succeeded'', ''failed''] 16) False (Some (Literal ''pending'')),
        col ''request_metadata_json'' Jsonb False (Some (Literal ''{}'')),
        col ''response_metadata_json'' Jsonb False (Some (Literal ''{}'')),
        col ''input_tokens'' Int8 True None,
        col ''output_tokens'' Int8 True None,
        col ''total_tokens'' Int8 True None,
        col ''estimated_cost_usd'' (Numeric 12 6) True None,
        col ''latency_ms'' Int8 True None,
        col ''error_code'' (VarChar 128) True None,
        col ''completed_at'' TimestampTz True None,
        col ''created_at'' TimestampTz False (Some (Expr ''now()'')),
        col ''updated_at'' TimestampTz False (Some (Expr ''now()''))],
     t_pk_name = ''pk_llm_requests'', t_pk = [''id''],
     t_fks = [fkey ''fk_llm_requests_user_id_users'' [''user_id''] ''users'' [''id''] (Some ''SET NULL'')],
     t_uniques = [],
     t_checks = [], t_rows = []\<rparr>"

definition create_llm_requests_table_upgrade :: "ddl list" where
  "create_llm_requests_table_upgrade =
     [CreateTable llm_requests_table,
      CreateIndex (index ''ix_llm_requests_user_id'' ''llm_requests'' [''user_id''] False []),
      CreateIndex (index ''ix_llm_requests_provider'' ''llm_requests'' [''provider''] False []),
      CreateIndex (index ''ix_llm_requests_status'' ''llm_requests'' [''status''] False [])]"

definition create_llm_requests_table_downgrade :: "ddl list" where
  "create_llm_requests_table_downgrade =
     [DropIndex ''ix_llm_requests_status'',
      DropIndex ''ix_llm_requests_provider'',
      DropIndex ''ix_llm_requests_user_id'',
      DropTable ''llm_requests'']"

subsection \<open>a1c8f7d2b3e9: create agent runs table\<close>

definition agent_runs_table :: db_table where
  "agent_runs_table = \<lparr>t_name = ''agent_runs'',
     t_columns =
       [col ''id'' Uuid False None,
        col ''agent_id'' Uuid False None,
        col ''created_by_user_id'' Uuid True None,
        col ''status'' (sa_enum [''queued'', ''running'', ''completed'', ''failed'',
          ''cancelled''] 16) False (Some (Literal ''queued'')),
        col ''llm_request_id'' Uuid True None,
        col ''provider'' (VarChar 64) True None,
        col ''model'' (VarChar 255) True None,
        col ''input_tokens'' Int8 True None,
        col ''output_tokens'' Int8 True None,
        col ''total_tokens'' Int8 True None,
        col ''estimated_cost_usd'' (Numeric 12 6) True None,
        col ''output_text'' Text True None,
        col ''error_code'' (VarChar 128) True None,
        col ''error_message'' Text True None,
        col ''duration_ms'' Int8 True None,
        col ''started_at'' TimestampTz True None,
        col ''completed_at'' TimestampTz True None,
        col ''created_at'' TimestampTz False (Some (Expr ''now()'')),
        col ''updated_at'' TimestampTz False (Some (Expr ''now()''))],
     t_pk_name = ''pk_agent_runs'', t_pk = [''id''],
     t_fks = [fkey ''fk_agent_runs_agent_id_agent_definitions'' [''agent_id''] ''agent_definitions'' [''id''] None,
        fkey ''fk_agent_runs_created_by_user_id_users'' [''created_by_user_id''] ''users'' [''id''] (Some ''SET NULL''),
        fkey ''fk_agent_runs_llm_request_id_llm_requests'' [''llm_request_id''] ''llm_requests'' [''id''] (Some ''SET NULL'')],
     t_uniques = [],
     t_checks = [], t_rows = []\<rparr>"

definition create_agent_runs_table_upgrade :: "ddl list" where
  "create_agent_runs_table_upgrade =
     [CreateTable agent_runs_table,
      CreateIndex (index ''ix_agent_runs_agent_id'' ''agent_runs'' [''agent_id''] False []),
      CreateIndex (index ''ix_agent_runs_created_by_user_id'' ''agent_runs'' [''created_by_user_id''] False []),
      CreateIndex (index ''ix_agent_runs_status'' ''agent_runs'' [''status''] False []),
      CreateIndex (index ''ix_agent_runs_llm_request_id'' ''agent_runs'' [''llm_request_id''] False [])]"

definition create_agent_runs_table_downgrade :: "ddl list" where
  "create_agent_runs_table_downgrade =
     [DropIndex ''ix_agent_runs_llm_request_id'',
      DropIndex ''ix_agent_runs_status'',
      DropIndex ''ix_agent_runs_created_by_user_id'',
      DropIndex ''ix_agent_runs_agent_id'',
      DropTable ''agent_runs'']"

subsection \<open>d4e6b9a3f1c7: create workflow run tables\<close>

definition workflow_runs_table :: db_table where
  "workflow_runs_table = \<lparr>t_name = ''workflow_runs'',
     t_columns =
       [col ''id'' Uuid False None,
        col ''workflow_id'' Uuid False None,
        col ''created_by_user_id'' Uuid True None,
        col ''status'' (sa_enum [''queued'', ''running'', ''completed'', ''failed'',
          ''cancelled''] 16) False (Some (Literal ''queued'')),
        col ''output_text'' Text True None,
        col ''error_code'' (VarChar 128) True None,
        col ''error_message'' Text True None,
        col ''duration_ms'' Int8 True None,
        col ''started_at'' TimestampTz True None,
        col ''completed_at'' TimestampTz True None,
        col ''created_at'' TimestampTz False (Some (Expr ''now()'')),
        col ''updated_at'' TimestampTz False (Some (Expr ''now()''))],
     t_pk_name = ''pk_workflow_runs'', t_pk = [''id''],
     t_fks = [fkey ''fk_workflow_runs_workflow_id_workflow_definitions'' [''workflow_id''] ''workflow_definitions'' [''id''] None,
        fkey ''fk_workflow_runs_created_by_user_id_users'' [''created_by_user_id''] ''users'' [''id''] (Some ''SET NULL'')],
     t_uniques = [],
     t_checks = [], t_rows = []\<rparr>"

definition workflow_step_runs_table :: db_table where
  "workflow_step_runs_table = \<lparr>t_name = ''workflow_step_runs'',
     t_columns =
       [col ''id'' Uuid False None,
        col ''workflow_run_id'' Uuid False None,
        col ''step_id'' (VarChar 128) False None,
        col ''step_order'' Int4 False None,
        col ''agent_id'' Uuid False None,
        col ''agent_run_id'' Uuid True None,
        col ''input_snapshot'' Text True None,
        col ''output_text'' Text True None,
        col ''status'' (sa_enum [''pending'', ''running'', ''completed'', ''failed'', ''cancelled'',
          ''skipped''] 16) False (Some (Literal ''pending'')),
        col ''error_code'' (VarChar 128) True None,
        col ''error_message'' Text True None,
        col ''duration_ms'' Int8 True None,
        col ''started_at'' TimestampTz True None,
        col ''completed_at'' TimestampTz True None,
        col ''created_at'' TimestampTz False (Some (Expr ''now()'')),
        col ''updated_at'' TimestampTz False (Some (Expr ''now()''))],
     t_pk_name = ''pk_workflow_step_runs'', t_pk = [''id''],
     t_fks = [fkey ''fk_workflow_step_runs_workflow_run_id_workflow_runs'' [''workflow_run_id''] ''workflow_runs'' [''id''] (Some ''CASCADE''),
        fkey ''fk_workflow_step_runs_agent_id_agent_definitions'' [''agent_id''] ''agent_definitions'' [''id''] None,
        fkey ''fk_workflow_step_runs_agent_run_id_agent_runs'' [''agent_run_id''] ''agent_runs'' [''id''] (Some ''SET NULL'')],
     t_uniques = [],
     t_checks = [], t_rows = []\<rparr>"

definition create_workflow_run_tables_upgrade :: "ddl list" where
  "create_workflow_run_tables_upgrade =
     [CreateTable workflow_runs_table,
      CreateIndex (index ''ix_workflow_runs_workflow_id'' ''workflow_runs'' [''workflow_id''] False []),
      CreateIndex (index ''ix_workflow_runs_created_by_user_id'' ''workflow_runs'' [''created_by_user_id''] False []),
      CreateIndex (index ''ix_workflow_runs_status'' ''workflow_runs'' [''status''] False []),
      CreateTable workflow_step_runs_table,
      CreateIndex (index ''ix_workflow_step_runs_workflow_run_id'' ''workflow_step_runs'' [''workflow_run_id''] False []),
      CreateIndex (index ''ix_workflow_step_runs_agent_id'' ''workflow_step_runs'' [''agent_id''] False []),
      CreateIndex (index ''ix_workflow_step_runs_agent_run_id'' ''workflow_step_runs'' [''agent_run_id''] False []),
      CreateIndex (index ''ix_workflow_step_runs_status'' ''workflow_step_runs'' [''status''] False [])]"

definition create_workflow_run_tables_downgrade :: "ddl list" where
  "create_workflow_run_tables_downgrade =
     [DropIndex ''ix_workflow_step_runs_status'',
      DropIndex ''ix_workflow_step_runs_agent_run_id'',
      DropIndex ''ix_workflow_step_runs_agent_id'',
      DropIndex ''ix_workflow_step_runs_workflow_run_id'',
      DropTable ''workflow_step_runs'',
      DropIndex ''ix_workflow_runs_status'',
      DropIndex ''ix_workflow_runs_created_by_user_id'',
      DropIndex ''ix_workflow_runs_workflow_id'',
      DropTable ''workflow_runs'']"

subsection \<open>b7f3e9a1c5d2: add job queue fields and worker heartbeats\<close>

definition worker_heartbeats_table :: db_table where
  "worker_heartbeats_table = \<lparr>t_name = ''worker_heartbeats'',
     t_columns =
       [col ''worker_id'' (VarChar 128) False None,
        col ''started_at'' TimestampTz False None,
        col ''last_heartbeat_at'' TimestampTz False None,
        col ''created_at'' TimestampTz False (Some (Expr ''now()'')),
        col ''updated_at'' TimestampTz False (Some (Expr ''now()''))],
     t_pk_name = ''pk_worker_heartbeats'', t_pk = [''worker_id''],
     t_fks = [],
     t_uniques = [],
     t_checks = [], t_rows = []\<rparr>"

definition add_job_queue_fields_and_worker_heartbeats_upgrade :: "ddl list" where
  "add_job_queue_fields_and_worker_heartbeats_upgrade =
     [AddColumn ''jobs'' (col ''target_run_id'' Uuid True None),
      AddColumn ''jobs'' (col ''error_code'' (VarChar 128) True None),
      AddColumn ''jobs'' (col ''attempt_count'' Int4 False (Some (Literal ''0''))),
      AddColumn ''jobs'' (col ''max_attempts'' Int4 False (Some (Literal ''3''))),
      AddColumn ''jobs'' (col ''next_attempt_at'' TimestampTz True None),
      AddColumn ''jobs'' (col ''lease_expires_at'' TimestampTz True None),
      AddColumn ''jobs'' (col ''heartbeat_at'' TimestampTz True None),
      AddColumn ''jobs'' (col ''worker_id'' (VarChar 128) True None),
      AddColumn ''jobs'' (col ''cancel_requested_at'' TimestampTz True None),
      AlterDefault ''jobs'' ''status'' (Some (Literal ''queued'')),
      CreateIndex (index ''ix_jobs_target_run_id'' ''jobs'' [''target_run_id''] False []),
      CreateIndex (index ''ix_jobs_worker_id'' ''jobs'' [''worker_id''] False []),
      CreateTable worker_heartbeats_table]"

definition add_job_queue_fields_and_worker_heartbeats_downgrade :: "ddl list" where
  "add_job_queue_fields_and_worker_heartbeats_downgrade =
     [DropTable ''worker_heartbeats'',
      DropIndex ''ix_jobs_worker_id'',
      DropIndex ''ix_jobs_target_run_id'',
      AlterDefault ''jobs'' ''status'' (Some (Literal ''pending'')),
      DropColumn ''jobs'' ''cancel_requested_at'',
      DropColumn ''jobs'' ''worker_id'',
      DropColumn ''jobs'' ''heartbeat_at'',
      DropColumn ''jobs'' ''lease_expires_at'',
      DropColumn ''jobs'' ''next_attempt_at'',
      DropColumn ''jobs'' ''max_attempts'',
      DropColumn ''jobs'' ''attempt_count'',
      DropColumn ''jobs'' ''error_code'',
      DropColumn ''jobs'' ''target_run_id'']"

subsection \<open>d657afc740be: add tool calls json to agent runs\<close>

definition add_tool_calls_json_to_agent_runs_upgrade :: "ddl list" where
  "add_tool_calls_json_to_agent_runs_upgrade =
     [AddColumn ''agent_runs'' (col ''tool_calls_json'' Jsonb True None)]"

definition add_tool_calls_json_to_agent_runs_downgrade :: "ddl list" where
  "add_tool_calls_json_to_agent_runs_downgrade =
     [DropColumn ''agent_runs'' ''tool_calls_json'']"

subsection \<open>ad3f998eece8: enable pgvector and create document chunks\<close>

definition document_chunks_table :: db_table where
  "document_chunks_table = \<lparr>t_name = ''document_chunks'',
     t_columns =
       [col ''id'' Uuid False None,
        col ''asset_id'' Uuid False None,
        col ''chunk_index'' Int4 False None,
        col ''content'' Text False None,
        col ''content_hash'' (VarChar 64) False None,
        col ''char_start'' Int4 False None,
        col ''char_end'' Int4 False None,
        col ''created_at'' TimestampTz False (Some (Expr ''now()'')),
        col ''updated_at'' TimestampTz False (Some (Expr ''now()''))],
     t_pk_name = ''pk_document_chunks'', t_pk = [''id''],
     t_fks = [fkey ''fk_document_chunks_asset_id_assets'' [''asset_id''] ''assets'' [''id''] (Some ''CASCADE'')],
     t_uniques = [],
     t_checks = [], t_rows = []\<rparr>"

definition enable_pgvector_and_create_document_chunks_upgrade :: "ddl list" where
  "enable_pgvector_and_create_document_chunks_upgrade =
     [CreateExtension ''vector'',
      CreateTable document_chunks_table,
      CreateIndex (index ''ix_document_chunks_asset_id'' ''document_chunks'' [''asset_id''] False []),
      CreateUnique ''document_chunks'' ''uq_document_chunks_asset_id_chunk_index'' [''asset_id'', ''chunk_index'']]"

definition enable_pgvector_and_create_document_chunks_downgrade :: "ddl list" where
  "enable_pgvector_and_create_document_chunks_downgrade =
     [DropConstraint ''document_chunks'' ''uq_document_chunks_asset_id_chunk_index'',
      DropIndex ''ix_document_chunks_asset_id'',
      DropTable ''document_chunks'',
      DropExtension ''vector'']"

subsection \<open>e4ba9bdd172a: add embedding columns to document chunks\<close>

definition add_embedding_columns_to_document_chunks_upgrade :: "ddl list" where
  "add_embedding_columns_to_document_chunks_upgrade =
     [AddColumn ''document_chunks'' (col ''embedding'' Vector True None),
      AddColumn ''document_chunks'' (col ''embedding_model'' (VarChar 255) True None),
      AddColumn ''document_chunks'' (col ''embedding_provider'' (VarChar 64) True None)]"

definition add_embedding_columns_to_document_chunks_downgrade :: "ddl list" where
  "add_embedding_columns_to_document_chunks_downgrade =
     [DropColumn ''document_chunks'' ''embedding_provider'',
      DropColumn ''document_chunks'' ''embedding_model'',
      DropColumn ''document_chunks'' ''embedding'']"

subsection \<open>cc4808800645: add asset ingestion job partial unique index\<close>

definition add_asset_ingestion_job_partial_unique_index_upgrade :: "ddl list" where
  "add_asset_ingestion_job_partial_unique_index_upgrade =
     [CreateIndex (index ''uq_jobs_active_asset_ingestion'' ''jobs'' [''target_run_id''] True [(''job_type'',
       [''asset_ingestion'']), (''status'', [''QUEUED'', ''RUNNING'', ''RETRYING''])])]"

definition add_asset_ingestion_job_partial_unique_index_downgrade :: "ddl list" where
  "add_asset_ingestion_job_partial_unique_index_downgrade =
     [DropIndex ''uq_jobs_active_asset_ingestion'']"

section \<open>The chain\<close>

definition create_domain_tables :: migration where
  "create_domain_tables = \<lparr>mg_revision = ''06b17a0f30ad'', mg_down_revision = None,
     mg_upgrade = create_domain_tables_upgrade, mg_downgrade = create_domain_tables_downgrade\<rparr>"

definition create_users_table :: migration where
  "create_users_table = \<lparr>mg_revision = ''1f20f57819a3'', mg_down_revision = Some ''06b17a0f30ad'',
     mg_upgrade = create_users_table_upgrade, mg_downgrade = create_users_table_downgrade\<rparr>"

definition extend_assets_for_storage :: migration where
  "extend_assets_for_storage = \<lparr>mg_revision = ''ae14cc314d2f'', mg_down_revision = Some ''1f20f57819a3'',
     mg_upgrade = extend_assets_for_storage_upgrade, mg_downgrade = extend_assets_for_storage_downgrade\<rparr>"

definition create_llm_requests_table :: migration where
  "create_llm_requests_table = \<lparr>mg_revision = ''7c19e4b8a2d6'', mg_down_revision = Some ''ae14cc314d2f'',
     mg_upgrade = create_llm_requests_table_upgrade, mg_downgrade = create_llm_requests_table_downgrade\<rparr>"

definition create_agent_runs_table :: migration where
  "create_agent_runs_table = \<lparr>mg_revision = ''a1c8f7d2b3e9'', mg_down_revision = Some ''7c19e4b8a2d6'',
     mg_upgrade = create_agent_runs_table_upgrade, mg_downgrade = create_agent_runs_table_downgrade\<rparr>"

definition create_workflow_run_tables :: migration where
  "create_workflow_run_tables = \<lparr>mg_revision = ''d4e6b9a3f1c7'', mg_down_revision = Some ''a1c8f7d2b3e9'',
     mg_upgrade = create_workflow_run_tables_upgrade, mg_downgrade = create_workflow_run_tables_downgrade\<rparr>"

definition add_job_queue_fields_and_worker_heartbeats :: migration where
  "add_job_queue_fields_and_worker_heartbeats = \<lparr>mg_revision = ''b7f3e9a1c5d2'',
    mg_down_revision = Some ''d4e6b9a3f1c7'',
     mg_upgrade = add_job_queue_fields_and_worker_heartbeats_upgrade,
       mg_downgrade = add_job_queue_fields_and_worker_heartbeats_downgrade\<rparr>"

definition add_tool_calls_json_to_agent_runs :: migration where
  "add_tool_calls_json_to_agent_runs = \<lparr>mg_revision = ''d657afc740be'',
    mg_down_revision = Some ''b7f3e9a1c5d2'',
     mg_upgrade = add_tool_calls_json_to_agent_runs_upgrade,
       mg_downgrade = add_tool_calls_json_to_agent_runs_downgrade\<rparr>"

definition enable_pgvector_and_create_document_chunks :: migration where
  "enable_pgvector_and_create_document_chunks = \<lparr>mg_revision = ''ad3f998eece8'',
    mg_down_revision = Some ''d657afc740be'',
     mg_upgrade = enable_pgvector_and_create_document_chunks_upgrade,
       mg_downgrade = enable_pgvector_and_create_document_chunks_downgrade\<rparr>"

definition add_embedding_columns_to_document_chunks :: migration where
  "add_embedding_columns_to_document_chunks = \<lparr>mg_revision = ''e4ba9bdd172a'',
    mg_down_revision = Some ''ad3f998eece8'',
     mg_upgrade = add_embedding_columns_to_document_chunks_upgrade,
       mg_downgrade = add_embedding_columns_to_document_chunks_downgrade\<rparr>"

definition add_asset_ingestion_job_partial_unique_index :: migration where
  "add_asset_ingestion_job_partial_unique_index = \<lparr>mg_revision = ''cc4808800645'',
    mg_down_revision = Some ''e4ba9bdd172a'',
     mg_upgrade = add_asset_ingestion_job_partial_unique_index_upgrade,
       mg_downgrade = add_asset_ingestion_job_partial_unique_index_downgrade\<rparr>"

definition migrations :: "migration list" where
  "migrations =
     [create_domain_tables,
      create_users_table,
      extend_assets_for_storage,
      create_llm_requests_table,
      create_agent_runs_table,
      create_workflow_run_tables,
      add_job_queue_fields_and_worker_heartbeats,
      add_tool_calls_json_to_agent_runs,
      enable_pgvector_and_create_document_chunks,
      add_embedding_columns_to_document_chunks,
      add_asset_ingestion_job_partial_unique_index]"

section \<open>Alembic\<close>

text \<open>A deployment: the revision in \<open>alembic_version\<close> and the database.\<close>

type_synonym deployment = "string option \<times> database"

definition upgrade_step :: "deployment \<Rightarrow> deployment option" where
  "upgrade_step d = (case find (\<lambda>m. mg_down_revision m = fst d) migrations of
       None \<Rightarrow> None
     | Some m \<Rightarrow> map_option (Pair (Some (mg_revision m))) (run_all (mg_upgrade m) (snd d)))"

definition downgrade_step :: "deployment \<Rightarrow> deployment option" where
  "downgrade_step d = (case find (\<lambda>m. Some (mg_revision m) = fst d) migrations of
       None \<Rightarrow> None
     | Some m \<Rightarrow> map_option (Pair (mg_down_revision m)) (run_all (mg_downgrade m) (snd d)))"

fun upgraded :: "migration list \<Rightarrow> database \<Rightarrow> database option" where
  "upgraded [] db = Some db"
| "upgraded (m # ms) db = (case run_all (mg_upgrade m) db of None \<Rightarrow> None | Some db' \<Rightarrow> upgraded ms db')"

text \<open>Each downgrade is made of the inverses of its upgrade, and the upgrades run from the empty database.\<close>

fun chain_ok :: "migration list \<Rightarrow> database \<Rightarrow> bool" where
  "chain_ok [] db \<longleftrightarrow> True"
| "chain_ok (m # ms) db \<longleftrightarrow> (case run_all (mg_upgrade m) db of
       None \<Rightarrow> False
     | Some db' \<Rightarrow> undo_all db (mg_upgrade m) = Some (mg_downgrade m) \<and> chain_ok ms db')"

lemma chain_migrations: "chain_ok migrations empty_database"
  by code_simp

lemma rows_irrelevant_migrations: "list_all (\<lambda>m. rows_irrelevant [] [] (mg_upgrade m)) (butlast migrations)"
  by code_simp

section \<open>Upgrading and downgrading\<close>

definition revisions :: "string option list" where
  "revisions = None # map (\<lambda>m. Some (mg_revision m)) migrations"

text \<open>A deployment at the \<open>i\<close>-th revision: the schema is the one the migrations produce, the rows are anything.\<close>

definition at_revision :: "deployment \<Rightarrow> nat \<Rightarrow> bool" where
  "at_revision d i \<longleftrightarrow> i \<le> length migrations \<and> fst d = revisions ! i
     \<and> upgraded (take i migrations) empty_database = Some (skeleton (snd d)) \<and> database_ok (snd d)"

lemma upgraded_append:
  "upgraded (ms @ ns) db = (case upgraded ms db of None \<Rightarrow> None | Some db' \<Rightarrow> upgraded ns db')"
  by (induction ms arbitrary: db) (simp_all split: option.splits)

lemma chain_ok_nth:
  "chain_ok ms db \<Longrightarrow> i < length ms \<Longrightarrow> upgraded (take i ms) db = Some s \<Longrightarrow>
     \<exists>s'. run_all (mg_upgrade (ms ! i)) s = Some s' \<and> upgraded (take (Suc i) ms) db = Some s'
       \<and> undo_all s (mg_upgrade (ms ! i)) = Some (mg_downgrade (ms ! i))"
proof (induction ms arbitrary: db i)
  case (Cons m ms)
  then obtain db' where m: "run_all (mg_upgrade m) db = Some db'" "chain_ok ms db'"
      "undo_all db (mg_upgrade m) = Some (mg_downgrade m)"
    by (auto split: option.splits)
  show ?case
  proof (cases i)
    case 0
    then show ?thesis using m Cons.prems(3) by simp
  next
    case (Suc j)
    then show ?thesis using Cons.IH [OF m(2), of j] Cons.prems(2,3) m(1) by simp
  qed
qed simp

lemma find_nth:
  "distinct (map f xs) \<Longrightarrow> i < length xs \<Longrightarrow> find (\<lambda>x. f x = f (xs ! i)) xs = Some (xs ! i)"
  by (induction xs arbitrary: i) (auto simp: nth_Cons split: nat.splits)

lemmas migration_defs = create_domain_tables_def create_users_table_def extend_assets_for_storage_def create_llm_requests_table_def 
  create_agent_runs_table_def create_workflow_run_tables_def add_job_queue_fields_and_worker_heartbeats_def add_tool_calls_json_to_agent_runs_def 
  enable_pgvector_and_create_document_chunks_def add_embedding_columns_to_document_chunks_def add_asset_ingestion_job_partial_unique_index_def

lemmas upgrade_defs = create_domain_tables_upgrade_def create_users_table_upgrade_def extend_assets_for_storage_upgrade_def
  create_llm_requests_table_upgrade_def create_agent_runs_table_upgrade_def create_workflow_run_tables_upgrade_def
  add_job_queue_fields_and_worker_heartbeats_upgrade_def add_tool_calls_json_to_agent_runs_upgrade_def
  enable_pgvector_and_create_document_chunks_upgrade_def add_embedding_columns_to_document_chunks_upgrade_def
  add_asset_ingestion_job_partial_unique_index_upgrade_def

lemma linear_history:
  "map mg_down_revision migrations = butlast revisions" "distinct revisions" "length migrations = 11"
  by (simp_all add: revisions_def migrations_def migration_defs)

lemma down_revision_nth: "i < length migrations \<Longrightarrow> mg_down_revision (migrations ! i) = revisions ! i"
proof -
  assume i: "i < length migrations"
  then have "mg_down_revision (migrations ! i) = butlast revisions ! i"
    by (simp add: linear_history(1) [symmetric])
  also have "\<dots> = revisions ! i" using i by (intro nth_butlast) (auto simp: revisions_def)
  finally show ?thesis .
qed

lemma revision_Suc: "i < length migrations \<Longrightarrow> revisions ! Suc i = Some (mg_revision (migrations ! i))"
  by (simp add: revisions_def)

lemma find_upgrade:
  assumes "i \<le> length migrations"
  shows "find (\<lambda>m. mg_down_revision m = revisions ! i) migrations = (if i < length migrations then Some (migrations ! i) else None)"
proof (cases "i < length migrations")
  case True
  have "distinct (map mg_down_revision migrations)"
    using linear_history(1,2) by (simp add: distinct_butlast)
  then show ?thesis using find_nth [of mg_down_revision migrations i] True down_revision_nth [OF True] by simp
next
  case False
  then have "i = length migrations" using assms by simp
  then have "last revisions = revisions ! i" by (simp add: last_conv_nth revisions_def nth_Cons')
  moreover have "distinct (butlast revisions @ [last revisions])"
    using linear_history(2) append_butlast_last_id [of revisions] by (simp add: revisions_def)
  ultimately have "revisions ! i \<notin> set (butlast revisions)" by simp
  then have "mg_down_revision m \<noteq> revisions ! i" if "m \<in> set migrations" for m
    using that linear_history(1) by (metis image_eqI image_set)
  then show ?thesis using False by (auto simp: find_None_iff)
qed

lemma find_downgrade:
  assumes "i < length migrations"
  shows "find (\<lambda>m. Some (mg_revision m) = revisions ! Suc i) migrations = Some (migrations ! i)"
proof -
  have "distinct (map (\<lambda>m. Some (mg_revision m)) migrations)"
    using linear_history(2) by (simp add: revisions_def)
  from find_nth [OF this assms] show ?thesis by (simp add: revision_Suc [OF assms])
qed

lemma upgrade_step_at:
  assumes "at_revision d i"
  shows "upgrade_step d = (if i < length migrations
     then map_option (Pair (revisions ! Suc i)) (run_all (mg_upgrade (migrations ! i)) (snd d)) else None)"
  using assms by (auto simp: upgrade_step_def at_revision_def find_upgrade revision_Suc)

lemma migration_at:
  assumes "at_revision d i" "i < length migrations"
  obtains s' where "run_all (mg_upgrade (migrations ! i)) (skeleton (snd d)) = Some s'"
    "upgraded (take (Suc i) migrations) empty_database = Some s'"
    "undo_all (snd d) (mg_upgrade (migrations ! i)) = Some (mg_downgrade (migrations ! i))"
proof -
  have "upgraded (take i migrations) empty_database = Some (skeleton (snd d))"
    using assms(1) by (simp add: at_revision_def)
  from chain_ok_nth [OF chain_migrations assms(2) this] obtain s' where
    s: "run_all (mg_upgrade (migrations ! i)) (skeleton (snd d)) = Some s'"
      "upgraded (take (Suc i) migrations) empty_database = Some s'"
      "undo_all (skeleton (snd d)) (mg_upgrade (migrations ! i)) = Some (mg_downgrade (migrations ! i))"
    by blast
  moreover have "undo_all (snd d) (mg_upgrade (migrations ! i)) = Some (mg_downgrade (migrations ! i))"
    by (rule skeleton_undo_all [OF s(3)]) (simp add: s(1))
  ultimately show ?thesis using that [OF s(1,2)] by blast
qed

lemma upgrade_then_downgrade:
  assumes d: "at_revision d i" and q: "upgrade_step d = Some q"
  shows "at_revision q (Suc i) \<and> downgrade_step q = Some d"
proof -
  have i: "i < length migrations" using q by (auto simp: upgrade_step_at [OF d] split: if_splits)
  then obtain db where up: "run_all (mg_upgrade (migrations ! i)) (snd d) = Some db" "q = (revisions ! Suc i, db)"
    using q by (auto simp: upgrade_step_at [OF d])
  obtain s' where s: "run_all (mg_upgrade (migrations ! i)) (skeleton (snd d)) = Some s'"
      "upgraded (take (Suc i) migrations) empty_database = Some s'"
      "undo_all (snd d) (mg_upgrade (migrations ! i)) = Some (mg_downgrade (migrations ! i))"
    using migration_at [OF d i] .
  have down: "run_all (mg_downgrade (migrations ! i)) db = Some (snd d)" "database_ok db"
    using run_undo [OF _ s(3) up(1)] d by (simp_all add: at_revision_def)
  have "skeleton db = s'" using skeleton_run_all [OF _ up(1)] s(1,3) by simp
  then have "at_revision q (Suc i)" using i s(2) up(2) down(2) by (simp add: at_revision_def)
  moreover have "downgrade_step q = Some (mg_down_revision (migrations ! i), snd d)"
    using up(2) down(1) by (simp add: downgrade_step_def find_downgrade [OF i])
  ultimately show ?thesis using d down_revision_nth [OF i] by (simp add: at_revision_def prod_eq_iff)
qed

text \<open>All migrations but the last are accepted whatever rows there are.\<close>

lemma upgrade_accepted:
  assumes d: "at_revision d i" and i: "Suc i < length migrations"
  shows "upgrade_step d \<noteq> None"
proof -
  have i': "i < length migrations" using i by simp
  obtain s' where s: "run_all (mg_upgrade (migrations ! i)) (skeleton (snd d)) = Some s'"
      "undo_all (snd d) (mg_upgrade (migrations ! i)) = Some (mg_downgrade (migrations ! i))"
    using migration_at [OF d i'] by metis
  have "butlast migrations ! i = migrations ! i" "i < length (butlast migrations)"
    using i by (simp_all add: nth_butlast)
  then have "rows_irrelevant [] [] (mg_upgrade (migrations ! i))"
    using rows_irrelevant_migrations by (metis list_all_length)
  then have "run_all (mg_upgrade (migrations ! i)) (snd d) \<noteq> None"
    using any_rows_accepted [of "snd d" "[]" "[]"] s d by (simp add: at_revision_def rows_like_def)
  then show ?thesis using i' by (simp add: upgrade_step_at [OF d])
qed

text \<open>The last migration creates the unique index over active ingestion jobs, which duplicates prevent.\<close>

lemma last_upgrade_accepted:
  assumes d: "at_revision d i" and last: "Suc i = length migrations"
  shows "upgrade_step d \<noteq> None \<longleftrightarrow> table_satisfies (snd d) ''jobs'' (\<lambda>t. no_duplicates t [''target_run_id'']
    [(''job_type'', [''asset_ingestion'']), (''status'', [''QUEUED'', ''RUNNING'', ''RETRYING''])])"
proof -
  let ?x = "index ''uq_jobs_active_asset_ingestion'' ''jobs'' [''target_run_id''] True
    [(''job_type'', [''asset_ingestion'']), (''status'', [''QUEUED'', ''RUNNING'', ''RETRYING''])]"
  have i: "i < length migrations" "i = 10" using last linear_history(3) by simp_all
  have m: "mg_upgrade (migrations ! i) = [CreateIndex ?x]"
    by (simp add: i(2) migrations_def migration_defs add_asset_ingestion_job_partial_unique_index_upgrade_def)
  obtain s' where "run_all (mg_upgrade (migrations ! i)) (skeleton (snd d)) = Some s'"
    by (rule migration_at [OF d i(1)])
  then have "allowed (skeleton (snd d)) (CreateIndex ?x)"
    unfolding m by (cases "allowed (skeleton (snd d)) (CreateIndex ?x)") (simp_all only: run_all.simps run_ddl_def if_True if_False option.simps)
  from index_refused_by_rows [OF this] m i(1)
  show "upgrade_step d \<noteq> None \<longleftrightarrow> table_satisfies (snd d) ''jobs'' (\<lambda>t. no_duplicates t [''target_run_id'']
      [(''job_type'', [''asset_ingestion'']), (''status'', [''QUEUED'', ''RUNNING'', ''RETRYING''])])"
    by (simp add: upgrade_step_at [OF d] run_ddl_def index_def del: allowed.simps)
qed

text \<open>Every revision is reached from the empty database, without rows.\<close>

definition schema_at :: "nat \<Rightarrow> database" where
  "schema_at i = (case upgraded (take i migrations) empty_database of Some s \<Rightarrow> s | None \<Rightarrow> empty_database)"

lemma empty_at_base: "at_revision (None, empty_database) 0"
  by (simp add: at_revision_def revisions_def skeleton_def empty_database_def database_ok_def fks_ok_def all_fks_def
      types_known_def)

lemma at_revision_schema: "at_revision d i \<Longrightarrow> skeleton (snd d) = schema_at i"
  by (simp add: at_revision_def schema_at_def)

lemma run_effects: "run_all ss db = Some db' \<Longrightarrow> db' = fold effect ss db"
  by (induction ss arbitrary: db) (auto simp: run_ddl_def split: if_splits)

lemma skeleton_idem [simp]: "skeleton (skeleton db) = skeleton db"
  by (simp add: skeleton_def)

lemma schema_at_revision: "i \<le> length migrations \<Longrightarrow> at_revision (revisions ! i, schema_at i) i"
proof (induction i)
  case 0
  show ?case using empty_at_base by (simp add: schema_at_def revisions_def)
next
  case (Suc i)
  then have d: "at_revision (revisions ! i, schema_at i) i" and i: "i < length migrations" by simp_all
  then obtain s' where s: "run_all (mg_upgrade (migrations ! i)) (skeleton (schema_at i)) = Some s'"
    using migration_at by (metis snd_conv)
  have sk: "skeleton (schema_at i) = schema_at i" using at_revision_schema [OF d] by simp
  then have up: "upgrade_step (revisions ! i, schema_at i) = Some (revisions ! Suc i, s')"
    using s i by (simp add: upgrade_step_at [OF d])
  have q: "at_revision (revisions ! Suc i, s') (Suc i)" using upgrade_then_downgrade [OF d up] by simp
  have "skeleton s' = s'"
    using skeleton_run_all [of "schema_at i" "mg_upgrade (migrations ! i)" s'] s sk migration_at [OF d i] by (metis option.inject option.distinct(1) snd_conv)
  then show ?case using q at_revision_schema [OF q] by simp
qed

text \<open>Rows may be added to any table.\<close>

lemma at_revision_rows:
  assumes d: "at_revision (v, db) i" and t: "find_table db n = Some t" and rs: "\<forall>r\<in>set rs. length r = length (t_columns t)"
  shows "at_revision (v, on_table n (\<lambda>t. t\<lparr>t_rows := rs\<rparr>) db) i"
proof -
  have ok: "database_ok db" using d by (simp add: at_revision_def)
  have "database_ok (on_table n (\<lambda>t. t\<lparr>t_rows := rs\<rparr>) db)"
  proof (rule on_table_database_ok [OF ok t])
    show "extends db (on_table n (\<lambda>t. t\<lparr>t_rows := rs\<rparr>) db)" by (rule extends_on_table) simp_all
    have "table_ok t" using ok find_table_Some [OF t] by (simp add: database_ok_def list_all_iff)
    then show "table_ok (t\<lparr>t_rows := rs\<rparr>)" using rs by (simp add: table_ok_def list_all_iff)
    show "type_known db (c_type c)" if "c \<in> set (t_columns (t\<lparr>t_rows := rs\<rparr>))" for c
      using that ok find_table_Some [OF t] by (auto simp: database_ok_def types_known_def list_all_iff)
  qed simp_all
  moreover have "skeleton (on_table n (\<lambda>t. t\<lparr>t_rows := rs\<rparr>) db) = skeleton db"
    by (simp add: skeleton_def on_table_def comp_def)
  ultimately show ?thesis using d by (simp add: at_revision_def)
qed

text \<open>A downgrade is accepted whatever rows there are.\<close>

lemma downgrades_remove: "list_all (\<lambda>m. list_all removes (mg_downgrade m)) migrations"
  by code_simp

lemma downgrade_accepted:
  assumes q: "at_revision q (Suc i)"
  shows "\<exists>d. downgrade_step q = Some d \<and> at_revision d i"
proof -
  have i: "i < length migrations" using q by (simp add: at_revision_def)
  have d: "at_revision (revisions ! i, schema_at i) i" using schema_at_revision i by simp
  have up: "upgrade_step (revisions ! i, schema_at i) \<noteq> None"
    using migration_at [OF d i] at_revision_schema [OF d] i by (auto simp: upgrade_step_at [OF d])
  then obtain p where p: "upgrade_step (revisions ! i, schema_at i) = Some p" by blast
  have p': "at_revision p (Suc i)" "downgrade_step p = Some (revisions ! i, schema_at i)"
    using upgrade_then_downgrade [OF d p] by simp_all
  have same: "skeleton (snd p) = skeleton (snd q)"
    using at_revision_schema [OF q] at_revision_schema [OF p'(1)] by simp
  have rem: "list_all removes (mg_downgrade (migrations ! i))"
    using downgrades_remove i by (simp add: list_all_length)
  have "run_all (mg_downgrade (migrations ! i)) (snd p) = Some (schema_at i)"
    using p'(2) i p'(1) find_downgrade [OF i] by (auto simp: downgrade_step_def at_revision_def)
  from removes_run_skeleton [OF rem this]
  have "run_all (mg_downgrade (migrations ! i)) (skeleton (snd q)) = Some (schema_at i)"
    using same at_revision_schema [OF d] by simp
  moreover have "rows_fit (snd q)" using q by (simp add: at_revision_def database_ok_skeleton [of "snd q"])
  ultimately obtain db where db: "run_all (mg_downgrade (migrations ! i)) (snd q) = Some db" "skeleton db = schema_at i" "rows_fit db"
    using removes_run_all [OF rem] by blast
  have "database_ok (schema_at i)" using d by (simp add: at_revision_def)
  then have "database_ok db" using db(2,3) database_ok_skeleton [of db] by simp
  moreover have "upgraded (take i migrations) empty_database = Some (schema_at i)"
    using d at_revision_schema [OF d] by (simp add: at_revision_def)
  ultimately have "at_revision (revisions ! i, db) i" using i db(2) by (simp add: at_revision_def)
  moreover have "downgrade_step q = Some (revisions ! i, db)"
    using q find_downgrade [OF i] db(1) down_revision_nth [OF i] by (simp add: downgrade_step_def at_revision_def)
  ultimately show ?thesis by blast
qed

section \<open>Properties\<close>

text \<open>
  C13: A migration can be taken back without a trace. Whatever rows a database at a revision has, if the
  upgrade to the next revision is accepted, it leads to that revision's schema, and the downgrade is
  accepted there and restores the database exactly, every row and default included.
\<close>

theorem migrations_are_reversible:
  assumes "at_revision d i" and "upgrade_step d = Some q"
  shows "at_revision q (Suc i) \<and> downgrade_step q = Some d"
  using assms by (rule upgrade_then_downgrade)

definition stored_asset :: "cell list" where
  "stored_asset = [Some ''a1'', Some ''p1'', Some ''file'', Some ''logo.png'', Some ''products/p1/a1/logo.png'',
     Some ''image/png'', Some ''3'', Some ''c0ffee'', Some ''2026-07-14'', Some ''2026-07-14'']"

text \<open>A deployment from before assets had a storage backend, with one asset.\<close>

definition old_deployment :: deployment where
  "old_deployment = (revisions ! 2, on_table ''assets'' (\<lambda>t. t\<lparr>t_rows := [stored_asset]\<rparr>) (schema_at 2))"

lemma old_assets_table: "find_table (schema_at 2) ''assets'' = Some assets_table"
  by code_simp

lemma old_deployment_at: "at_revision old_deployment 2"
  unfolding old_deployment_def
proof (rule at_revision_rows [OF _ old_assets_table])
  show "at_revision (revisions ! 2, schema_at 2) 2" by (rule schema_at_revision) (simp add: linear_history(3))
  show "\<forall>r\<in>set [stored_asset]. length r = length (t_columns assets_table)"
    by (simp add: stored_asset_def assets_table_def)
qed

theorem migrations_are_reversible_witness:
  "\<exists>q. upgrade_step old_deployment = Some q \<and> at_revision q 3 \<and> downgrade_step q = Some old_deployment"
proof -
  obtain q where q: "upgrade_step old_deployment = Some q"
    using upgrade_accepted [OF old_deployment_at] linear_history(3) by auto
  from migrations_are_reversible [OF old_deployment_at this] q show ?thesis by simp
qed

text \<open>
  C35: Existing rows never block a migration, up or down, but for one case: from every revision except the
  last but one, the upgrade is accepted whatever rows the tables have; the last upgrade, the unique
  index over active ingestion jobs, is accepted exactly if no asset has two of them; and every
  downgrade is accepted and leads to the schema of the revision before.
\<close>

theorem migrations_accept_existing_rows:
  assumes "at_revision d i"
  shows "(Suc i < length migrations \<longrightarrow> upgrade_step d \<noteq> None)
    \<and> (Suc i = length migrations \<longrightarrow> (upgrade_step d \<noteq> None \<longleftrightarrow> table_satisfies (snd d) ''jobs''
         (\<lambda>t. no_duplicates t [''target_run_id'']
           [(''job_type'', [''asset_ingestion'']), (''status'', [''QUEUED'', ''RUNNING'', ''RETRYING''])])))
    \<and> (0 < i \<longrightarrow> (\<exists>p. downgrade_step d = Some p \<and> at_revision p (i - 1)))"
proof (intro conjI impI)
  show "Suc i < length migrations \<Longrightarrow> upgrade_step d \<noteq> None" by (rule upgrade_accepted [OF assms])
  show "\<exists>p. downgrade_step d = Some p \<and> at_revision p (i - 1)" if "0 < i"
    using downgrade_accepted [of d "i - 1"] assms that by simp
  show "Suc i = length migrations \<Longrightarrow> upgrade_step d \<noteq> None \<longleftrightarrow> table_satisfies (snd d) ''jobs''
      (\<lambda>t. no_duplicates t [''target_run_id'']
         [(''job_type'', [''asset_ingestion'']), (''status'', [''QUEUED'', ''RUNNING'', ''RETRYING''])])"
    by (rule last_upgrade_accepted [OF assms])
qed

theorem migrations_accept_existing_rows_witness:
  "upgrade_step old_deployment \<noteq> None \<and> (\<exists>p. downgrade_step old_deployment = Some p \<and> at_revision p 1)"
  using migrations_accept_existing_rows [OF old_deployment_at] linear_history(3) by simp

end
