(* ===== verification/OrmSchema.thy ===== *)
theory OrmSchema
  imports Migrations Errors
begin

text \<open>
  The ORM models of \<open>app/models\<close>, column by column, and what it takes for a migrated database to implement
  them. An enumeration column holds the names of the members, not their values: \<open>SAEnum\<close> is used
  without \<open>values_callable\<close>. Loading a row turns a text that is no member's name into a LookupError.
\<close>

section \<open>Models\<close>

datatype orm_type = Plain sql_type | SAEnum "string list"

record orm_column =
  oc_name :: string
  oc_type :: orm_type
  oc_nullable :: bool
  oc_primary_key :: bool
  oc_fk :: "(string \<times> string \<times> string option) option"
  oc_unique :: bool
  oc_index :: bool
  oc_server_default :: "sql_default option"

definition column_def :: "string \<Rightarrow> orm_type \<Rightarrow> bool \<Rightarrow> orm_column" where
  "column_def name ty nullable = \<lparr>oc_name = name, oc_type = ty, oc_nullable = nullable, oc_primary_key = False,
     oc_fk = None, oc_unique = False, oc_index = False, oc_server_default = None\<rparr>"

definition timestamp_mixin :: "orm_column list" where
  "timestamp_mixin =
     [(column_def ''created_at'' (Plain TimestampTz) False)\<lparr>oc_server_default := Some (Expr ''now()'')\<rparr>,
      (column_def ''updated_at'' (Plain TimestampTz) False)\<lparr>oc_server_default := Some (Expr ''now()'')\<rparr>]"

record orm_model =
  om_table :: string
  om_columns :: "orm_column list"
  om_unique_constraints :: "string list list"
  om_checks :: "(string \<times> string) list"
  om_indexes :: "db_index list"

subsection \<open>The members of the enumerations\<close>

definition product_status_names :: "string list" where
  "product_status_names = [''DRAFT'', ''ACTIVE'', ''ARCHIVED'']"

definition product_type_names :: "string list" where
  "product_type_names = [''BRAND_KIT'', ''PROMPT_PACK'', ''TEXTURE_PACK'', ''SVG_PACK'', ''MOCKUP_PACK'',
    ''PRESET_PACK'', ''TATTOO_PACK'', ''STL_PACK'']"

definition job_status_names :: "string list" where
  "job_status_names = [''QUEUED'', ''RUNNING'', ''RETRYING'', ''COMPLETED'', ''FAILED'', ''CANCELLED'']"

definition agent_status_names :: "string list" where
  "agent_status_names = [''DRAFT'', ''ACTIVE'', ''DEPRECATED'']"

definition workflow_status_names :: "string list" where
  "workflow_status_names = [''DRAFT'', ''ACTIVE'', ''DEPRECATED'']"

definition user_role_names :: "string list" where
  "user_role_names = [''VIEWER'', ''OPERATOR'', ''ADMIN'']"

definition user_status_names :: "string list" where
  "user_status_names = [''PENDING'', ''ACTIVE'', ''DISABLED'']"

definition asset_status_names :: "string list" where
  "asset_status_names = [''PENDING'', ''AVAILABLE'', ''FAILED'', ''DELETED'']"

definition storage_provider_names :: "string list" where
  "storage_provider_names = [''LOCAL'', ''S3'']"

definition llm_request_status_names :: "string list" where
  "llm_request_status_names = [''PENDING'', ''SUCCEEDED'', ''FAILED'']"

definition agent_run_status_names :: "string list" where
  "agent_run_status_names = [''QUEUED'', ''RUNNING'', ''COMPLETED'', ''FAILED'', ''CANCELLED'']"

definition workflow_run_status_names :: "string list" where
  "workflow_run_status_names = [''QUEUED'', ''RUNNING'', ''COMPLETED'', ''FAILED'', ''CANCELLED'']"

definition workflow_step_run_status_names :: "string list" where
  "workflow_step_run_status_names = [''PENDING'', ''RUNNING'', ''COMPLETED'', ''FAILED'', ''CANCELLED'', ''SKIPPED'']"


subsection \<open>The tables\<close>

definition product_model :: orm_model where
  "product_model = \<lparr>om_table = ''products'',
     om_columns =
       [(column_def ''id'' (Plain Uuid) False)\<lparr>oc_primary_key := True\<rparr>,
        (column_def ''slug'' (Plain (VarChar 255)) False)\<lparr>oc_unique := True, oc_index := True\<rparr>,
        column_def ''title'' (Plain (VarChar 255)) False,
        column_def ''description'' (Plain Text) True,
        column_def ''product_type'' (SAEnum product_type_names) False,
        (column_def ''status'' (SAEnum product_status_names) False)\<lparr>oc_index := True\<rparr>,
        column_def ''version'' (Plain (VarChar 32)) False,
        column_def ''price_cents'' (Plain Int4) False,
        column_def ''currency'' (Plain (VarChar 3)) False,
        column_def ''metadata_json'' (Plain Jsonb) False]
       @ timestamp_mixin,
     om_unique_constraints = [],
     om_checks = [(''ck_products_price_cents_non_negative'', ''price_cents >= 0''),
        (''ck_products_currency_iso4217_length'', ''char_length(currency) = 3'')],
     om_indexes = []\<rparr>"

definition asset_model :: orm_model where
  "asset_model = \<lparr>om_table = ''assets'',
     om_columns =
       [(column_def ''id'' (Plain Uuid) False)\<lparr>oc_primary_key := True\<rparr>,
        (column_def ''product_id'' (Plain Uuid) False)\<lparr>oc_fk := Some (''products'', ''id'',
          Some ''CASCADE''), oc_index := True\<rparr>,
        column_def ''asset_type'' (Plain (VarChar 64)) False,
        column_def ''filename'' (Plain (VarChar 512)) False,
        (column_def ''storage_key'' (Plain (VarChar 1024)) False)\<lparr>oc_unique := True\<rparr>,
        column_def ''mime_type'' (Plain (VarChar 255)) False,
        column_def ''size_bytes'' (Plain Int8) False,
        column_def ''checksum'' (Plain (VarChar 128)) False,
        column_def ''original_filename'' (Plain (VarChar 512)) True,
        column_def ''content_type'' (Plain (VarChar 255)) True,
        column_def ''etag'' (Plain (VarChar 255)) True,
        column_def ''storage_backend'' (SAEnum storage_provider_names) False,
        (column_def ''status'' (SAEnum asset_status_names) False)\<lparr>oc_index := True\<rparr>,
        (column_def ''uploaded_by_user_id'' (Plain Uuid) True)\<lparr>oc_fk := Some (''users'', ''id'',
          Some ''SET NULL''), oc_index := True\<rparr>,
        column_def ''deleted_at'' (Plain TimestampTz) True]
       @ timestamp_mixin,
     om_unique_constraints = [],
     om_checks = [],
     om_indexes = []\<rparr>"

definition job_model :: orm_model where
  "job_model = \<lparr>om_table = ''jobs'',
     om_columns =
       [(column_def ''id'' (Plain Uuid) False)\<lparr>oc_primary_key := True\<rparr>,
        (column_def ''job_type'' (Plain (VarChar 128)) False)\<lparr>oc_index := True\<rparr>,
        (column_def ''status'' (SAEnum job_status_names) False)\<lparr>oc_index := True\<rparr>,
        (column_def ''target_run_id'' (Plain Uuid) True)\<lparr>oc_index := True\<rparr>,
        column_def ''input_json'' (Plain Jsonb) False,
        column_def ''output_json'' (Plain Jsonb) True,
        column_def ''error_code'' (Plain (VarChar 128)) True,
        column_def ''error_message'' (Plain Text) True,
        column_def ''attempt_count'' (Plain Int4) False,
        column_def ''max_attempts'' (Plain Int4) False,
        column_def ''next_attempt_at'' (Plain TimestampTz) True,
        column_def ''lease_expires_at'' (Plain TimestampTz) True,
        column_def ''heartbeat_at'' (Plain TimestampTz) True,
        (column_def ''worker_id'' (Plain (VarChar 128)) True)\<lparr>oc_index := True\<rparr>,
        column_def ''cancel_requested_at'' (Plain TimestampTz) True,
        column_def ''started_at'' (Plain TimestampTz) True,
        column_def ''completed_at'' (Plain TimestampTz) True]
       @ timestamp_mixin,
     om_unique_constraints = [],
     om_checks = [],
     om_indexes = [index ''uq_jobs_active_asset_ingestion'' ''jobs'' [''target_run_id''] True
         [(''job_type'', [''asset_ingestion'']), (''status'', [''QUEUED'', ''RUNNING'', ''RETRYING''])]]\<rparr>"

definition agent_definition_model :: orm_model where
  "agent_definition_model = \<lparr>om_table = ''agent_definitions'',
     om_columns =
       [(column_def ''id'' (Plain Uuid) False)\<lparr>oc_primary_key := True\<rparr>,
        (column_def ''name'' (Plain (VarChar 128)) False)\<lparr>oc_unique := True, oc_index := True\<rparr>,
        column_def ''role'' (Plain (VarChar 255)) False,
        column_def ''version'' (Plain (VarChar 32)) False,
        (column_def ''status'' (SAEnum agent_status_names) False)\<lparr>oc_index := True\<rparr>,
        column_def ''configuration_json'' (Plain Jsonb) False]
       @ timestamp_mixin,
     om_unique_constraints = [],
     om_checks = [],
     om_indexes = []\<rparr>"

definition workflow_definition_model :: orm_model where
  "workflow_definition_model = \<lparr>om_table = ''workflow_definitions'',
     om_columns =
       [(column_def ''id'' (Plain Uuid) False)\<lparr>oc_primary_key := True\<rparr>,
        (column_def ''name'' (Plain (VarChar 128)) False)\<lparr>oc_unique := True, oc_index := True\<rparr>,
        column_def ''version'' (Plain (VarChar 32)) False,
        (column_def ''status'' (SAEnum workflow_status_names) False)\<lparr>oc_index := True\<rparr>,
        column_def ''definition_json'' (Plain Jsonb) False]
       @ timestamp_mixin,
     om_unique_constraints = [],
     om_checks = [],
     om_indexes = []\<rparr>"

definition user_model :: orm_model where
  "user_model = \<lparr>om_table = ''users'',
     om_columns =
       [(column_def ''id'' (Plain Uuid) False)\<lparr>oc_primary_key := True\<rparr>,
        (column_def ''email'' (Plain (VarChar 320)) False)\<lparr>oc_unique := True, oc_index := True\<rparr>,
        column_def ''hashed_password'' (Plain (VarChar 255)) False,
        column_def ''full_name'' (Plain (VarChar 255)) False,
        (column_def ''role'' (SAEnum user_role_names) False)\<lparr>oc_index := True\<rparr>,
        (column_def ''status'' (SAEnum user_status_names) False)\<lparr>oc_index := True\<rparr>,
        column_def ''is_verified'' (Plain Boolean) False,
        column_def ''last_login_at'' (Plain TimestampTz) True]
       @ timestamp_mixin,
     om_unique_constraints = [],
     om_checks = [],
     om_indexes = []\<rparr>"

definition llm_request_model :: orm_model where
  "llm_request_model = \<lparr>om_table = ''llm_requests'',
     om_columns =
       [(column_def ''id'' (Plain Uuid) False)\<lparr>oc_primary_key := True\<rparr>,
        (column_def ''user_id'' (Plain Uuid) True)\<lparr>oc_fk := Some (''users'', ''id'', Some ''SET NULL''),
          oc_index := True\<rparr>,
        (column_def ''provider'' (Plain (VarChar 64)) False)\<lparr>oc_index := True\<rparr>,
        column_def ''model'' (Plain (VarChar 255)) False,
        (column_def ''status'' (SAEnum llm_request_status_names) False)\<lparr>oc_index := True\<rparr>,
        column_def ''request_metadata_json'' (Plain Jsonb) False,
        column_def ''response_metadata_json'' (Plain Jsonb) False,
        column_def ''input_tokens'' (Plain Int8) True,
        column_def ''output_tokens'' (Plain Int8) True,
        column_def ''total_tokens'' (Plain Int8) True,
        column_def ''estimated_cost_usd'' (Plain (Numeric 12 6)) True,
        column_def ''latency_ms'' (Plain Int8) True,
        column_def ''error_code'' (Plain (VarChar 128)) True,
        column_def ''completed_at'' (Plain TimestampTz) True]
       @ timestamp_mixin,
     om_unique_constraints = [],
     om_checks = [],
     om_indexes = []\<rparr>"

definition agent_run_model :: orm_model where
  "agent_run_model = \<lparr>om_table = ''agent_runs'',
     om_columns =
       [(column_def ''id'' (Plain Uuid) False)\<lparr>oc_primary_key := True\<rparr>,
        (column_def ''agent_id'' (Plain Uuid) False)\<lparr>oc_fk := Some (''agent_definitions'', ''id'', None),
          oc_index := True\<rparr>,
        (column_def ''created_by_user_id'' (Plain Uuid) True)\<lparr>oc_fk := Some (''users'', ''id'',
          Some ''SET NULL''), oc_index := True\<rparr>,
        (column_def ''status'' (SAEnum agent_run_status_names) False)\<lparr>oc_index := True\<rparr>,
        (column_def ''llm_request_id'' (Plain Uuid) True)\<lparr>oc_fk := Some (''llm_requests'', ''id'',
          Some ''SET NULL''), oc_index := True\<rparr>,
        column_def ''provider'' (Plain (VarChar 64)) True,
        column_def ''model'' (Plain (VarChar 255)) True,
        column_def ''input_tokens'' (Plain Int8) True,
        column_def ''output_tokens'' (Plain Int8) True,
        column_def ''total_tokens'' (Plain Int8) True,
        column_def ''estimated_cost_usd'' (Plain (Numeric 12 6)) True,
        column_def ''output_text'' (Plain Text) True,
        column_def ''tool_calls_json'' (Plain Jsonb) True,
        column_def ''error_code'' (Plain (VarChar 128)) True,
        column_def ''error_message'' (Plain Text) True,
        column_def ''duration_ms'' (Plain Int8) True,
        column_def ''started_at'' (Plain TimestampTz) True,
        column_def ''completed_at'' (Plain TimestampTz) True]
       @ timestamp_mixin,
     om_unique_constraints = [],
     om_checks = [],
     om_indexes = []\<rparr>"

definition workflow_run_model :: orm_model where
  "workflow_run_model = \<lparr>om_table = ''workflow_runs'',
     om_columns =
       [(column_def ''id'' (Plain Uuid) False)\<lparr>oc_primary_key := True\<rparr>,
        (column_def ''workflow_id'' (Plain Uuid) False)\<lparr>oc_fk := Some (''workflow_definitions'', ''id'',
          None), oc_index := True\<rparr>,
        (column_def ''created_by_user_id'' (Plain Uuid) True)\<lparr>oc_fk := Some (''users'', ''id'',
          Some ''SET NULL''), oc_index := True\<rparr>,
        (column_def ''status'' (SAEnum workflow_run_status_names) False)\<lparr>oc_index := True\<rparr>,
        column_def ''output_text'' (Plain Text) True,
        column_def ''error_code'' (Plain (VarChar 128)) True,
        column_def ''error_message'' (Plain Text) True,
        column_def ''duration_ms'' (Plain Int8) True,
        column_def ''started_at'' (Plain TimestampTz) True,
        column_def ''completed_at'' (Plain TimestampTz) True]
       @ timestamp_mixin,
     om_unique_constraints = [],
     om_checks = [],
     om_indexes = []\<rparr>"

definition workflow_step_run_model :: orm_model where
  "workflow_step_run_model = \<lparr>om_table = ''workflow_step_runs'',
     om_columns =
       [(column_def ''id'' (Plain Uuid) False)\<lparr>oc_primary_key := True\<rparr>,
        (column_def ''workflow_run_id'' (Plain Uuid) False)\<lparr>oc_fk := Some (''workflow_runs'', ''id'',
          Some ''CASCADE''), oc_index := True\<rparr>,
        column_def ''step_id'' (Plain (VarChar 128)) False,
        column_def ''step_order'' (Plain Int4) False,
        (column_def ''agent_id'' (Plain Uuid) False)\<lparr>oc_fk := Some (''agent_definitions'', ''id'', None),
          oc_index := True\<rparr>,
        (column_def ''agent_run_id'' (Plain Uuid) True)\<lparr>oc_fk := Some (''agent_runs'', ''id'',
          Some ''SET NULL''), oc_index := True\<rparr>,
        column_def ''input_snapshot'' (Plain Text) True,
        column_def ''output_text'' (Plain Text) True,
        (column_def ''status'' (SAEnum workflow_step_run_status_names) False)\<lparr>oc_index := True\<rparr>,
        column_def ''error_code'' (Plain (VarChar 128)) True,
        column_def ''error_message'' (Plain Text) True,
        column_def ''duration_ms'' (Plain Int8) True,
        column_def ''started_at'' (Plain TimestampTz) True,
        column_def ''completed_at'' (Plain TimestampTz) True]
       @ timestamp_mixin,
     om_unique_constraints = [],
     om_checks = [],
     om_indexes = []\<rparr>"

definition document_chunk_model :: orm_model where
  "document_chunk_model = \<lparr>om_table = ''document_chunks'',
     om_columns =
       [(column_def ''id'' (Plain Uuid) False)\<lparr>oc_primary_key := True\<rparr>,
        (column_def ''asset_id'' (Plain Uuid) False)\<lparr>oc_fk := Some (''assets'', ''id'', Some ''CASCADE''),
          oc_index := True\<rparr>,
        column_def ''chunk_index'' (Plain Int4) False,
        column_def ''content'' (Plain Text) False,
        column_def ''content_hash'' (Plain (VarChar 64)) False,
        column_def ''char_start'' (Plain Int4) False,
        column_def ''char_end'' (Plain Int4) False,
        column_def ''embedding'' (Plain Vector) True,
        column_def ''embedding_model'' (Plain (VarChar 255)) True,
        column_def ''embedding_provider'' (Plain (VarChar 64)) True]
       @ timestamp_mixin,
     om_unique_constraints = [[''asset_id'', ''chunk_index'']],
     om_checks = [],
     om_indexes = []\<rparr>"

definition worker_heartbeat_model :: orm_model where
  "worker_heartbeat_model = \<lparr>om_table = ''worker_heartbeats'',
     om_columns =
       [(column_def ''worker_id'' (Plain (VarChar 128)) False)\<lparr>oc_primary_key := True\<rparr>,
        column_def ''started_at'' (Plain TimestampTz) False,
        column_def ''last_heartbeat_at'' (Plain TimestampTz) False]
       @ timestamp_mixin,
     om_unique_constraints = [],
     om_checks = [],
     om_indexes = []\<rparr>"

definition orm_models :: "orm_model list" where
  "orm_models =
     [product_model, asset_model, job_model, agent_definition_model, workflow_definition_model, user_model,
       llm_request_model, agent_run_model, workflow_run_model, workflow_step_run_model, document_chunk_model,
         worker_heartbeat_model]"

section \<open>A database that implements the models\<close>

text \<open>An enumeration is a VARCHAR that is long enough for the name of every member.\<close>

fun type_fits :: "orm_type \<Rightarrow> sql_type \<Rightarrow> bool" where
  "type_fits (Plain ty) t \<longleftrightarrow> t = ty"
| "type_fits (SAEnum names) (VarChar n) \<longleftrightarrow> list_all (\<lambda>s. length s \<le> n) names"
| "type_fits (SAEnum names) _ \<longleftrightarrow> False"

definition column_fits :: "orm_column \<Rightarrow> column \<Rightarrow> bool" where
  "column_fits c k \<longleftrightarrow> c_name k = oc_name c \<and> c_nullable k = oc_nullable c \<and> type_fits (oc_type c) (c_type k)
     \<and> (oc_server_default c \<noteq> None \<longrightarrow> c_default k = oc_server_default c)"

definition model_indexes :: "orm_model \<Rightarrow> db_index list" where
  "model_indexes m = map (\<lambda>c. index (''ix_'' @ om_table m @ ''_'' @ oc_name c) (om_table m) [oc_name c] (oc_unique c) [])
     (filter oc_index (om_columns m)) @ om_indexes m"

definition model_uniques :: "orm_model \<Rightarrow> string list list" where
  "model_uniques m = map (\<lambda>c. [oc_name c]) (filter (\<lambda>c. oc_unique c \<and> \<not> oc_index c) (om_columns m))
     @ om_unique_constraints m"

definition model_fks :: "orm_model \<Rightarrow> (string list \<times> string \<times> string list \<times> string option) list" where
  "model_fks m = concat (map (\<lambda>c. case oc_fk c of None \<Rightarrow> [] | Some (t, r, del) \<Rightarrow> [([oc_name c], t, [r], del)]) (om_columns m))"

definition table_fits :: "orm_model \<Rightarrow> db_table \<Rightarrow> bool" where
  "table_fits m t \<longleftrightarrow> length (om_columns m) = length (t_columns t)
     \<and> list_all (\<lambda>c. list_ex (column_fits c) (t_columns t)) (om_columns m)
     \<and> t_pk t = map oc_name (filter oc_primary_key (om_columns m))
     \<and> set (map (\<lambda>fk. (fk_columns fk, fk_table fk, fk_refs fk, fk_ondelete fk)) (t_fks t)) = set (model_fks m)
     \<and> set (map snd (t_uniques t)) = set (model_uniques m)
     \<and> set (map (\<lambda>k. (ck_name k, ck_text k)) (t_checks t)) = set (om_checks m)"

text \<open>Exactly the tables and indexes that the models declare.\<close>

definition implements :: "database \<Rightarrow> orm_model list \<Rightarrow> bool" where
  "implements db ms \<longleftrightarrow> length (db_tables db) = length ms
     \<and> list_all (\<lambda>m. table_satisfies db (om_table m) (table_fits m)) ms
     \<and> set (db_indexes db) = set (concat (map model_indexes ms))"

lemma skeleton_implements: "implements (skeleton db) ms \<longleftrightarrow> implements db ms"
proof -
  have "table_fits m (t\<lparr>t_rows := []\<rparr>) \<longleftrightarrow> table_fits m t" for m t by (simp add: table_fits_def)
  then have "table_satisfies (skeleton db) n (table_fits m) \<longleftrightarrow> table_satisfies db n (table_fits m)" for n m
    by (simp add: skeleton_satisfies)
  moreover have "length (db_tables (skeleton db)) = length (db_tables db)" by (simp add: skeleton_def)
  ultimately show ?thesis by (simp add: implements_def)
qed

lemma upgraded_effects: "upgraded ms db = Some s \<Longrightarrow> s = fold effect (concat (map mg_upgrade ms)) db"
  by (induction ms arbitrary: db) (auto split: option.splits dest: run_effects)

lemma head_schema: "schema_at (length migrations) = fold effect (concat (map mg_upgrade migrations)) empty_database"
proof -
  have "at_revision (revisions ! length migrations, schema_at (length migrations)) (length migrations)"
    by (rule schema_at_revision) simp
  then show ?thesis
    by (cases "upgraded migrations empty_database") (simp_all add: at_revision_def schema_at_def upgraded_effects)
qed

lemma head_implements_models:
  "implements (fold effect (concat (map mg_upgrade migrations)) empty_database) orm_models"
  by code_simp

text \<open>
  The unique indexes at the head: besides the partial index on active ingestion jobs, those whose names the
  services look for when a commit fails (\<open>services/product_service.py\<close>, \<open>services/user_service.py\<close>), and
  those of the definitions' names.
\<close>

lemma unique_indexes_at_head:
  "set (filter ix_unique (db_indexes (schema_at (length migrations)))) =
     {index ''ix_products_slug'' ''products'' [''slug''] True [], index ''ix_users_email'' ''users'' [''email''] True [],
      index ''ix_agent_definitions_name'' ''agent_definitions'' [''name''] True [],
      index ''ix_workflow_definitions_name'' ''workflow_definitions'' [''name''] True [],
      index ''uq_jobs_active_asset_ingestion'' ''jobs'' [''target_run_id''] True
        [(''job_type'', [''asset_ingestion'']), (''status'', [''QUEUED'', ''RUNNING'', ''RETRYING''])]}"
proof -
  have "set (db_indexes (schema_at (length migrations))) = set (concat (map model_indexes orm_models))"
    using head_implements_models unfolding implements_def head_schema by (rule conjunct2 [OF conjunct2])
  then have "set (filter ix_unique (db_indexes (schema_at (length migrations))))
      = set (filter ix_unique (concat (map model_indexes orm_models)))" by (simp only: set_filter)
  also have "filter ix_unique (concat (map model_indexes orm_models)) =
     [index ''ix_products_slug'' ''products'' [''slug''] True [],
      index ''uq_jobs_active_asset_ingestion'' ''jobs'' [''target_run_id''] True
        [(''job_type'', [''asset_ingestion'']), (''status'', [''QUEUED'', ''RUNNING'', ''RETRYING''])],
      index ''ix_agent_definitions_name'' ''agent_definitions'' [''name''] True [],
      index ''ix_workflow_definitions_name'' ''workflow_definitions'' [''name''] True [],
      index ''ix_users_email'' ''users'' [''email''] True []]"
    by code_simp
  finally show ?thesis by (simp add: insert_commute)
qed

section \<open>Loading rows\<close>

text \<open>The text of the exception is shortened to the offending value.\<close>

definition load_enum :: "string list \<Rightarrow> cell \<Rightarrow> exn + cell" where
  "load_enum names x = (case x of
       None \<Rightarrow> Inr None
     | Some s \<Rightarrow> if s \<in> set names then Inr (Some s) else Inl (PyExc ''LookupError'' s))"

fun load_cell :: "orm_type \<Rightarrow> cell \<Rightarrow> exn + cell" where
  "load_cell (Plain ty) x = Inr x"
| "load_cell (SAEnum names) x = load_enum names x"

fun load_columns :: "orm_column list \<Rightarrow> db_table \<Rightarrow> cell list \<Rightarrow> exn + (string \<times> cell) list" where
  "load_columns [] t r = Inr []"
| "load_columns (c # cs) t r = (case load_cell (oc_type c) (cell_of t r (oc_name c)) of
       Inl e \<Rightarrow> Inl e
     | Inr x \<Rightarrow> (case load_columns cs t r of Inl e \<Rightarrow> Inl e | Inr xs \<Rightarrow> Inr ((oc_name c, x) # xs)))"

definition load_row :: "orm_model \<Rightarrow> db_table \<Rightarrow> cell list \<Rightarrow> exn + (string \<times> cell) list" where
  "load_row m t r = load_columns (om_columns m) t r"

text \<open>A value that is no member's name makes the row unreadable; the first such column is reported.\<close>

lemma unreadable:
  assumes "c \<in> set cs" "oc_type c = SAEnum names" "cell_of t r (oc_name c) = Some s" "s \<notin> set names"
  shows "\<exists>v. load_columns cs t r = Inl (PyExc ''LookupError'' v)"
  using assms(1)
proof (induction cs)
  case (Cons d cs)
  have err: "\<exists>v. load_cell ty x = Inl (PyExc ''LookupError'' v)" if "load_cell ty x = Inl e" for ty x e
    using that by (cases ty) (auto simp: load_enum_def split: option.splits if_splits)
  show ?case
  proof (cases "load_cell (oc_type d) (cell_of t r (oc_name d))")
    case (Inl e)
    then show ?thesis using err [OF Inl] by auto
  next
    case (Inr x)
    then have "d \<noteq> c" using assms(2-4) by (auto simp: load_enum_def)
    then show ?thesis using Cons Inr by auto
  qed
qed simp

section \<open>Values that a migration puts into existing rows\<close>

text \<open>The rows of a table all hold the same value in a column.\<close>

definition rows_hold :: "database \<Rightarrow> string \<Rightarrow> string \<Rightarrow> cell \<Rightarrow> nat \<Rightarrow> bool" where
  "rows_hold db n c x k \<longleftrightarrow> table_satisfies db n (\<lambda>t. c \<in> set (column_names t) \<and> length (t_rows t) = k
     \<and> (\<forall>r\<in>set (t_rows t). cell_of t r c = x))"

fun leaves :: "string \<Rightarrow> ddl \<Rightarrow> bool" where
  "leaves n (DropTable m) \<longleftrightarrow> m \<noteq> n"
| "leaves n (DropColumn m _) \<longleftrightarrow> m \<noteq> n"
| "leaves n s \<longleftrightarrow> True"

fun adds_column :: "string \<Rightarrow> column \<Rightarrow> ddl list \<Rightarrow> bool" where
  "adds_column n c [] \<longleftrightarrow> False"
| "adds_column n c (s # ss) \<longleftrightarrow> list_all (leaves n) ss \<and> (s = AddColumn n c \<or> leaves n s \<and> adds_column n c ss)"

text \<open>The rows of a table survive, in number and in every cell.\<close>

definition rows_kept :: "database \<Rightarrow> database \<Rightarrow> string \<Rightarrow> bool" where
  "rows_kept db db' n \<longleftrightarrow> (\<forall>t. find_table db n = Some t \<longrightarrow> table_satisfies db' n (\<lambda>u.
     length (t_rows u) = length (t_rows t) \<and> set (column_names t) \<subseteq> set (column_names u)
     \<and> (\<forall>q\<in>set (t_rows u). \<exists>r\<in>set (t_rows t). \<forall>c\<in>set (column_names t). cell_of u q c = cell_of t r c)))"

lemma rows_kept_refl [simp]: "rows_kept db db n"
  by (auto simp: rows_kept_def table_satisfies_def)

lemma rows_kept_trans:
  assumes "rows_kept db db' n" "rows_kept db' db'' n"
  shows "rows_kept db db'' n"
  unfolding rows_kept_def
proof (intro allI impI)
  fix t assume "find_table db n = Some t"
  with assms(1) obtain u where u: "find_table db' n = Some u" "length (t_rows u) = length (t_rows t)"
      "set (column_names t) \<subseteq> set (column_names u)"
      "\<forall>q\<in>set (t_rows u). \<exists>r\<in>set (t_rows t). \<forall>c\<in>set (column_names t). cell_of u q c = cell_of t r c"
    by (auto simp: rows_kept_def elim!: table_satisfiesE)
  with assms(2) obtain v where v: "find_table db'' n = Some v" "length (t_rows v) = length (t_rows u)"
      "set (column_names u) \<subseteq> set (column_names v)"
      "\<forall>q\<in>set (t_rows v). \<exists>r\<in>set (t_rows u). \<forall>c\<in>set (column_names u). cell_of v q c = cell_of u r c"
    by (auto simp: rows_kept_def elim!: table_satisfiesE)
  have "\<exists>r\<in>set (t_rows t). \<forall>c\<in>set (column_names t). cell_of v q c = cell_of t r c" if "q \<in> set (t_rows v)" for q
    using v(4) u(3,4) that by (metis subsetD)
  with u(2,3) v(1-3) show "table_satisfies db'' n (\<lambda>u. length (t_rows u) = length (t_rows t)
      \<and> set (column_names t) \<subseteq> set (column_names u)
      \<and> (\<forall>q\<in>set (t_rows u). \<exists>r\<in>set (t_rows t). \<forall>c\<in>set (column_names t). cell_of u q c = cell_of t r c))"
    by (auto simp: table_satisfies_def)
qed

lemma rows_kept_on_table:
  assumes "\<And>t. t_name (f t) = t_name t" and "\<And>t. t_rows (f t) = t_rows t" and "\<And>t. column_names (f t) = column_names t"
  shows "rows_kept db (on_table m f db) n"
  using assms by (auto simp: rows_kept_def table_satisfies_def find_on_table cell_of_def)

lemma rows_kept_add_column:
  assumes ok: "database_ok db" and a: "allowed db (AddColumn m k)"
  shows "rows_kept db (on_table m (add_column k) db) n"
proof -
  have "cell_of (add_column k t) (r @ [x]) c = cell_of t r c"
    if t: "find_table db m = Some t" "r \<in> set (t_rows t)" "c \<in> set (column_names t)" for t r x c
  proof -
    have "length r = length (t_columns t)"
      using ok find_table_Some [OF t(1)] t(2) by (auto simp: database_ok_def table_ok_def list_all_iff)
    moreover have "c_name k \<notin> set (column_names t)" using a t(1) by (simp add: table_satisfies_def)
    ultimately show ?thesis using t(3) by (auto simp: cell_of_added)
  qed
  then show ?thesis by (auto simp: rows_kept_def table_satisfies_def find_on_table add_column_def column_names_def)
qed

lemma rows_kept_same: "find_table db' n = find_table db n \<Longrightarrow> rows_kept db db' n"
  by (auto simp: rows_kept_def table_satisfies_def)

lemma effect_rows_kept:
  assumes "database_ok db" "allowed db s" "leaves n s"
  shows "rows_kept db (effect s db) n"
proof (cases s)
  case (CreateTable t)
  then show ?thesis by (auto simp: rows_kept_def table_satisfies_def find_table_append)
next
  case (DropTable m)
  have "find (\<lambda>t. t_name t = n) (filter (\<lambda>t. t_name t \<noteq> m) ts) = find (\<lambda>t. t_name t = n) ts" if "m \<noteq> n" for ts :: "db_table list"
    using that by (induction ts) auto
  then show ?thesis using assms(3) DropTable by (intro rows_kept_same) (simp add: find_table_def)
next
  case (DropColumn m c)
  have "find_table (db\<lparr>db_indexes := xs\<rparr>) n = find_table db n" for xs by (simp add: find_table_def)
  then show ?thesis using assms(3) DropColumn
    by (intro rows_kept_same) (simp add: find_on_table split: option.split)
next
  case (AddColumn m k)
  then show ?thesis using rows_kept_add_column assms by simp
next
  case (AlterDefault m c d)
  then show ?thesis by (simp add: rows_kept_on_table set_default_def column_names_def comp_def if_distrib cong: if_cong)
next
  case (CreateForeignKey m fk)
  then show ?thesis by (simp add: rows_kept_on_table column_names_def)
next
  case (CreateUnique m k cs)
  then show ?thesis by (simp add: rows_kept_on_table column_names_def)
next
  case (DropConstraint m k)
  then show ?thesis by (simp add: rows_kept_on_table drop_constraint_def column_names_def)
qed (auto intro!: rows_kept_same simp: find_table_def)

lemma run_rows_kept:
  "run_all ss db = Some db' \<Longrightarrow> database_ok db \<Longrightarrow> undo_all db ss \<noteq> None \<Longrightarrow> list_all (leaves n) ss \<Longrightarrow> rows_kept db db' n"
proof (induction ss arbitrary: db)
  case (Cons s ss)
  have s: "allowed db s" "run_all ss (effect s db) = Some db'"
    using Cons.prems(1) by (auto simp: run_ddl_def split: if_splits)
  have u: "undo_of db s \<noteq> None" "undo_all (effect s db) ss \<noteq> None"
    using Cons.prems(3) by (auto split: option.splits)
  have "rows_kept db (effect s db) n" by (rule effect_rows_kept) (use Cons.prems s in auto)
  moreover have "rows_kept (effect s db) db' n"
    by (rule Cons.IH [OF s(2) effect_keeps_ok [OF Cons.prems(2) s(1) u(1)] u(2)]) (use Cons.prems in simp)
  ultimately show ?case by (rule rows_kept_trans)
qed simp

lemma rows_hold_kept:
  assumes "rows_hold db n c x k" "rows_kept db db' n"
  shows "rows_hold db' n c x k"
proof -
  obtain t where t: "find_table db n = Some t" "c \<in> set (column_names t)" "length (t_rows t) = k"
      "\<forall>r\<in>set (t_rows t). cell_of t r c = x"
    using assms(1) by (auto simp: rows_hold_def elim: table_satisfiesE)
  have "table_satisfies db' n (\<lambda>u. length (t_rows u) = length (t_rows t)
     \<and> set (column_names t) \<subseteq> set (column_names u)
     \<and> (\<forall>q\<in>set (t_rows u). \<exists>r\<in>set (t_rows t). \<forall>c\<in>set (column_names t). cell_of u q c = cell_of t r c))"
    using assms(2) t(1) by (simp add: rows_kept_def)
  then show ?thesis unfolding rows_hold_def
    by (rule table_satisfies_mono) (use t(2-4) in \<open>metis subsetD\<close>)
qed

definition row_count :: "database \<Rightarrow> string \<Rightarrow> nat" where
  "row_count db n = (case find_table db n of None \<Rightarrow> 0 | Some t \<Rightarrow> length (t_rows t))"

lemma row_count_kept: "rows_kept db db' n \<Longrightarrow> find_table db n \<noteq> None \<Longrightarrow> row_count db' n = row_count db n"
  by (auto simp: rows_kept_def row_count_def elim!: table_satisfiesE)

lemma rows_hold_added:
  assumes ok: "database_ok db" and a: "allowed db (AddColumn n c)"
  shows "rows_hold (effect (AddColumn n c) db) n (c_name c) (default_cell (c_default c)) (row_count db n)"
proof -
  obtain t where t: "find_table db n = Some t" "c_name c \<notin> set (column_names t)"
    using a by (auto elim: table_satisfiesE)
  have len: "length r = length (t_columns t)" if "r \<in> set (t_rows t)" for r
    using ok find_table_Some [OF t(1)] that by (auto simp: database_ok_def table_ok_def list_all_iff)
  have "cell_of (add_column c t) q (c_name c) = default_cell (c_default c)" if q: "q \<in> set (t_rows (add_column c t))" for q
  proof -
    obtain r where r: "r \<in> set (t_rows t)" "q = r @ [default_cell (c_default c)]"
      using q by (auto simp: add_column_def)
    with len t(2) show ?thesis by (simp add: cell_of_added)
  qed
  moreover have "length (t_rows (add_column c t)) = length (t_rows t)" by (simp add: add_column_def)
  ultimately show ?thesis using t(1)
    by (simp add: rows_hold_def row_count_def table_satisfies_def find_on_table)
qed

lemma run_adds_column:
  "run_all ss db = Some db' \<Longrightarrow> database_ok db \<Longrightarrow> undo_all db ss \<noteq> None \<Longrightarrow> adds_column n c ss \<Longrightarrow>
     find_table db n \<noteq> None \<Longrightarrow> rows_hold db' n (c_name c) (default_cell (c_default c)) (row_count db n)"
proof (induction ss arbitrary: db)
  case (Cons s ss)
  have s: "allowed db s" "run_all ss (effect s db) = Some db'"
    using Cons.prems(1) by (auto simp: run_ddl_def split: if_splits)
  have u: "undo_of db s \<noteq> None" "undo_all (effect s db) ss \<noteq> None"
    using Cons.prems(3) by (auto split: option.splits)
  note ok = effect_keeps_ok [OF Cons.prems(2) s(1) u(1)]
  show ?case
  proof (cases "s = AddColumn n c")
    case True
    then have "rows_hold (effect s db) n (c_name c) (default_cell (c_default c)) (row_count db n)"
      using rows_hold_added [OF Cons.prems(2)] s(1) by simp
    moreover have "rows_kept (effect s db) db' n"
      using run_rows_kept [OF s(2) ok u(2)] Cons.prems(4) by simp
    ultimately show ?thesis by (rule rows_hold_kept)
  next
    case False
    then have rest: "leaves n s" "adds_column n c ss" using Cons.prems(4) by auto
    have kept: "rows_kept db (effect s db) n" by (rule effect_rows_kept [OF Cons.prems(2) s(1) rest(1)])
    then have "find_table (effect s db) n \<noteq> None"
      using Cons.prems(5) by (auto simp: rows_kept_def elim!: table_satisfiesE)
    from Cons.IH [OF s(2) ok u(2) rest(2) this] show ?thesis
      using row_count_kept [OF kept Cons.prems(5)] by simp
  qed
qed simp

section \<open>Upgrading to the head\<close>

text \<open>\<open>alembic upgrade +k\<close>.\<close>

fun upgrade_steps :: "nat \<Rightarrow> deployment \<Rightarrow> deployment option" where
  "upgrade_steps 0 d = Some d"
| "upgrade_steps (Suc k) d = (case upgrade_step d of None \<Rightarrow> None | Some q \<Rightarrow> upgrade_steps k q)"

lemma upgrades_leave: "m \<in> set migrations \<Longrightarrow> list_all (leaves n) (mg_upgrade m)"
proof -
  have "list_all (\<lambda>m. list_all (leaves n) (mg_upgrade m)) migrations"
    by (simp add: migrations_def migration_defs upgrade_defs)
  then show "m \<in> set migrations \<Longrightarrow> list_all (leaves n) (mg_upgrade m)" by (simp add: list_all_iff)
qed

lemma upgrade_stepE:
  assumes "at_revision d i" "upgrade_step d = Some q"
  obtains "i < length migrations" "run_all (mg_upgrade (migrations ! i)) (snd d) = Some (snd q)"
    "undo_all (snd d) (mg_upgrade (migrations ! i)) \<noteq> None" "database_ok (snd d)" "at_revision q (Suc i)"
proof -
  have i: "i < length migrations" using assms(2) by (auto simp: upgrade_step_at [OF assms(1)] split: if_splits)
  moreover from this have "run_all (mg_upgrade (migrations ! i)) (snd d) = Some (snd q)"
    using assms(2) by (auto simp: upgrade_step_at [OF assms(1)])
  moreover have "undo_all (snd d) (mg_upgrade (migrations ! i)) \<noteq> None"
    using migration_at [OF assms(1) i] by (metis option.distinct(1))
  moreover have "database_ok (snd d)" using assms(1) by (simp add: at_revision_def)
  ultimately show ?thesis using that upgrade_then_downgrade [OF assms] by blast
qed

lemma steps_kept:
  "at_revision d i \<Longrightarrow> upgrade_steps k d = Some q \<Longrightarrow> rows_kept (snd d) (snd q) n \<and> at_revision q (i + k)"
proof (induction k arbitrary: d i)
  case (Suc k)
  then obtain p where p: "upgrade_step d = Some p" "upgrade_steps k p = Some q" by (auto split: option.splits)
  have "rows_kept (snd d) (snd p) n \<and> at_revision p (Suc i)"
    using upgrade_stepE [OF Suc.prems(1) p(1)] by (metis run_rows_kept upgrades_leave nth_mem)
  with Suc.IH [OF _ p(2)] show ?case using rows_kept_trans by fastforce
qed simp

lemma steps_add:
  "upgrade_steps (j + k) d = (case upgrade_steps j d of None \<Rightarrow> None | Some q \<Rightarrow> upgrade_steps k q)"
  by (induction j arbitrary: d) (auto split: option.splits)

lemma steps_accepted:
  "at_revision d i \<Longrightarrow> i + k < length migrations \<Longrightarrow> \<exists>q. upgrade_steps k d = Some q"
proof (induction k arbitrary: d i)
  case (Suc k)
  then obtain p where p: "upgrade_step d = Some p" using upgrade_accepted [OF Suc.prems(1)] by auto
  have "at_revision p (Suc i)" using upgrade_then_downgrade [OF Suc.prems(1) p] by simp
  from Suc.IH [OF this] Suc.prems(2) p show ?case by simp
qed simp

text \<open>A migration that adds a column, at revision \<open>j\<close>, and the upgrades after it.\<close>

lemma steps_add_column:
  assumes d: "at_revision d i" and q: "upgrade_steps (j + Suc k) d = Some q"
    and a: "adds_column n c (mg_upgrade (migrations ! (i + j)))" and t: "find_table (snd d) n \<noteq> None"
  shows "rows_hold (snd q) n (c_name c) (default_cell (c_default c)) (row_count (snd d) n)"
proof -
  obtain p where p: "upgrade_steps j d = Some p" "upgrade_steps (Suc k) p = Some q"
    using q unfolding steps_add by (auto split: option.splits)
  obtain s where s: "upgrade_step p = Some s" "upgrade_steps k s = Some q" using p(2) by (auto split: option.splits)
  have kp: "rows_kept (snd d) (snd p) n" "at_revision p (i + j)" using steps_kept [OF d p(1)] by simp_all
  have tp: "find_table (snd p) n \<noteq> None" using kp(1) t by (auto simp: rows_kept_def elim!: table_satisfiesE)
  have "rows_hold (snd s) n (c_name c) (default_cell (c_default c)) (row_count (snd p) n) \<and> at_revision s (Suc (i + j))"
    using upgrade_stepE [OF kp(2) s(1)] run_adds_column a tp by metis
  then show ?thesis
    using rows_hold_kept steps_kept [OF _ s(2)] row_count_kept [OF kp(1) t] by metis
qed

lemma target_run_id_added: "adds_column ''jobs'' (col ''target_run_id'' Uuid True None) (mg_upgrade (migrations ! 6))"
  by (simp add: migrations_def migration_defs upgrade_defs)

lemma asset_status_added:
  "adds_column ''assets'' (col ''status'' (sa_enum [''pending'', ''available'', ''failed'', ''deleted''] 16) False
     (Some (Literal ''available''))) (mg_upgrade (migrations ! 2))"
  by (simp add: migrations_def migration_defs upgrade_defs)

lemma old_jobs_table: "find_table (schema_at 1) ''jobs'' = Some jobs_table"
  by code_simp

lemma jobs_exist:
  assumes "1 \<le> i" "i \<le> 6"
  shows "find_table (schema_at i) ''jobs'' \<noteq> None"
proof -
  have d: "at_revision (revisions ! 1, schema_at 1) 1" by (rule schema_at_revision) (simp add: linear_history(3))
  obtain q where q: "upgrade_steps (i - 1) (revisions ! 1, schema_at 1) = Some q"
    using steps_accepted [OF d, of "i - 1"] assms linear_history(3) by auto
  have "rows_kept (schema_at 1) (snd q) ''jobs''" "at_revision q i" using steps_kept [OF d q] assms by simp_all
  moreover have "find_table (schema_at 1) ''jobs'' \<noteq> None" by (simp only: old_jobs_table) simp
  ultimately have "find_table (snd q) ''jobs'' \<noteq> None" by (auto simp: rows_kept_def elim!: table_satisfiesE)
  then show ?thesis by (simp add: at_revision_schema [OF \<open>at_revision q i\<close>, symmetric] find_skeleton split: option.splits)
qed

lemma no_duplicates_null:
  assumes "rows_hold db n c None k"
  shows "table_satisfies db n (\<lambda>t. no_duplicates t [c] cond)"
proof -
  have "no_duplicates t [c] cond" if "\<forall>r\<in>set (t_rows t). cell_of t r c = None" for t
  proof -
    have "filter (\<lambda>x. None \<notin> set x) (map (key_of t [c]) (filter (selects cond t) (t_rows t))) = []"
      using that by (auto simp: filter_empty_conv key_of_def)
    then show ?thesis by (simp add: no_duplicates_def)
  qed
  then show ?thesis using assms unfolding rows_hold_def by (auto elim!: table_satisfies_mono)
qed

text \<open>
  A database that has no \<open>jobs.target_run_id\<close> yet is upgraded to the head whatever rows it has: the column is
  added empty, so that its unique index finds nothing to refuse.
\<close>

lemma head_reached:
  assumes d: "at_revision d i" and i: "1 \<le> i" "i \<le> 6"
  shows "\<exists>q. upgrade_steps (11 - i) d = Some q"
proof -
  obtain p where p: "upgrade_steps (10 - i) d = Some p"
    using steps_accepted [OF d, of "10 - i"] i linear_history(3) by auto
  have pr: "at_revision p 10" using steps_kept [OF d p] i by simp
  let ?c = "col ''target_run_id'' Uuid True None"
  have "find_table (skeleton (snd d)) ''jobs'' \<noteq> None"
    unfolding at_revision_schema [OF d] using jobs_exist i by simp
  then have jobs: "find_table (snd d) ''jobs'' \<noteq> None" by (auto simp: find_skeleton split: option.splits)
  have "i + (6 - i) = 6" "(6 - i) + Suc 3 = 10 - i" using i by simp_all
  then have "rows_hold (snd p) ''jobs'' ''target_run_id'' None (row_count (snd d) ''jobs'')"
    using steps_add_column [OF d, of "6 - i" 3 p "''jobs''" ?c] p jobs target_run_id_added by (simp add: col_def)
  from last_upgrade_accepted [OF pr] no_duplicates_null [OF this] linear_history(3) obtain q where "upgrade_step p = Some q" by auto
  moreover have "11 - i = (10 - i) + 1" using i by simp
  ultimately have "upgrade_steps (11 - i) d = Some q" using p by (simp only: steps_add) simp
  then show ?thesis by blast
qed

section \<open>Properties\<close>

text \<open>
  C14: The migrations and the ORM models agree: a database migrated to the head, whatever rows it has, has
  exactly the tables of the models, each with exactly the columns of its model (nullability, a type that
  takes every value or member name, the server defaults the model declares), the same primary key, foreign
  keys with their delete rules, unique and check constraints, and exactly the indexes the models declare.
\<close>

theorem migrated_schema_implements_models:
  assumes "at_revision d (length migrations)"
  shows "implements (snd d) orm_models"
  using head_implements_models at_revision_schema [OF assms] skeleton_implements [of "snd d"]
  by (simp add: head_schema)

theorem migrated_schema_implements_models_witness:
  "implements (schema_at (length migrations)) orm_models"
  using migrated_schema_implements_models [OF schema_at_revision [of "length migrations"]] by simp

text \<open>
  C26: The backfill of the storage migration makes old assets unreadable. A deployment from before that
  migration is upgraded to the head whatever rows it has and every asset row survives, but the migration
  has put 'available' and 'local' into the new columns where the ORM model expects the member names
  AVAILABLE and LOCAL: loading any of these rows raises a LookupError.
\<close>

theorem backfilled_assets_are_unreadable:
  assumes d: "at_revision d 2"
  shows "\<exists>q t. upgrade_steps 9 d = Some q \<and> at_revision q 11 \<and> find_table (snd q) ''assets'' = Some t
    \<and> length (t_rows t) = row_count (snd d) ''assets''
    \<and> (\<forall>r\<in>set (t_rows t). \<exists>v. load_row asset_model t r = Inl (PyExc ''LookupError'' v))"
proof -
  obtain q where q: "upgrade_steps 9 d = Some q" using head_reached [OF d] by auto
  let ?c = "col ''status'' (sa_enum [''pending'', ''available'', ''failed'', ''deleted''] 16) False (Some (Literal ''available''))"
  have "find_table (skeleton (snd d)) ''assets'' \<noteq> None"
    unfolding at_revision_schema [OF d] old_assets_table by simp
  then have "find_table (snd d) ''assets'' \<noteq> None" by (auto simp: find_skeleton split: option.splits)
  then have "rows_hold (snd q) ''assets'' ''status'' (Some ''available'') (row_count (snd d) ''assets'')"
    using steps_add_column [OF d, of 0 8 q "''assets''" ?c] q asset_status_added by (simp add: col_def)
  then obtain t where t: "find_table (snd q) ''assets'' = Some t" "length (t_rows t) = row_count (snd d) ''assets''"
      "\<forall>r\<in>set (t_rows t). cell_of t r ''status'' = Some ''available''"
    by (auto simp: rows_hold_def elim: table_satisfiesE)
  have "\<exists>v. load_row asset_model t r = Inl (PyExc ''LookupError'' v)" if "r \<in> set (t_rows t)" for r
    unfolding load_row_def
    by (rule unreadable [of "(column_def ''status'' (SAEnum asset_status_names) False)\<lparr>oc_index := True\<rparr>"
        _ asset_status_names t r "''available''"])
      (use t(3) that in \<open>simp_all add: asset_model_def column_def_def asset_status_names_def\<close>)
  with q t(1,2) steps_kept [OF d q] show ?thesis by auto
qed

theorem backfilled_assets_are_unreadable_witness:
  "\<exists>q t. upgrade_steps 9 old_deployment = Some q \<and> find_table (snd q) ''assets'' = Some t \<and> length (t_rows t) = 1
    \<and> (\<forall>r\<in>set (t_rows t). \<exists>v. load_row asset_model t r = Inl (PyExc ''LookupError'' v))"
proof -
  have "row_count (snd old_deployment) ''assets'' = 1"
    using old_assets_table by (simp add: row_count_def old_deployment_def find_on_table)
  with backfilled_assets_are_unreadable [OF old_deployment_at] show ?thesis by auto
qed

end
