(* ===== verification/Spec2Isabelle.thy ===== *)
theory Spec2Isabelle
  imports Config Providers Api Streaming Process Database OrmSchema
begin

text \<open>
  The backend of the PackVerse platform (\<open>src/backend/app\<close>), modelled function by function.

  \<^bold>\<open>The program.\<close> A FastAPI service keeps a product catalog, digital assets, agent and workflow
  definitions, and their runs in one PostgreSQL database; worker processes claim the durable jobs of the
  \<open>jobs\<close> table and execute them. Clients authenticate with signed tokens; endpoints enqueue agent runs,
  workflow runs and asset ingestions, each together with its job. A worker claims a job, dispatches it
  by type, and settles it. An agent run is a loop of model calls (through a gateway over several
  providers, every call audited) and tool calls (through a client of MCP servers). A workflow run
  executes its steps one after another through the agent runtime. An ingestion turns an asset's bytes
  into embedded text chunks, which retrieval searches.

  \<^bold>\<open>Conventions.\<close> The database is the record \<open>world\<close> (\<open>Models\<close>), a list of rows per table. An
  asynchronous function is a function of type \<open>'a app\<close>: from a world to a result and a world, the result
  being an exception (\<open>exn\<close> of \<open>Errors\<close>, a constructor per exception class of the code) or a value.
  Whatever comes from outside (the clock, fresh identifiers, provider and server replies, outcomes of
  commits) is read from an oracle of the environment \<open>env\<close> at the position \<open>tick\<close> of the world, so a
  theorem that holds for every environment holds for every sequence of outside answers. JSON is the
  datatype \<open>json\<close> with Python's dynamic operations on it (\<open>PyJson\<close>, \<open>JsonText\<close>, \<open>Providers\<close>), each of
  which raises what Python raises. Times are integers in microseconds, Python's integers are \<open>int\<close>, the
  digest of \<open>hashlib.sha256\<close> is computed on 32-bit words (\<open>Sha256\<close>).
\<close>

section \<open>Theories and sources\<close>

text \<open>
  \<^item> \<open>Prelude\<close>: the monad with its Hoare logic and its \<open>raises_only\<close> rules, tables as lists with the
    interface \<open>row_store\<close>, paging. \<open>PyJson\<close>, \<open>JsonText\<close>: Python values, \<open>json.loads\<close>, \<open>json.dumps\<close>,
    \<open>uuid.UUID\<close>. \<open>Enums\<close>, \<open>Errors\<close>, \<open>Models\<close>: \<open>models/\<close> and the exception modules.
  \<^item> \<open>Lifecycle\<close>: the status machines of \<open>jobs/models.py\<close>, \<open>runtime/models.py\<close>, \<open>workflows/models.py\<close>.
  \<^item> \<open>JobQueue\<close>: \<open>jobs/queue.py\<close>, one definition per operation. \<open>QueueSystem\<close>: several workers, clients
    and the passage of time on one queue as an inductive step relation, with what a session holds.
  \<^item> \<open>JobService\<close>: \<open>jobs/service.py\<close>. \<open>Dispatch\<close>: \<open>worker/dispatch.py\<close>. \<open>Runner\<close>: \<open>worker/runner.py\<close> and
    \<open>worker/healthcheck.py\<close>.
  \<^item> \<open>Process\<close>: the start of a process, \<open>worker/main.py\<close>, \<open>core/logging.py\<close> and the root endpoint of \<open>main.py\<close>.
    \<open>Database\<close>: the connection strings of \<open>core/config.py\<close>, \<open>database/session.py\<close> and the URL of \<open>alembic/env.py\<close>.
  \<^item> \<open>Config\<close>: \<open>core/config.py\<close>. \<open>Llm\<close>, \<open>Providers\<close>, \<open>Gateway\<close>, \<open>Streaming\<close>: \<open>llm/\<close>. \<open>LlmService\<close>:
    \<open>services/llm_service.py\<close>. \<open>Mcp\<close>: \<open>mcp/\<close>.
  \<^item> \<open>Runtime\<close>, \<open>RuntimeExecutor\<close>: \<open>runtime/\<close>. \<open>WorkflowDefs\<close>, \<open>WorkflowExecutor\<close>: \<open>workflows/\<close>.
  \<^item> \<open>Chunking\<close>, \<open>Ingestion\<close>: \<open>rag/\<close>, \<open>services/ingestion_service.py\<close>, \<open>services/retrieval_service.py\<close>,
    with UTF-8 decoding as Python does it.
  \<^item> \<open>Storage\<close>: \<open>storage/base.py\<close> and \<open>storage/local.py\<close>. \<open>S3\<close>: \<open>storage/s3.py\<close> and
    \<open>storage/factory.py\<close>. \<open>Assets\<close>: \<open>services/asset_service.py\<close>.
  \<^item> \<open>Auth\<close>: \<open>core/security.py\<close>, \<open>services/user_service.py\<close>, \<open>api/deps.py\<close>, \<open>api/v1/auth.py\<close> and their
    schemas. \<open>Products\<close>: \<open>services/product_service.py\<close>, \<open>api/v1/products.py\<close> and their schemas.
  \<^item> \<open>Api\<close>: the endpoints of \<open>api/v1/runs.py\<close>, \<open>workflow_runs.py\<close>, \<open>llm.py\<close>, \<open>mcp.py\<close>, \<open>assets.py\<close>,
    \<open>health.py\<close>, the translation of exceptions into status codes, and \<open>serve\<close>, which answers a request.
  \<^item> \<open>Schema\<close>: schemas with rows and the statements of Alembic's operations on them, each with the conditions
    under which PostgreSQL accepts it. \<open>Migrations\<close>: every file of \<open>alembic/versions\<close> as two lists of
    statements, and \<open>alembic upgrade\<close> and \<open>downgrade\<close>. \<open>OrmSchema\<close>: the table definitions of \<open>models/\<close>, when
    a database implements them, and the loading of enumeration columns.
\<close>

section \<open>Interfaces\<close>

text \<open>
  \<^item> \<open>row_store\<close> (\<open>Prelude\<close>): lookup after insertion in a table; interpreted for every table of \<open>Models\<close>.
  \<^item> \<open>lifecycle\<close>, \<open>ranked_lifecycle\<close> (\<open>Lifecycle\<close>): a transition table with its validator and terminal
    states; interpreted for the four machines, of which three are acyclic.
  \<^item> \<open>unit_of_work\<close> (\<open>QueueSystem\<close>): what flushing a changed object does to its row; interpreted for a
    flush that writes the changed columns.
  \<^item> \<open>llm_provider\<close>, \<open>strict_llm_provider\<close> (\<open>Llm\<close>): what the gateway may rely on of a provider (it leaves
    the tables alone and raises only model errors and Python exceptions; a strict one only model
    errors); interpreted for the fake provider and both HTTP adapters.
  \<^item> \<open>storage_contract\<close> (\<open>Storage\<close>): what the asset service relies on of a backend; interpreted for the local
    filesystem. \<open>S3\<close> proves the corresponding facts for the S3 backend from the service's documented
    consistency.
  \<^item> \<open>auth_guard\<close> (\<open>Auth\<close>): an authorization dependency writes nothing and rejects with 401 or 403;
    interpreted for the three dependencies of \<open>api/deps.py\<close>.
  \<^item> \<open>streaming_provider\<close> (\<open>Streaming\<close>): a stream read to its end does what one call of \<open>generate\<close> does;
    interpreted for the streams of the fake provider and both HTTP adapters.
\<close>

section \<open>What is shown\<close>

text \<open>
  \<^item> Queue: in runs in which no lease expires under a live session no two workers hold a job, a terminal
    row never changes, attempts stay within the maximum, and every claim makes progress. What happens
    when a lease does expire is a theorem as well (\<open>late_completion_overwrites_failed_job\<close>).
  \<^item> Enqueueing and cancelling: a run and its job are committed together or not at all, at most one active
    ingestion job per asset, and the exact outcome of each cancellation.
  \<^item> Execution: the rows an agent run or workflow run leaves, for every result, cancellation and error;
    that a claimed job is settled and mirrors its run; the bound on the tool loop and on retries;
    which exceptions escape the worker; how a worker process starts and ends.
  \<^item> Language models: every gateway call is audited once, structured output is validated, audit rows
    are private, and streams agree with \<open>generate\<close>.
  \<^item> Content: chunks reassemble to the text; ingestion is atomic; retrieval returns the nearest chunks;
    what was uploaded is what is downloaded; keys stay under the storage root; the S3 backend is a store
    of objects; deletion.
  \<^item> Accounts, catalog and endpoints: authorization admits exactly valid tokens of active accounts with
    an allowed role; tokens round-trip; accounts and products keep their invariants under every
    sequence of requests; a caller who may not write changes no table; no error of the application
    escapes an endpoint unmapped.
  \<^item> Schema: every migration is undone exactly by its downgrade, whatever rows there are; rows block only the
    last upgrade; the schema at the head is the one the ORM models declare; and the rows that the storage
    migration backfills cannot be loaded by the model.
\<close>

section \<open>Parameters, bounds and limits\<close>

text \<open>
  Code that is not part of the repository is a parameter with its documented behaviour as a named
  hypothesis where a theorem needs it: signing and checking tokens and passwords (\<open>crypto\<close>), e-mail
  validation, the S3 client (\<open>s3_laws\<close>), the PDF reader, the distance operator, HTTP transports, JSON schema
  validation, failures of the database (\<open>commit\<close>, whose exceptions are the driver's: \<open>foreign_commit\<close>).

  The chain of the eleven migrations is evaluated once, on the empty database; what it
  shows carries over to databases with rows because statements read rows only in the conditions that
  \<open>rows_irrelevant\<close> names. Of values, a row of \<open>Schema\<close> has only NULL or a text; checks that compute with
  values (CHECK expressions, lengths of VARCHAR) are not evaluated on rows, since no migration adds one to
  existing columns.

  The poll loop \<open>worker_loop\<close> takes the number of its iterations as an argument; its theorems are about
  every number. The retry loop, the window of the chunker, the UTF-8 decoder and the JSON parser
  have termination proofs (measures: retries left, distance to the end of the text, bytes left).

  A transaction is the list of writes up to its commit: statements of concurrent transactions interleave
  only in \<open>QueueSystem\<close>, with row locks as the set \<open>locked\<close>. Characters are code points below 256 except
  for extracted texts, which are lists of code points.
\<close>

section \<open>Not modelled\<close>

text \<open>
  \<^item> Connecting Alembic to the database (\<open>alembic/env.py\<close>). Of the constraints of the tables, the services'
    commits check the unique and partial unique indexes that the code relies on (\<open>JobService\<close>, \<open>Products\<close>,
    \<open>Auth\<close>), the 32-bit price and the widths of the text columns named there, and no others.
  \<^item> Connection pooling, log output, signal handling beyond the shutdown event, router registration, package
    exports: wiring and I/O.
  \<^item> A consumer that stops reading a stream early.
  \<^item> Reading the environment and the \<open>.env\<close> file, which pydantic-settings does; \<open>Config\<close> starts from the
    values of the fields.
  \<^item> Read schemas that copy the columns of a row: an endpoint returns the row.
\<close>

end
